theory Spec2Isabelle
  imports Main
begin

section \<open>Values that cross the engine's boundary\<close>

text \<open>
  The engine is the class \<open>IncrementalIngestionEngine\<close>. Everything it does is a call
  to one of three collaborators: the database manager (lifecycle record and progress
  marks), the entity provider (\<open>around\<close>, \<open>next\<close>) and the catalog connection
  (\<open>applyMutation\<close>). Each of these calls may throw. A thrown JavaScript value is
  an object carrying a \<open>name\<close> and a \<open>message\<close> (an \<open>Error\<close> or one of its subclasses), a
  plain string, which has no \<open>message\<close> property, or \<open>undefined\<close> or \<open>null\<close> (a promise
  may be rejected with either), on which reading a property throws; the engine
  distinguishes exactly these (\<open>(error as Error).message\<close>, \<open>typeof error === 'string'\<close>).
  A thrown number or boolean has no \<open>message\<close> either and goes the way of a string.
  The logger's calls have no effect on what follows and are left out, but their arguments
  are evaluated first, and the two that call \<open>toHuman\<close> may throw there.
\<close>

datatype thrown =
    JsError (err_name: string) (err_message: string)
  | JsString string
  | JsUndefined
  | JsNull

text \<open>\<open>`${error}`\<close>: an error object prints as \<open>name: message\<close>, as the name alone when the
  message is empty and as the message alone when the name is; a string prints as itself.\<close>

fun thrown_text :: "thrown \<Rightarrow> string" where
  "thrown_text (JsError n m) = (if m = [] then n else if n = [] then m else n @ '': '' @ m)"
| "thrown_text (JsString s) = s"
| "thrown_text JsUndefined = ''undefined''"
| "thrown_text JsNull = ''null''"

text \<open>\<open>(error as Error).message\<close>: the message of an error object, \<open>undefined\<close> for a
  string, and a \<open>TypeError\<close> for \<open>undefined\<close> and \<open>null\<close>, which have no properties. (The
  messages of the errors that the runtime throws are given without their quotation marks;
  the engine only compares a message with \<open>'CANCEL'\<close>.)\<close>

fun message_of :: "thrown \<Rightarrow> thrown + string option" where
  "message_of (JsError n m) = Inr (Some m)"
| "message_of (JsString s) = Inr None"
| "message_of JsUndefined =
     Inl (JsError ''TypeError'' ''Cannot read properties of undefined (reading message)'')"
| "message_of JsNull =
     Inl (JsError ''TypeError'' ''Cannot read properties of null (reading message)'')"

text \<open>
  \<open>DurationObjectUnits\<close> of luxon: every unit is optional, and the duration made by
  \<open>Duration.fromObject\<close> has exactly the units of the object. An absent unit counts as 0:
  \<open>Duration.fromObject(d).as('milliseconds')\<close> converts with luxon's casual matrix
  (a year is 365 days, a quarter 91 days, a month 30 days, a week 7 days).
\<close>

record duration_units =
  years :: "int option"
  quarters :: "int option"
  months :: "int option"
  weeks :: "int option"
  days :: "int option"
  hours :: "int option"
  minutes :: "int option"
  seconds :: "int option"
  milliseconds :: "int option"

definition no_units :: duration_units where
  "no_units = \<lparr>years = None, quarters = None, months = None, weeks = None, days = None,
     hours = None, minutes = None, seconds = None, milliseconds = None\<rparr>"

definition unit_value :: "int option \<Rightarrow> int" where
  "unit_value v = (case v of None \<Rightarrow> 0 | Some n \<Rightarrow> n)"

definition as_milliseconds :: "duration_units \<Rightarrow> int" where
  "as_milliseconds d =
     ((((unit_value (years d) * 365 + unit_value (quarters d) * 91 + unit_value (months d) * 30
         + unit_value (weeks d) * 7 + unit_value (days d)) * 24
        + unit_value (hours d)) * 60 + unit_value (minutes d)) * 60 + unit_value (seconds d))
       * 1000 + unit_value (milliseconds d)"

text \<open>
  \<open>Duration.toHuman()\<close> formats each unit the duration has with \<open>Intl.NumberFormat\<close>
  (\<open>style: 'unit'\<close>, the unit's name in the singular). \<open>quarter\<close> is not among the units
  \<open>Intl.NumberFormat\<close> accepts, so a duration that has the unit \<open>quarters\<close>, whatever its
  value, throws a \<open>RangeError\<close>; every other duration gives a text, which goes to the log
  only and is not modelled.
\<close>

definition toHuman :: "duration_units \<Rightarrow> thrown + unit" where
  "toHuman d =
     (case quarters d of
        None \<Rightarrow> Inr ()
      | Some q \<Rightarrow>
          Inl (JsError ''RangeError'' ''Invalid unit argument for Intl.NumberFormat() quarter''))"

text \<open>A catalog entity, as far as the engine touches it: the annotations of its metadata.
  Absent annotations spread to no keys, so they are the empty map.\<close>

record entity_metadata =
  md_name :: string
  md_annotations :: "string \<rightharpoonup> string"

record entity =
  ent_apiVersion :: string
  ent_kind :: string
  ent_metadata :: entity_metadata

record deferred_entity =
  de_entity :: entity
  de_locationKey :: "string option"

text \<open>The argument of \<open>connection.applyMutation\<close>.\<close>

record mutation =
  mut_type :: string
  mut_added :: "deferred_entity list"
  mut_removed :: "deferred_entity list"

text \<open>The row handed to \<open>manager.createMark\<close>. The cursor is opaque (\<open>unknown\<close>, possibly
  \<open>undefined\<close>): a type variable under \<open>option\<close>. Sequence numbers are JavaScript numbers
  holding integers; they are modelled as unbounded integers.\<close>

record 'c mark_record =
  mark_id :: nat
  ingestion_id :: string
  mark_cursor :: "'c option"
  mark_sequence :: int

text \<open>One result of \<open>provider.next\<close>.\<close>

record 'c page =
  page_entities :: "deferred_entity list"
  page_cursor :: "'c option"
  page_done :: bool

text \<open>The lifecycle record of the provider's current ingestion.\<close>

record ingestion_record =
  rec_id :: string
  next_action :: string
  attempts :: int
  next_action_at :: int
  status :: string
  last_error :: "string option"

text \<open>Every call the engine makes on a collaborator, with its arguments.\<close>

datatype 'c call =
    GetCurrentIngestionRecord string
  | CreateProviderIngestionRecord string
  | ClearFinishedIngestions string
  | SetProviderComplete string
  | SetProviderBursting string
  | SetProviderResting string duration_units
  | SetProviderInterstitial string
  | SetProviderCanceling string string
  | SetProviderBackoff string int thrown int
  | SetProviderIngesting string
  | SetProviderCanceled string
  | GetLastMark string
  | CreateMark "'c mark_record"
  | CreateMarkEntities nat "deferred_entity list"
  | ComputeRemoved string string
  | ApplyMutation mutation
  | ProviderNext "'c option"

section \<open>The world the engine acts on\<close>

text \<open>
  The persistent store (the current lifecycle record, the finished ingestions, the marks and
  their entities), the target store (the mutations applied to it, in order), the pages the
  provider has handed out (each with the cursor it was asked with), the sequence of all
  calls made so far, and the supply of fresh mark ids (\<open>v4()\<close>).
\<close>

record 'c world =
  current :: "ingestion_record option"
  finished :: "ingestion_record list"
  marks :: "'c mark_record list"
  mark_entities :: "(nat \<times> deferred_entity list) list"
  mutations :: "mutation list"
  fetched :: "('c option \<times> 'c page) list"
  trace :: "'c call list"
  uuid_next :: nat

text \<open>
  What the engine is constructed with (\<open>IterationEngineOptions\<close>), and how its collaborators
  answer. The answers may depend on the whole world, which holds the calls made so far, so
  any schedule of pages, failures, clock readings and abort times is an environment.
  \<open>annotation_key\<close> is the constant \<open>INCREMENTAL_ENTITY_PROVIDER_ANNOTATION\<close>, which the
  engine imports from \<open>../types\<close>; its value is a parameter.
\<close>

record 'c env =
  providerName :: string
  annotation_key :: string
  opt_restLength :: duration_units
  opt_backoff :: "duration_units list option"
  next_result :: "'c world \<Rightarrow> 'c option \<Rightarrow> thrown + 'c page"
  removed_result :: "'c world \<Rightarrow> thrown + deferred_entity list"
  created_result :: "'c world \<Rightarrow> ingestion_record option"
  call_fails :: "'c world \<Rightarrow> 'c call \<Rightarrow> thrown option"
  signal_aborted :: "'c world \<Rightarrow> bool"
  date_now :: "'c world \<Rightarrow> int"

text \<open>The constructor: \<open>restLength\<close>, and \<open>options.backoff ?? [1 min, 5 min, 30 min, 3 h]\<close>.\<close>

definition default_backoff :: "duration_units list" where
  "default_backoff =
     [no_units\<lparr>minutes := Some 1\<rparr>, no_units\<lparr>minutes := Some 5\<rparr>,
      no_units\<lparr>minutes := Some 30\<rparr>, no_units\<lparr>hours := Some 3\<rparr>]"

definition restLength :: "'c env \<Rightarrow> duration_units" where
  "restLength env = opt_restLength env"

definition backoff :: "'c env \<Rightarrow> duration_units list" where
  "backoff env = (case opt_backoff env of None \<Rightarrow> default_backoff | Some t \<Rightarrow> t)"

text \<open>Sequencing of calls that may throw: the first error ends the computation, with the
  world as it was when the error was thrown.\<close>

definition bindE ::
  "('w \<Rightarrow> (thrown + 'a) \<times> 'w) \<Rightarrow> ('a \<Rightarrow> 'w \<Rightarrow> (thrown + 'b) \<times> 'w) \<Rightarrow> 'w \<Rightarrow> (thrown + 'b) \<times> 'w" where
  "bindE m f w = (case m w of (Inl e, w1) \<Rightarrow> (Inl e, w1) | (Inr x, w1) \<Rightarrow> f x w1)"

definition returnE :: "'a \<Rightarrow> 'w \<Rightarrow> (thrown + 'a) \<times> 'w" where
  "returnE x w = (Inr x, w)"

text \<open>A call with no result: it is recorded, and it either throws, leaving the stores as
  they are, or takes effect.\<close>

definition invoke ::
  "'c env \<Rightarrow> 'c call \<Rightarrow> ('c world \<Rightarrow> 'c world) \<Rightarrow> 'c world \<Rightarrow> (thrown + unit) \<times> 'c world" where
  "invoke env c eff w =
     (case call_fails env w c of
        Some e \<Rightarrow> (Inl e, w\<lparr>trace := trace w @ [c]\<rparr>)
      | None \<Rightarrow> (Inr (), (eff w)\<lparr>trace := trace w @ [c]\<rparr>))"

section \<open>The database manager\<close>

text \<open>
  The class \<open>IncrementalIngestionDatabaseManager\<close> is imported by the engine; its code is
  not part of what is verified here. Each of its operations is modelled from the
  specification's data model (section 3), transition table (section 4.1) and interface list
  (section 6), and each may throw, as the environment decides.
\<close>

text \<open>Modelled from the spec: a lifecycle transition changes the record of the ingestion it
  names, when that is the provider's current one (section 3: the record is mutated in place;
  the manager's own code is missing).\<close>

definition upd_current ::
  "string \<Rightarrow> (ingestion_record \<Rightarrow> ingestion_record) \<Rightarrow> 'c world \<Rightarrow> 'c world" where
  "upd_current iid f w =
     (case current w of
        Some r \<Rightarrow> if rec_id r = iid then w\<lparr>current := Some (f r)\<rparr> else w
      | None \<Rightarrow> w)"

text \<open>Modelled from the spec: an ingestion that is marked complete or canceled is no longer the
  provider's current one, so that the next tick creates a fresh record; it stays among the
  finished ingestions until they are purged (sections 3 and 4.1; the manager's own code is
  missing).\<close>

definition retire_current :: "string \<Rightarrow> string \<Rightarrow> 'c world \<Rightarrow> 'c world" where
  "retire_current iid st w =
     (case current w of
        Some r \<Rightarrow>
          if rec_id r = iid
          then w\<lparr>current := None, finished := finished w @ [r\<lparr>status := st\<rparr>]\<rparr>
          else w
      | None \<Rightarrow> w)"

text \<open>Modelled from the spec: \<open>getCurrentIngestionRecord(providerName) -> Record?\<close> (section 6),
  the provider's current record if there is one; the manager's method is missing.\<close>

definition getCurrentIngestionRecord ::
  "'c env \<Rightarrow> 'c world \<Rightarrow> (thrown + ingestion_record option) \<times> 'c world" where
  "getCurrentIngestionRecord env w =
     (case call_fails env w (GetCurrentIngestionRecord (providerName env)) of
        Some e \<Rightarrow> (Inl e, w\<lparr>trace := trace w @ [GetCurrentIngestionRecord (providerName env)]\<rparr>)
      | None \<Rightarrow>
          (Inr (current w), w\<lparr>trace := trace w @ [GetCurrentIngestionRecord (providerName env)]\<rparr>))"

text \<open>Modelled from the spec: \<open>createProviderIngestionRecord(providerName)\<close> (section 6), whose
  method is missing. It may return nothing (section 4.1, last paragraph); a record it returns
  is the current one from then on. Which record it returns is the store's choice.\<close>

definition createProviderIngestionRecord ::
  "'c env \<Rightarrow> 'c world \<Rightarrow> (thrown + ingestion_record option) \<times> 'c world" where
  "createProviderIngestionRecord env w =
     (case call_fails env w (CreateProviderIngestionRecord (providerName env)) of
        Some e \<Rightarrow>
          (Inl e, w\<lparr>trace := trace w @ [CreateProviderIngestionRecord (providerName env)]\<rparr>)
      | None \<Rightarrow>
          (case created_result env w of
             None \<Rightarrow>
               (Inr None, w\<lparr>trace := trace w @ [CreateProviderIngestionRecord (providerName env)]\<rparr>)
           | Some r \<Rightarrow>
               (Inr (Some r),
                w\<lparr>current := Some r,
                  trace := trace w @ [CreateProviderIngestionRecord (providerName env)]\<rparr>)))"

text \<open>Modelled from the spec: \<open>clearFinishedIngestions(providerName)\<close>, whose method is missing,
  purges the completed ingestions and with them their marks (section 3: marks are retained
  until the owning ingestion's records are cleared at rest-period completion).\<close>

definition clearFinishedIngestions :: "'c env \<Rightarrow> 'c world \<Rightarrow> (thrown + unit) \<times> 'c world" where
  "clearFinishedIngestions env w =
     invoke env (ClearFinishedIngestions (providerName env))
       (\<lambda>w. let gone = set (map rec_id (finished w));
                kept = filter (\<lambda>m. ingestion_id m \<notin> gone) (marks w)
            in w\<lparr>finished := [], marks := kept,
                 mark_entities :=
                   filter (\<lambda>(i, es). i \<in> set (map mark_id kept)) (mark_entities w)\<rparr>) w"

text \<open>Modelled from the spec: \<open>setProviderComplete\<close>, whose method is missing, marks the
  ingestion complete; a fresh cycle follows (section 4.1, row \<open>rest\<close>).\<close>

definition setProviderComplete :: "'c env \<Rightarrow> string \<Rightarrow> 'c world \<Rightarrow> (thrown + unit) \<times> 'c world" where
  "setProviderComplete env iid w =
     invoke env (SetProviderComplete iid) (retire_current iid ''complete'') w"

text \<open>Modelled from the spec: \<open>setProviderCanceled\<close>, whose method is missing, finalizes the
  cancellation; the cycle restarts with a new ingestion identity (section 4.1, row
  \<open>cancel\<close>).\<close>

definition setProviderCanceled :: "'c env \<Rightarrow> string \<Rightarrow> 'c world \<Rightarrow> (thrown + unit) \<times> 'c world" where
  "setProviderCanceled env iid w =
     invoke env (SetProviderCanceled iid) (retire_current iid ''canceled'') w"

text \<open>Modelled from the spec: \<open>setProviderBursting\<close>, whose method is missing, marks the
  ingestion as actively bursting (section 4.1, row \<open>ingest\<close>).\<close>

definition setProviderBursting :: "'c env \<Rightarrow> string \<Rightarrow> 'c world \<Rightarrow> (thrown + unit) \<times> 'c world" where
  "setProviderBursting env iid w =
     invoke env (SetProviderBursting iid) (upd_current iid (\<lambda>r. r\<lparr>status := ''bursting''\<rparr>)) w"

text \<open>Modelled from the spec: \<open>setProviderInterstitial\<close>, whose method is missing: the next action
  is \<open>ingest\<close>, marked interstitial (section 4.1); the attempts are reset on success
  (section 3).\<close>

definition setProviderInterstitial ::
  "'c env \<Rightarrow> string \<Rightarrow> 'c world \<Rightarrow> (thrown + unit) \<times> 'c world" where
  "setProviderInterstitial env iid w =
     invoke env (SetProviderInterstitial iid)
       (upd_current iid (\<lambda>r. r\<lparr>next_action := ''ingest'', attempts := 0,
                               status := ''interstitial''\<rparr>)) w"

text \<open>Modelled from the spec: \<open>setProviderResting\<close>, whose method is missing: the next action is
  \<open>rest\<close>, due at now plus the rest length (section 4.1); the attempts are reset on success
  (section 3).\<close>

definition setProviderResting ::
  "'c env \<Rightarrow> string \<Rightarrow> duration_units \<Rightarrow> 'c world \<Rightarrow> (thrown + unit) \<times> 'c world" where
  "setProviderResting env iid len w =
     invoke env (SetProviderResting iid len)
       (upd_current iid (\<lambda>r. r\<lparr>next_action := ''rest'', attempts := 0,
                               next_action_at := date_now env w + as_milliseconds len,
                               status := ''resting''\<rparr>)) w"

text \<open>Modelled from the spec: \<open>setProviderIngesting\<close>, whose method is missing, resets the
  ingestion to resume ingesting (section 4.1, row \<open>backoff\<close>).\<close>

definition setProviderIngesting ::
  "'c env \<Rightarrow> string \<Rightarrow> 'c world \<Rightarrow> (thrown + unit) \<times> 'c world" where
  "setProviderIngesting env iid w =
     invoke env (SetProviderIngesting iid)
       (upd_current iid (\<lambda>r. r\<lparr>next_action := ''ingest'', status := ''bursting''\<rparr>)) w"

text \<open>Modelled from the spec: \<open>setProviderCanceling\<close>, whose method is missing, marks the
  ingestion as canceling and records the reason; the next action is \<open>cancel\<close>
  (section 4.1).\<close>

definition setProviderCanceling ::
  "'c env \<Rightarrow> string \<Rightarrow> string \<Rightarrow> 'c world \<Rightarrow> (thrown + unit) \<times> 'c world" where
  "setProviderCanceling env iid reason w =
     invoke env (SetProviderCanceling iid reason)
       (upd_current iid (\<lambda>r. r\<lparr>next_action := ''cancel'', last_error := Some reason,
                               status := ''canceling''\<rparr>)) w"

text \<open>Modelled from the spec: \<open>setProviderBackoff\<close>, whose method is missing: the next action is
  \<open>backoff\<close>, due at now plus the delay; the attempts it is given are incremented and the
  failure reason is recorded (section 4.1).\<close>

definition setProviderBackoff ::
  "'c env \<Rightarrow> string \<Rightarrow> int \<Rightarrow> thrown \<Rightarrow> int \<Rightarrow> 'c world \<Rightarrow> (thrown + unit) \<times> 'c world" where
  "setProviderBackoff env iid att err delay w =
     invoke env (SetProviderBackoff iid att err delay)
       (upd_current iid (\<lambda>r. r\<lparr>next_action := ''backoff'', attempts := att + 1,
                               next_action_at := date_now env w + delay,
                               last_error := Some (thrown_text err),
                               status := ''backing off''\<rparr>)) w"

text \<open>Modelled from the spec: \<open>getLastMark(ingestionId) -> {cursor, sequence}?\<close> (section 6),
  whose method is missing: the mark of the ingestion that was persisted last, if any.\<close>

definition last_mark_of :: "string \<Rightarrow> 'c mark_record list \<Rightarrow> 'c mark_record option" where
  "last_mark_of iid ms =
     (case filter (\<lambda>m. ingestion_id m = iid) ms of [] \<Rightarrow> None | x # xs \<Rightarrow> Some (last (x # xs)))"

definition getLastMark ::
  "'c env \<Rightarrow> string \<Rightarrow> 'c world \<Rightarrow> (thrown + 'c mark_record option) \<times> 'c world" where
  "getLastMark env iid w =
     (case call_fails env w (GetLastMark iid) of
        Some e \<Rightarrow> (Inl e, w\<lparr>trace := trace w @ [GetLastMark iid]\<rparr>)
      | None \<Rightarrow> (Inr (last_mark_of iid (marks w)), w\<lparr>trace := trace w @ [GetLastMark iid]\<rparr>))"

text \<open>Modelled from the spec: \<open>createMark\<close>, whose method is missing, appends the mark (section
  5: append-only mark creation).\<close>

definition createMark :: "'c env \<Rightarrow> 'c mark_record \<Rightarrow> 'c world \<Rightarrow> (thrown + unit) \<times> 'c world" where
  "createMark env r w = invoke env (CreateMark r) (\<lambda>w. w\<lparr>marks := marks w @ [r]\<rparr>) w"

text \<open>Modelled from the spec: \<open>createMarkEntities(markId, entities)\<close>, whose method is missing,
  stores the entities of a mark.\<close>

definition createMarkEntities ::
  "'c env \<Rightarrow> nat \<Rightarrow> deferred_entity list \<Rightarrow> 'c world \<Rightarrow> (thrown + unit) \<times> 'c world" where
  "createMarkEntities env markId es w =
     invoke env (CreateMarkEntities markId es)
       (\<lambda>w. w\<lparr>mark_entities := mark_entities w @ [(markId, es)]\<rparr>) w"

text \<open>Modelled from the spec: \<open>computeRemoved(providerName, ingestionId) -> entities[]\<close>, whose
  method is missing: the reconciliation query. What it finds is the store's answer.\<close>

definition computeRemoved ::
  "'c env \<Rightarrow> string \<Rightarrow> string \<Rightarrow> 'c world \<Rightarrow> (thrown + deferred_entity list) \<times> 'c world" where
  "computeRemoved env pname iid w =
     (removed_result env w, w\<lparr>trace := trace w @ [ComputeRemoved pname iid]\<rparr>)"

section \<open>The provider and the connection\<close>

text \<open>\<open>provider.next(context, cursor)\<close> and \<open>connection.applyMutation(m)\<close>: what they
  return or throw is the environment's answer; a page handed out and a mutation applied
  are recorded.

  Modelled from the spec: \<open>provider.around(fn)\<close> runs \<open>fn(context)\<close> once for a burst and lets
  its error through (section 6; providers are not part of the engine), so the burst below is
  the body handed to it.\<close>

definition provider_next ::
  "'c env \<Rightarrow> 'c option \<Rightarrow> 'c world \<Rightarrow> (thrown + 'c page) \<times> 'c world" where
  "provider_next env cursor w =
     (case next_result env w cursor of
        Inl e \<Rightarrow> (Inl e, w\<lparr>trace := trace w @ [ProviderNext cursor]\<rparr>)
      | Inr p \<Rightarrow>
          (Inr p, w\<lparr>fetched := fetched w @ [(cursor, p)],
                    trace := trace w @ [ProviderNext cursor]\<rparr>))"

definition applyMutation :: "'c env \<Rightarrow> mutation \<Rightarrow> 'c world \<Rightarrow> (thrown + unit) \<times> 'c world" where
  "applyMutation env m w = invoke env (ApplyMutation m) (\<lambda>w. w\<lparr>mutations := mutations w @ [m]\<rparr>) w"

section \<open>The engine\<close>

subsection \<open>\<open>mark\<close>\<close>

text \<open>The entity with the provider's name under the annotation key; every other field is
  spread unchanged.\<close>

definition tag_entity :: "'c env \<Rightarrow> deferred_entity \<Rightarrow> deferred_entity" where
  "tag_entity env deferred =
     deferred\<lparr>de_entity := (de_entity deferred)
       \<lparr>ent_metadata := (ent_metadata (de_entity deferred))
         \<lparr>md_annotations :=
            (md_annotations (ent_metadata (de_entity deferred)))
              (annotation_key env \<mapsto> providerName env)\<rparr>\<rparr>\<rparr>"

definition mark ::
  "'c env \<Rightarrow> string \<Rightarrow> int \<Rightarrow> deferred_entity list \<Rightarrow> bool \<Rightarrow> 'c option \<Rightarrow> 'c world
     \<Rightarrow> (thrown + unit) \<times> 'c world" where
  "mark env iid sequence ents dn cursor w =
     (let markId = uuid_next w in
      bindE (createMark env
               \<lparr>mark_id = markId, ingestion_id = iid, mark_cursor = cursor,
                mark_sequence = sequence\<rparr>)
        (\<lambda>_. bindE (if length ents > 0 then createMarkEntities env markId ents
                    else returnE ())
        (\<lambda>_. let added = map (tag_entity env) ents in
             bindE (if dn then returnE [] else computeRemoved env (providerName env) iid)
        (\<lambda>removed. applyMutation env
                     \<lparr>mut_type = ''delta'', mut_added = added, mut_removed = removed\<rparr>)))
        (w\<lparr>uuid_next := Suc (uuid_next w)\<rparr>))"

subsection \<open>\<open>ingestOneBurst\<close>\<close>

text \<open>
  The \<open>while (true)\<close> loop of the burst, entered with the page just fetched. It ends when a
  call throws, when the signal is aborted or when the page is the last one; a provider that
  never says \<open>done\<close> under a signal that is never aborted keeps it running, so the loop takes
  fuel (one unit for each page) and gives \<open>None\<close> when it runs out.
\<close>

fun burst_loop ::
  "nat \<Rightarrow> 'c env \<Rightarrow> string \<Rightarrow> int \<Rightarrow> 'c page \<Rightarrow> 'c world \<Rightarrow> ((thrown + bool) \<times> 'c world) option" where
  "burst_loop 0 env iid sequence nxt w = None"
| "burst_loop (Suc fuel) env iid sequence nxt w =
     (case mark env iid sequence (page_entities nxt) (page_done nxt) (page_cursor nxt) w of
        (Inl e, w1) \<Rightarrow> Some (Inl e, w1)
      | (Inr _, w1) \<Rightarrow>
          if signal_aborted env w1 \<or> page_done nxt then Some (Inr (page_done nxt), w1)
          else (case provider_next env (page_cursor nxt) w1 of
                  (Inl e, w2) \<Rightarrow> Some (Inl e, w2)
                | (Inr nxt', w2) \<Rightarrow> burst_loop fuel env iid (sequence + 1) nxt' w2))"

definition ingestOneBurst ::
  "nat \<Rightarrow> 'c env \<Rightarrow> string \<Rightarrow> 'c world \<Rightarrow> ((thrown + bool) \<times> 'c world) option" where
  "ingestOneBurst fuel env iid w =
     (case getLastMark env iid w of
        (Inl e, w1) \<Rightarrow> Some (Inl e, w1)
      | (Inr lastMark, w1) \<Rightarrow>
          (let cursor = (case lastMark of Some m \<Rightarrow> mark_cursor m | None \<Rightarrow> None);
               sequence = (case lastMark of Some m \<Rightarrow> mark_sequence m + 1 | None \<Rightarrow> 0)
           in case provider_next env cursor w1 of
                (Inl e, w2) \<Rightarrow> Some (Inl e, w2)
              | (Inr nxt, w2) \<Rightarrow> burst_loop fuel env iid sequence nxt w2))"

subsection \<open>\<open>handleNextAction\<close>\<close>

text \<open>\<open>this.backoff[Math.min(this.backoff.length - 1, attempts)]\<close>: an index outside the
  array reads \<open>undefined\<close>.\<close>

definition backoff_entry :: "duration_units list \<Rightarrow> int \<Rightarrow> duration_units option" where
  "backoff_entry table att =
     (let i = min (int (length table) - 1) att
      in if 0 \<le> i \<and> i < int (length table) then Some (table ! nat i) else None)"

text \<open>The test of the \<open>catch\<close> block, once the message could be read: the thrown value
  has a non-empty \<open>message\<close> and that message is \<open>'CANCEL'\<close>.\<close>

fun is_cancel :: "thrown \<Rightarrow> bool" where
  "is_cancel (JsError n m) = (m \<noteq> [] \<and> m = ''CANCEL'')"
| "is_cancel (JsString s) = False"
| "is_cancel JsUndefined = False"
| "is_cancel JsNull = False"

text \<open>
  The \<open>catch\<close> block of the \<open>ingest\<close> case. Nothing catches what is thrown inside it, and
  three of its steps may throw before a store call is made: reading the message of a
  thrown \<open>undefined\<close> or \<open>null\<close>; \<open>Duration.fromObject(undefined)\<close>, when the table has no
  entry at the index (luxon's error object there has the name \<open>Error\<close>); and
  \<open>currentBackoff.toHuman()\<close> in the argument of the logger's call, which comes before
  \<open>setProviderBackoff\<close>.
\<close>

definition burst_failed ::
  "'c env \<Rightarrow> string \<Rightarrow> int \<Rightarrow> thrown \<Rightarrow> 'c world \<Rightarrow> (thrown + unit) \<times> 'c world" where
  "burst_failed env ingestionId att error w =
     (case message_of error of
        Inl e \<Rightarrow> (Inl e, w)
      | Inr _ \<Rightarrow>
          if is_cancel error then setProviderCanceling env ingestionId (err_message error) w
          else (case backoff_entry (backoff env) att of
                  None \<Rightarrow>
                    (Inl (JsError ''Error''
                            ''Duration.fromObject: argument expected to be an object, got undefined''),
                     w)
                | Some currentBackoff \<Rightarrow>
                    (case toHuman currentBackoff of
                       Inl e \<Rightarrow> (Inl e, w)
                     | Inr _ \<Rightarrow>
                         setProviderBackoff env ingestionId att error
                           (as_milliseconds currentBackoff) w)))"

text \<open>The \<open>try\<close> block of the \<open>ingest\<close> case. When the burst says \<open>done\<close>,
  \<open>this.restLength.toHuman()\<close> is evaluated in the argument of the logger's call, before
  \<open>setProviderResting\<close>; what it throws is caught like an error of the burst.\<close>

definition burst_attempt ::
  "nat \<Rightarrow> 'c env \<Rightarrow> string \<Rightarrow> 'c world \<Rightarrow> ((thrown + unit) \<times> 'c world) option" where
  "burst_attempt fuel env ingestionId w =
     (case setProviderBursting env ingestionId w of
        (Inl e, w1) \<Rightarrow> Some (Inl e, w1)
      | (Inr _, w1) \<Rightarrow>
          (case ingestOneBurst fuel env ingestionId w1 of
             None \<Rightarrow> None
           | Some (Inl e, w2) \<Rightarrow> Some (Inl e, w2)
           | Some (Inr dn, w2) \<Rightarrow>
               Some (if dn
                     then (case toHuman (restLength env) of
                             Inl e \<Rightarrow> (Inl e, w2)
                           | Inr _ \<Rightarrow> setProviderResting env ingestionId (restLength env) w2)
                     else setProviderInterstitial env ingestionId w2)))"

definition getCurrentAction ::
  "'c env \<Rightarrow> 'c world \<Rightarrow> (thrown + ingestion_record option) \<times> 'c world" where
  "getCurrentAction env w =
     bindE (getCurrentIngestionRecord env)
       (\<lambda>record. case record of
                   Some r \<Rightarrow> returnE (Some r)
                 | None \<Rightarrow> createProviderIngestionRecord env) w"

definition handleNextAction ::
  "nat \<Rightarrow> 'c env \<Rightarrow> 'c world \<Rightarrow> ((thrown + unit) \<times> 'c world) option" where
  "handleNextAction fuel env w =
     (case getCurrentAction env w of
        (Inl e, w1) \<Rightarrow> Some (Inl e, w1)
      | (Inr None, w1) \<Rightarrow> Some (Inr (), w1)
      | (Inr (Some result), w1) \<Rightarrow>
          (let ingestionId = rec_id result; nextActionAt = next_action_at result;
               nextAction = next_action result; att = attempts result
           in if nextAction = ''rest'' then
                (if date_now env w1 > nextActionAt
                 then Some (bindE (clearFinishedIngestions env)
                              (\<lambda>_. setProviderComplete env ingestionId) w1)
                 else Some (Inr (), w1))
              else if nextAction = ''ingest'' then
                (case burst_attempt fuel env ingestionId w1 of
                   None \<Rightarrow> None
                 | Some (Inr u, w2) \<Rightarrow> Some (Inr u, w2)
                 | Some (Inl error, w2) \<Rightarrow> Some (burst_failed env ingestionId att error w2))
              else if nextAction = ''backoff'' then
                (if date_now env w1 > nextActionAt
                 then Some (setProviderIngesting env ingestionId w1)
                 else Some (Inr (), w1))
              else if nextAction = ''cancel'' then
                Some (setProviderCanceled env ingestionId w1)
              else Some (Inr (), w1)))"

text \<open>\<open>taskFn\<close>: the tick. It logs the error of \<open>handleNextAction\<close> and throws it again.
  (\<open>handleNextAction\<close> first awaits the promise \<open>options.ready\<close>, taken here as
  resolved.)\<close>

definition taskFn :: "nat \<Rightarrow> 'c env \<Rightarrow> 'c world \<Rightarrow> ((thrown + unit) \<times> 'c world) option" where
  "taskFn fuel env w = handleNextAction fuel env w"

section \<open>Vocabulary of the statements\<close>

text \<open>The mark that \<open>mark\<close> hands to \<open>createMark\<close>.\<close>

definition new_mark :: "string \<Rightarrow> nat \<Rightarrow> int \<Rightarrow> 'c option \<Rightarrow> 'c mark_record" where
  "new_mark iid u s c = \<lparr>mark_id = u, ingestion_id = iid, mark_cursor = c, mark_sequence = s\<rparr>"

text \<open>One mark for each page of a list, numbered upwards from \<open>s\<close>, with ids upwards
  from \<open>u\<close>.\<close>

fun marks_for :: "string \<Rightarrow> nat \<Rightarrow> int \<Rightarrow> 'c page list \<Rightarrow> 'c mark_record list" where
  "marks_for iid u s [] = []"
| "marks_for iid u s (p # ps) =
     new_mark iid u s (page_cursor p) # marks_for iid (Suc u) (s + 1) ps"

text \<open>A run of fetches is chained from a cursor when the first page was asked for with that
  cursor and every later one with the cursor of the page before it.\<close>

fun chained :: "'c option \<Rightarrow> ('c option \<times> 'c page) list \<Rightarrow> bool" where
  "chained c [] = True"
| "chained c ((c', p) # fs) = (c' = c \<and> chained (page_cursor p) fs)"

text \<open>The mutation of a page: of type \<open>delta\<close>, adding the page's entities with the
  provider's name on each, and removing nothing when the page says \<open>done\<close>.\<close>

definition delta_of :: "'c env \<Rightarrow> 'c page \<Rightarrow> mutation \<Rightarrow> bool" where
  "delta_of env p m =
     (mut_type m = ''delta'' \<and> mut_added m = map (tag_entity env) (page_entities p) \<and>
      (if page_done p then mut_removed m = [] else True))"

text \<open>What a burst leaves behind when the pages \<open>marked\<close> got their marks and the pages
  \<open>applied\<close> their mutations: the marks and the mutations are appended in order, and the
  lifecycle record is as it was.\<close>

definition burst_effect ::
  "'c env \<Rightarrow> string \<Rightarrow> int \<Rightarrow> 'c world \<Rightarrow> 'c page list \<Rightarrow> 'c page list \<Rightarrow> 'c world \<Rightarrow> bool" where
  "burst_effect env iid s w marked applied w' =
     (marks w' = marks w @ marks_for iid (uuid_next w) s marked \<and>
      uuid_next w' \<ge> uuid_next w + length marked \<and>
      (\<exists>ms. mutations w' = mutations w @ ms \<and> list_all2 (delta_of env) applied ms) \<and>
      current w' = current w \<and> finished w' = finished w)"

text \<open>The effect of a burst over the pages \<open>ps\<close> by its result. A burst that returns has
  marked and applied every page. A burst that throws has done so for every page but
  possibly the last: the call that threw is the last of the trace, and it tells how far the
  last page got.\<close>

fun burst_outcome ::
  "'c env \<Rightarrow> string \<Rightarrow> int \<Rightarrow> 'c world \<Rightarrow> 'c page list \<Rightarrow> (thrown + bool) \<Rightarrow> 'c world \<Rightarrow> bool" where
  "burst_outcome env iid s w ps (Inr d) w' =
     (ps \<noteq> [] \<and> d = page_done (last ps) \<and> burst_effect env iid s w ps ps w')"
| "burst_outcome env iid s w ps (Inl e) w' =
     (case last (trace w') of
        CreateMark _ \<Rightarrow> ps \<noteq> [] \<and> burst_effect env iid s w (butlast ps) (butlast ps) w'
      | ProviderNext _ \<Rightarrow> burst_effect env iid s w ps ps w'
      | GetLastMark _ \<Rightarrow> ps = [] \<and> burst_effect env iid s w ps ps w'
      | _ \<Rightarrow> ps \<noteq> [] \<and> burst_effect env iid s w ps (butlast ps) w')"

text \<open>Where a burst starts: after the last mark of the ingestion, or at the beginning.\<close>

definition start_cursor :: "string \<Rightarrow> 'c world \<Rightarrow> 'c option" where
  "start_cursor iid w =
     (case last_mark_of iid (marks w) of Some m \<Rightarrow> mark_cursor m | None \<Rightarrow> None)"

definition start_sequence :: "string \<Rightarrow> 'c world \<Rightarrow> int" where
  "start_sequence iid w =
     (case last_mark_of iid (marks w) of Some m \<Rightarrow> mark_sequence m + 1 | None \<Rightarrow> 0)"

text \<open>The marks of an ingestion, in the order they were persisted, are numbered
  \<open>0, 1, 2, \<dots>\<close> without gap or repetition.\<close>

definition marks_of :: "string \<Rightarrow> 'c mark_record list \<Rightarrow> 'c mark_record list" where
  "marks_of iid ms = filter (\<lambda>m. ingestion_id m = iid) ms"

definition contiguous :: "string \<Rightarrow> 'c mark_record list \<Rightarrow> bool" where
  "contiguous iid ms =
     (map mark_sequence (marks_of iid ms) = map int [0..<length (marks_of iid ms)])"

text \<open>The delay of the \<open>catch\<close> block in milliseconds (\<open>backoffLength\<close>), when the table
  has an entry at the index.\<close>

definition backoff_delay :: "'c env \<Rightarrow> int \<Rightarrow> int option" where
  "backoff_delay env att = map_option as_milliseconds (backoff_entry (backoff env) att)"

text \<open>The world once the tick has read the current record.\<close>

definition after_read :: "'c env \<Rightarrow> 'c world \<Rightarrow> 'c world" where
  "after_read env w = w\<lparr>trace := trace w @ [GetCurrentIngestionRecord (providerName env)]\<rparr>"

text \<open>Two worlds with the same stores: they differ in the recorded calls at most.\<close>

definition same_stores :: "'c world \<Rightarrow> 'c world \<Rightarrow> bool" where
  "same_stores w v = (v\<lparr>trace := trace w\<rparr> = w)"

text \<open>The scheduler: \<open>n\<close> ticks one after the other, whatever each of them returns or
  throws.\<close>

fun run_ticks :: "nat \<Rightarrow> nat \<Rightarrow> 'c env \<Rightarrow> 'c world \<Rightarrow> 'c world option" where
  "run_ticks 0 fuel env w = Some w"
| "run_ticks (Suc n) fuel env w =
     (case taskFn fuel env w of None \<Rightarrow> None | Some (_, w') \<Rightarrow> run_ticks n fuel env w')"

text \<open>The calls of a kind among a list of calls.\<close>

fun is_apply :: "'c call \<Rightarrow> bool" where
  "is_apply (ApplyMutation m) = True"
| "is_apply _ = False"


text \<open>The calls made since the world \<open>w\<close>.\<close>

definition calls_since :: "'c world \<Rightarrow> 'c world \<Rightarrow> 'c call list" where
  "calls_since w w' = drop (length (trace w)) (trace w')"

text \<open>The provenance annotation of an entity.\<close>

definition provenance :: "'c env \<Rightarrow> deferred_entity \<Rightarrow> string option" where
  "provenance env d = md_annotations (ent_metadata (de_entity d)) (annotation_key env)"

text \<open>The calls that move the lifecycle record.\<close>

fun lifecycle_call :: "'c call \<Rightarrow> bool" where
  "lifecycle_call (SetProviderComplete i) = True"
| "lifecycle_call (SetProviderBursting i) = True"
| "lifecycle_call (SetProviderResting i d) = True"
| "lifecycle_call (SetProviderInterstitial i) = True"
| "lifecycle_call (SetProviderCanceling i m) = True"
| "lifecycle_call (SetProviderBackoff i a e d) = True"
| "lifecycle_call (SetProviderIngesting i) = True"
| "lifecycle_call (SetProviderCanceled i) = True"
| "lifecycle_call _ = False"

text \<open>What a tick has done, in short: its result, its lifecycle calls, the record it leaves,
  and how many pages it fetched, marked and applied.\<close>

definition tick_summary ::
  "((thrown + unit) \<times> 'c world) option \<Rightarrow>
   ((thrown + unit) \<times> 'c call list \<times> ingestion_record option \<times> nat \<times> nat \<times> nat) option" where
  "tick_summary t =
     map_option (\<lambda>(res, w). (res, filter lifecycle_call (trace w), current w,
                              length (fetched w), length (marks w), length (mutations w))) t"

text \<open>Two worlds with the same progress: the same marks, the same mutations applied and the
  same pages handed out.\<close>

definition same_progress :: "'c world \<Rightarrow> 'c world \<Rightarrow> bool" where
  "same_progress w v =
     (marks v = marks w \<and> mutations v = mutations w \<and> fetched v = fetched w)"

text \<open>The world in which the last call of \<open>w'\<close> was made, when that call was an
  \<open>applyMutation\<close>: the call was not yet recorded, and its mutation, if it went through, not
  yet applied.\<close>

definition before_apply :: "'c world \<Rightarrow> bool \<Rightarrow> 'c world" where
  "before_apply w' applied =
     w'\<lparr>mutations := (if applied then butlast (mutations w') else mutations w'),
        trace := butlast (trace w')\<rparr>"

section \<open>Example providers and stores\<close>

text \<open>A provider with two pages, the first of them empty, and collaborators that never
  fail; the store starts empty.\<close>

definition demo_entity :: deferred_entity where
  "demo_entity =
     \<lparr>de_entity = \<lparr>ent_apiVersion = ''v1'', ent_kind = ''Component'',
         ent_metadata = \<lparr>md_name = ''svc'', md_annotations = Map.empty\<rparr>\<rparr>,
      de_locationKey = None\<rparr>"

definition two_pages :: "nat world \<Rightarrow> nat option \<Rightarrow> thrown + nat page" where
  "two_pages w c =
     (case c of
        None \<Rightarrow> Inr \<lparr>page_entities = [], page_cursor = Some 1, page_done = False\<rparr>
      | Some _ \<Rightarrow> Inr \<lparr>page_entities = [demo_entity], page_cursor = Some 2, page_done = True\<rparr>)"

definition quiet_env :: "nat env" where
  "quiet_env =
     \<lparr>providerName = ''github'', annotation_key = ''incremental-provider-name'',
      opt_restLength = no_units\<lparr>hours := Some 1\<rparr>, opt_backoff = None,
      next_result = two_pages, removed_result = (\<lambda>w. Inr []),
      created_result = (\<lambda>w. None), call_fails = (\<lambda>w c. None),
      signal_aborted = (\<lambda>w. False), date_now = (\<lambda>w. 1000)\<rparr>"

definition empty_world :: "nat world" where
  "empty_world =
     \<lparr>current = None, finished = [], marks = [], mark_entities = [], mutations = [],
      fetched = [], trace = [], uuid_next = 0\<rparr>"

text \<open>An ingestion that is due to ingest after seven failed attempts, and providers that
  throw on the first fetch.\<close>

definition ingest_record :: ingestion_record where
  "ingest_record =
     \<lparr>rec_id = ''i1'', next_action = ''ingest'', attempts = 7, next_action_at = 0,
      status = ''interstitial'', last_error = None\<rparr>"

definition ingest_world :: "nat world" where
  "ingest_world = empty_world\<lparr>current := Some ingest_record\<rparr>"

definition throwing_env :: "thrown \<Rightarrow> nat env" where
  "throwing_env e = quiet_env\<lparr>next_result := (\<lambda>w c. Inl e)\<rparr>"

text \<open>A caller's table that is not ordered shortest first.\<close>

definition unsorted_env :: "nat env" where
  "unsorted_env =
     quiet_env\<lparr>opt_backoff :=
       Some [no_units\<lparr>minutes := Some 5\<rparr>, no_units\<lparr>minutes := Some 1\<rparr>]\<rparr>"

text \<open>A signal that is aborted from the start.\<close>

definition aborted_env :: "nat env" where
  "aborted_env = quiet_env\<lparr>signal_aborted := (\<lambda>w. True)\<rparr>"

text \<open>An ingestion at rest until time 5000, seen at time 1000.\<close>

definition resting_record :: ingestion_record where
  "resting_record =
     \<lparr>rec_id = ''i1'', next_action = ''rest'', attempts = 2, next_action_at = 5000,
      status = ''resting'', last_error = None\<rparr>"

definition resting_world :: "nat world" where
  "resting_world = empty_world\<lparr>current := Some resting_record\<rparr>"


text \<open>A source of three pages, a target store that is down when the second page is
  applied, and a clock that advances by 20000 seconds with every call.\<close>

definition three_pages :: "nat world \<Rightarrow> nat option \<Rightarrow> thrown + nat page" where
  "three_pages w c =
     (case c of
        None \<Rightarrow> Inr \<lparr>page_entities = [demo_entity], page_cursor = Some 1, page_done = False\<rparr>
      | Some k \<Rightarrow>
          if k = 1 then Inr \<lparr>page_entities = [], page_cursor = Some 2, page_done = False\<rparr>
          else Inr \<lparr>page_entities = [demo_entity], page_cursor = Some 3, page_done = True\<rparr>)"

definition flaky_env :: "nat env" where
  "flaky_env =
     quiet_env\<lparr>next_result := three_pages,
       call_fails := (\<lambda>w c. if is_apply c \<and> length (marks w) = 2 \<and> length (mutations w) = 1
                            then Some (JsError ''Error'' ''target store down'') else None),
       date_now := (\<lambda>w. 1000 + 20000000 * int (length (trace w)))\<rparr>"

text \<open>Callers' backoff tables with no entry, and with the one entry of a quarter; and the
  world a tick leaves behind when its burst failed on the first fetch and no store call
  followed.\<close>

definition no_table_env :: "thrown \<Rightarrow> nat env" where
  "no_table_env e = (throwing_env e)\<lparr>opt_backoff := Some []\<rparr>"

definition quarterly_table_env :: "thrown \<Rightarrow> nat env" where
  "quarterly_table_env e =
     (throwing_env e)\<lparr>opt_backoff := Some [no_units\<lparr>quarters := Some 1\<rparr>]\<rparr>"

definition failed_fetch_world :: "nat world" where
  "failed_fetch_world =
     ingest_world
       \<lparr>current := Some (ingest_record\<lparr>status := ''bursting''\<rparr>),
        trace := [GetCurrentIngestionRecord ''github'', SetProviderBursting ''i1'',
                  GetLastMark ''i1'', ProviderNext None]\<rparr>"

text \<open>A caller's table that is ordered shortest first.\<close>

definition patient_env :: "nat env" where
  "patient_env =
     quiet_env\<lparr>opt_backoff :=
       Some [no_units\<lparr>seconds := Some 30\<rparr>, no_units\<lparr>minutes := Some 10\<rparr>]\<rparr>"

text \<open>A rest length of one quarter.\<close>

definition quarterly_rest_env :: "nat env" where
  "quarterly_rest_env = quiet_env\<lparr>opt_restLength := no_units\<lparr>quarters := Some 1\<rparr>\<rparr>"

text \<open>A source whose first page is the last one, read under a signal that is aborted from
  the start, with a rest length of one quarter and of one hour.\<close>

definition last_page :: "nat world \<Rightarrow> nat option \<Rightarrow> thrown + nat page" where
  "last_page w c = Inr \<lparr>page_entities = [demo_entity], page_cursor = Some 1, page_done = True\<rparr>"

definition aborted_quarterly_env :: "nat env" where
  "aborted_quarterly_env =
     quarterly_rest_env\<lparr>next_result := last_page, signal_aborted := (\<lambda>w. True)\<rparr>"

definition aborted_hourly_env :: "nat env" where
  "aborted_hourly_env = aborted_env\<lparr>next_result := last_page\<rparr>"

text \<open>A store in which the first page of the ingestion has been marked and applied.\<close>

definition half_done_world :: "nat world" where
  "half_done_world =
     empty_world
       \<lparr>marks := [new_mark ''i1'' 0 0 (Some 1)],
        mutations := [\<lparr>mut_type = ''delta'', mut_added = [], mut_removed = []\<rparr>],
        uuid_next := 1\<rparr>"

text \<open>The example ingestion under the flaky target store: the worlds after its first and
  its second tick.\<close>

definition flaky_after1 :: "nat world" where
  "flaky_after1 = snd (the (handleNextAction 3 flaky_env ingest_world))"

definition flaky_after2 :: "nat world" where
  "flaky_after2 = snd (the (handleNextAction 3 flaky_env flaky_after1))"

section \<open>One call of \<open>mark\<close>\<close>

lemma mark_Inr:
  assumes "mark env iid s ents dn c w = (Inr u, w')"
  shows "marks w' = marks w @ [new_mark iid (uuid_next w) s c]"
    and "\<exists>rm. mutations w' = mutations w @
            [\<lparr>mut_type = ''delta'', mut_added = map (tag_entity env) ents, mut_removed = rm\<rparr>] \<and>
          (dn \<longrightarrow> rm = [])"
    and "current w' = current w" and "finished w' = finished w" and "fetched w' = fetched w"
    and "uuid_next w' = Suc (uuid_next w)"
  using assms
  by (auto simp: mark_def bindE_def returnE_def createMark_def createMarkEntities_def
      computeRemoved_def applyMutation_def invoke_def new_mark_def Let_def
      split: option.splits if_splits sum.splits prod.splits)

lemma mark_Inl:
  assumes "mark env iid s ents dn c w = (Inl e, w')"
  shows "mutations w' = mutations w"
    and "current w' = current w" and "finished w' = finished w" and "fetched w' = fetched w"
    and "uuid_next w' = Suc (uuid_next w)"
    and "(\<exists>m. last (trace w') = CreateMark m \<and> marks w' = marks w) \<or>
         ((\<exists>i es. last (trace w') = CreateMarkEntities i es) \<or>
          (\<exists>a b. last (trace w') = ComputeRemoved a b) \<or>
          (\<exists>m. last (trace w') = ApplyMutation m)) \<and>
          marks w' = marks w @ [new_mark iid (uuid_next w) s c]"
  using assms
  by (auto simp: mark_def bindE_def returnE_def createMark_def createMarkEntities_def
      computeRemoved_def applyMutation_def invoke_def new_mark_def Let_def
      split: option.splits if_splits sum.splits prod.splits)

section \<open>One burst\<close>

lemma provider_next_Inr:
  "provider_next env c w = (Inr p, w') \<Longrightarrow>
     w' = w\<lparr>fetched := fetched w @ [(c, p)], trace := trace w @ [ProviderNext c]\<rparr>"
  by (auto simp: provider_next_def split: sum.splits)

lemma provider_next_Inl:
  "provider_next env c w = (Inl e, w') \<Longrightarrow> w' = w\<lparr>trace := trace w @ [ProviderNext c]\<rparr>"
  by (auto simp: provider_next_def split: sum.splits)

text \<open>The loop, by induction on the fuel: the pages it fetches are chained from the cursor
  of the page it was entered with, and the outcome is that of a burst over all of them.\<close>

lemma burst_loop_run:
  "burst_loop fuel env iid s nxt w = Some (r, w') \<Longrightarrow>
     \<exists>fs. fetched w' = fetched w @ fs \<and> chained (page_cursor nxt) fs \<and>
          burst_outcome env iid s w (nxt # map snd fs) r w'"
proof (induction fuel arbitrary: s nxt w)
  case 0
  then show ?case by simp
next
  case (Suc fuel)
  let ?m = "mark env iid s (page_entities nxt) (page_done nxt) (page_cursor nxt) w"
  obtain r1 w1 where m: "?m = (r1, w1)" by (cases ?m)
  show ?case
  proof (cases r1)
    case (Inl e)
    with m Suc.prems have res: "r = Inl e" "w' = w1" by auto
    from m Inl have mm:
      "mark env iid s (page_entities nxt) (page_done nxt) (page_cursor nxt) w = (Inl e, w1)"
      by simp
    note facts = mark_Inl[OF mm]
    have "burst_outcome env iid s w [nxt] r w'"
      using facts res by (auto simp: burst_effect_def)
    moreover have "fetched w' = fetched w @ []" using facts res by simp
    ultimately show ?thesis by (intro exI[of _ "[]"]) simp
  next
    case (Inr u)
    from m Inr have mm:
      "mark env iid s (page_entities nxt) (page_done nxt) (page_cursor nxt) w = (Inr u, w1)"
      by simp
    note facts = mark_Inr[OF mm]
    have eff1: "burst_effect env iid s w [nxt] [nxt] w1"
      using facts by (auto simp: burst_effect_def delta_of_def)
    show ?thesis
    proof (cases "signal_aborted env w1 \<or> page_done nxt")
      case True
      with m Inr Suc.prems have res: "r = Inr (page_done nxt)" "w' = w1" by auto
      show ?thesis using eff1 res facts by (intro exI[of _ "[]"]) simp
    next
      case False
      obtain r2 w2 where n: "provider_next env (page_cursor nxt) w1 = (r2, w2)"
        by (cases "provider_next env (page_cursor nxt) w1")
      show ?thesis
      proof (cases r2)
        case (Inl e)
        with m \<open>r1 = Inr u\<close> False n Suc.prems have res: "r = Inl e" "w' = w2" by auto
        from n Inl have w2: "w2 = w1\<lparr>trace := trace w1 @ [ProviderNext (page_cursor nxt)]\<rparr>"
          by (simp add: provider_next_Inl)
        show ?thesis using eff1 res facts w2
          by (intro exI[of _ "[]"]) (simp add: burst_effect_def)
      next
        case (Inr nxt')
        with m \<open>r1 = Inr u\<close> False n Suc.prems
        have rec: "burst_loop fuel env iid (s + 1) nxt' w2 = Some (r, w')" by auto
        from n Inr have w2:
          "w2 = w1\<lparr>fetched := fetched w1 @ [(page_cursor nxt, nxt')],
                   trace := trace w1 @ [ProviderNext (page_cursor nxt)]\<rparr>"
          by (simp add: provider_next_Inr)
        from Suc.IH[OF rec] obtain fs where
          fs: "fetched w' = fetched w2 @ fs" "chained (page_cursor nxt') fs"
              "burst_outcome env iid (s + 1) w2 (nxt' # map snd fs) r w'" by blast
        have "fetched w' = fetched w @ ((page_cursor nxt, nxt') # fs)"
          using fs(1) w2 facts by simp
        moreover have "chained (page_cursor nxt) ((page_cursor nxt, nxt') # fs)"
          using fs(2) by simp
        moreover have
          "burst_outcome env iid s w (nxt # map snd ((page_cursor nxt, nxt') # fs)) r w'"
          using fs(3) eff1 w2 facts
          by (cases r) (auto simp: burst_effect_def split: call.splits)
        ultimately show ?thesis by blast
      qed
    qed
  qed
qed

lemma getLastMark_Inr:
  "getLastMark env iid w = (Inr lm, w') \<Longrightarrow>
     lm = last_mark_of iid (marks w) \<and> w' = w\<lparr>trace := trace w @ [GetLastMark iid]\<rparr>"
  by (auto simp: getLastMark_def split: option.splits)

lemma getLastMark_Inl:
  "getLastMark env iid w = (Inl e, w') \<Longrightarrow> w' = w\<lparr>trace := trace w @ [GetLastMark iid]\<rparr>"
  by (auto simp: getLastMark_def split: option.splits)

lemma burst_effect_shift:
  assumes "marks w1 = marks w" "uuid_next w1 = uuid_next w" "mutations w1 = mutations w"
    "current w1 = current w" "finished w1 = finished w"
  shows "burst_effect env iid s w1 a b w' = burst_effect env iid s w a b w'"
  using assms by (simp add: burst_effect_def)

lemma burst_outcome_shift:
  assumes "marks w1 = marks w" "uuid_next w1 = uuid_next w" "mutations w1 = mutations w"
    "current w1 = current w" "finished w1 = finished w"
  shows "burst_outcome env iid s w1 ps r w' = burst_outcome env iid s w ps r w'"
  using burst_effect_shift[OF assms] by (cases r) (simp_all split: call.splits)

lemma ingestOneBurst_run:
  assumes "ingestOneBurst fuel env iid w = Some (r, w')"
  shows "\<exists>fs. fetched w' = fetched w @ fs \<and> chained (start_cursor iid w) fs \<and>
          burst_outcome env iid (start_sequence iid w) w (map snd fs) r w'"
proof -
  obtain r1 w1 where g: "getLastMark env iid w = (r1, w1)" by (cases "getLastMark env iid w")
  show ?thesis
  proof (cases r1)
    case (Inl e)
    with g assms have res: "r = Inl e" "w' = w1" by (auto simp: ingestOneBurst_def)
    from g Inl have "w1 = w\<lparr>trace := trace w @ [GetLastMark iid]\<rparr>"
      by (simp add: getLastMark_Inl)
    with res show ?thesis by (intro exI[of _ "[]"]) (simp add: burst_effect_def)
  next
    case (Inr lm)
    with g have lm: "lm = last_mark_of iid (marks w)"
      and w1: "w1 = w\<lparr>trace := trace w @ [GetLastMark iid]\<rparr>"
      using getLastMark_Inr by blast+
    obtain r2 w2 where n: "provider_next env (start_cursor iid w) w1 = (r2, w2)"
      by (cases "provider_next env (start_cursor iid w) w1")
    show ?thesis
    proof (cases r2)
      case (Inl e)
      with g \<open>r1 = Inr lm\<close> lm n assms have res: "r = Inl e" "w' = w2"
        by (auto simp: ingestOneBurst_def start_cursor_def Let_def)
      from n Inl have "w2 = w1\<lparr>trace := trace w1 @ [ProviderNext (start_cursor iid w)]\<rparr>"
        by (simp add: provider_next_Inl)
      with res w1 show ?thesis by (intro exI[of _ "[]"]) (simp add: burst_effect_def)
    next
      case (Inr nxt)
      with g \<open>r1 = Inr lm\<close> lm n assms
      have loop: "burst_loop fuel env iid (start_sequence iid w) nxt w2 = Some (r, w')"
        by (auto simp: ingestOneBurst_def start_cursor_def start_sequence_def Let_def)
      from n Inr have w2:
        "w2 = w1\<lparr>fetched := fetched w1 @ [(start_cursor iid w, nxt)],
                 trace := trace w1 @ [ProviderNext (start_cursor iid w)]\<rparr>"
        by (simp add: provider_next_Inr)
      from burst_loop_run[OF loop] obtain fs where
        fs: "fetched w' = fetched w2 @ fs" "chained (page_cursor nxt) fs"
            "burst_outcome env iid (start_sequence iid w) w2 (nxt # map snd fs) r w'" by blast
      have sh: "burst_outcome env iid (start_sequence iid w) w2 (nxt # map snd fs) r w' =
                burst_outcome env iid (start_sequence iid w) w (nxt # map snd fs) r w'"
        by (rule burst_outcome_shift) (simp_all add: w2 w1)
      have "fetched w' = fetched w @ ((start_cursor iid w, nxt) # fs)"
        using fs(1) w2 w1 by simp
      moreover have "chained (start_cursor iid w) ((start_cursor iid w, nxt) # fs)"
        using fs(2) by simp
      moreover have "burst_outcome env iid (start_sequence iid w) w
                       (map snd ((start_cursor iid w, nxt) # fs)) r w'"
        using fs(3) sh by simp
      ultimately show ?thesis by blast
    qed
  qed
qed

lemma marks_of_marks_for [simp]: "marks_of iid (marks_for iid u s ps) = marks_for iid u s ps"
  by (induction ps arbitrary: u s) (simp_all add: marks_of_def new_mark_def)

lemma marks_of_marks_for_other [simp]: "j \<noteq> iid \<Longrightarrow> marks_of j (marks_for iid u s ps) = []"
  by (induction ps arbitrary: u s) (simp_all add: marks_of_def new_mark_def)

lemma marks_of_append [simp]: "marks_of iid (xs @ ys) = marks_of iid xs @ marks_of iid ys"
  by (simp add: marks_of_def)

lemma length_marks_for [simp]: "length (marks_for iid u s ps) = length ps"
  by (induction ps arbitrary: u s) simp_all

lemma upt_Suc_shift: "[0..<Suc n] = 0 # map Suc [0..<n]"
proof -
  have "[0..<Suc n] = 0 # [Suc 0..<Suc n]" by (rule upt_conv_Cons) simp
  also have "[Suc 0..<Suc n] = map Suc [0..<n]" by (rule map_Suc_upt[symmetric])
  finally show ?thesis .
qed

lemma sequence_marks_for:
  "map mark_sequence (marks_for iid u s ps) = map (\<lambda>k. s + int k) [0..<length ps]"
proof (induction ps arbitrary: u s)
  case Nil
  then show ?case by simp
next
  case (Cons p ps)
  have "map mark_sequence (marks_for iid u s (p # ps)) =
        s # map (\<lambda>k. (s + 1) + int k) [0..<length ps]"
    using Cons[of "Suc u" "s + 1"] by (simp add: new_mark_def)
  also have "\<dots> = map (\<lambda>k. s + int k) (0 # map Suc [0..<length ps])"
    by (simp add: comp_def add.assoc)
  also have "\<dots> = map (\<lambda>k. s + int k) [0..<length (p # ps)]"
    by (simp only: length_Cons upt_Suc_shift)
  finally show ?case .
qed

lemma upt_int_split:
  "map int [0..<n + k] = map int [0..<n] @ map (\<lambda>j. int n + int j) [0..<k]"
  by (induction k) simp_all

lemma contiguous_start:
  assumes "contiguous iid (marks w)"
  shows "start_sequence iid w = int (length (marks_of iid (marks w)))"
proof (cases "marks_of iid (marks w)")
  case Nil
  then show ?thesis by (simp add: start_sequence_def last_mark_of_def marks_of_def)
next
  case (Cons x xs)
  let ?ms = "marks_of iid (marks w)"
  have ne: "?ms \<noteq> []" using Cons by simp
  have "mark_sequence (last ?ms) = last (map mark_sequence ?ms)"
    using ne by (simp add: last_map)
  also have "\<dots> = last (map int [0..<length ?ms])"
    using assms by (simp add: contiguous_def)
  also have "\<dots> = int (length ?ms) - 1"
    using ne by (cases "length ?ms") (simp_all add: last_map)
  finally have "mark_sequence (last ?ms) + 1 = int (length ?ms)" by simp
  moreover have "last_mark_of iid (marks w) = Some (last ?ms)"
    using Cons by (simp add: last_mark_of_def marks_of_def)
  ultimately show ?thesis by (simp add: start_sequence_def)
qed

lemma contiguous_extend:
  assumes "contiguous iid (marks w)"
  shows "contiguous j (marks w) \<Longrightarrow> contiguous j (marks w @ marks_for iid u (start_sequence iid w) ps)"
proof (cases "j = iid")
  case True
  assume "contiguous j (marks w)"
  then show ?thesis
    using True contiguous_start[OF assms]
    by (simp add: contiguous_def sequence_marks_for upt_int_split)
next
  case False
  assume "contiguous j (marks w)"
  then show ?thesis using False by (simp add: contiguous_def)
qed

lemma contiguous_increasing:
  "contiguous iid ms \<Longrightarrow> sorted_wrt (<) (map mark_sequence (marks_of iid ms))"
  by (simp add: contiguous_def sorted_wrt_map sorted_wrt_upt)

section \<open>Marks are numbered without gaps\<close>

lemma demo_burst:
  "\<exists>w'. ingestOneBurst (Suc (Suc 0)) quiet_env ''i1'' empty_world = Some (Inr True, w') \<and>
     map mark_sequence (marks w') = [0, 1] \<and> map mark_cursor (marks w') = [Some 1, Some 2]"
  by (simp add: ingestOneBurst_def getLastMark_def last_mark_of_def provider_next_def
      quiet_env_def empty_world_def two_pages_def mark_def bindE_def returnE_def
      createMark_def createMarkEntities_def computeRemoved_def applyMutation_def invoke_def
      Let_def)

text \<open>
  Claim C1. Whatever way a burst ends, it leaves one new mark for each page it fetched, in
  the order of fetching and whether or not the page has entities; the one exception is a
  last page whose \<open>createMark\<close> call itself threw. The first page is asked for with the
  cursor of the ingestion's last mark (with no cursor when there is none), every later page
  with the cursor of the page before it, and the new marks are numbered upwards from the
  last mark's sequence plus one (from 0 when there is none). So if the marks of the
  ingestion were numbered 0, 1, 2, \<dots> before the burst, they are so after it, and their
  numbers increase strictly. The burst reads its starting point from the store alone, so
  this holds from burst to burst and over restarts of the process.
\<close>

theorem burst_marks_contiguous:
  assumes "ingestOneBurst fuel env iid w = Some (r, w')"
  shows "\<exists>fs marked.
           fetched w' = fetched w @ fs \<and> chained (start_cursor iid w) fs \<and>
           marks w' = marks w @ marks_for iid (uuid_next w) (start_sequence iid w) marked \<and>
           (marked = map snd fs \<or>
            marked = butlast (map snd fs) \<and> (\<exists>e m. r = Inl e \<and> last (trace w') = CreateMark m)) \<and>
           (contiguous iid (marks w) \<longrightarrow>
              contiguous iid (marks w') \<and>
              sorted_wrt (<) (map mark_sequence (marks_of iid (marks w'))))"
proof -
  from ingestOneBurst_run[OF assms] obtain fs where
    fs: "fetched w' = fetched w @ fs" "chained (start_cursor iid w) fs"
        "burst_outcome env iid (start_sequence iid w) w (map snd fs) r w'" by blast
  have "\<exists>marked. marks w' = marks w @ marks_for iid (uuid_next w) (start_sequence iid w) marked \<and>
          (marked = map snd fs \<or>
           marked = butlast (map snd fs) \<and> (\<exists>e m. r = Inl e \<and> last (trace w') = CreateMark m))"
  proof (cases r)
    case (Inr d)
    with fs(3) show ?thesis by (auto simp: burst_effect_def)
  next
    case (Inl e)
    with fs(3) show ?thesis
      by (cases "last (trace w')") (auto simp: burst_effect_def)
  qed
  then obtain marked where
    mk: "marks w' = marks w @ marks_for iid (uuid_next w) (start_sequence iid w) marked"
        "marked = map snd fs \<or>
         marked = butlast (map snd fs) \<and> (\<exists>e m. r = Inl e \<and> last (trace w') = CreateMark m)"
    by blast
  have "contiguous iid (marks w) \<longrightarrow>
          contiguous iid (marks w') \<and>
          sorted_wrt (<) (map mark_sequence (marks_of iid (marks w')))"
  proof
    assume c: "contiguous iid (marks w)"
    have "contiguous iid (marks w')"
      unfolding mk(1) by (rule contiguous_extend[OF c c])
    then show "contiguous iid (marks w') \<and>
          sorted_wrt (<) (map mark_sequence (marks_of iid (marks w')))"
      by (simp add: contiguous_increasing)
  qed
  with fs(1,2) mk show ?thesis by blast
qed

theorem burst_marks_contiguous_witness:
  "\<exists>w'. ingestOneBurst (Suc (Suc 0)) quiet_env ''i1'' empty_world = Some (Inr True, w') \<and>
        map mark_sequence (marks w') = [0, 1] \<and> contiguous ''i1'' (marks w')"
proof -
  from demo_burst obtain w' where
    h: "ingestOneBurst (Suc (Suc 0)) quiet_env ''i1'' empty_world = Some (Inr True, w')"
       "map mark_sequence (marks w') = [0, 1]" by (elim exE conjE)
  have c0: "contiguous ''i1'' (marks empty_world)"
    by (simp add: contiguous_def marks_of_def empty_world_def)
  from burst_marks_contiguous[OF h(1)] c0 have "contiguous ''i1'' (marks w')"
    by (elim exE conjE) simp
  with h show ?thesis by (intro exI[of _ w'] conjI)
qed

section \<open>The tick\<close>

lemma invoke_Inr:
  "invoke env c eff w = (Inr u, w') \<Longrightarrow>
     call_fails env w c = None \<and> w' = (eff w)\<lparr>trace := trace w @ [c]\<rparr>"
  by (simp add: invoke_def split: option.splits)

lemma invoke_Inl:
  "invoke env c eff w = (Inl e, w') \<Longrightarrow>
     call_fails env w c = Some e \<and> w' = w\<lparr>trace := trace w @ [c]\<rparr>"
  by (simp add: invoke_def split: option.splits)

lemma invoke_ok:
  "call_fails env w c = None \<Longrightarrow> invoke env c eff w = (Inr (), (eff w)\<lparr>trace := trace w @ [c]\<rparr>)"
  by (simp add: invoke_def)

lemma getCurrentAction_Some:
  assumes "getCurrentAction env w = (Inr (Some r), w1)"
  shows "current w1 = Some r" and "marks w1 = marks w" and "mutations w1 = mutations w"
  using assms
  by (auto simp: getCurrentAction_def bindE_def returnE_def getCurrentIngestionRecord_def
      createProviderIngestionRecord_def split: option.splits sum.splits prod.splits)

lemma getCurrentAction_found:
  assumes "current w = Some r"
    and "call_fails env w (GetCurrentIngestionRecord (providerName env)) = None"
  shows "getCurrentAction env w =
           (Inr (Some r), w\<lparr>trace := trace w @ [GetCurrentIngestionRecord (providerName env)]\<rparr>)"
  using assms
  by (simp add: getCurrentAction_def bindE_def returnE_def getCurrentIngestionRecord_def)

lemma handle_ingest:
  assumes "getCurrentAction env w = (Inr (Some r), w1)" and "next_action r = ''ingest''"
  shows "handleNextAction fuel env w =
           (case burst_attempt fuel env (rec_id r) w1 of
              None \<Rightarrow> None
            | Some (Inr u, w2) \<Rightarrow> Some (Inr u, w2)
            | Some (Inl error, w2) \<Rightarrow> Some (burst_failed env (rec_id r) (attempts r) error w2))"
  using assms by (simp add: handleNextAction_def Let_def)

lemma ingestOneBurst_current:
  assumes "ingestOneBurst fuel env iid w = Some (r, w')"
  shows "current w' = current w"
proof -
  from ingestOneBurst_run[OF assms] obtain fs where
    "fetched w' = fetched w @ fs"
    "burst_outcome env iid (start_sequence iid w) w (map snd fs) r w'" by blast
  then show ?thesis
    by (cases r; cases "last (trace w')") (simp_all add: burst_effect_def)
qed

text \<open>The record is the same throughout the \<open>try\<close> block, but for its status.\<close>

lemma burst_attempt_Inl_current:
  assumes "burst_attempt fuel env iid w1 = Some (Inl e, w2)" and "current w1 = Some r"
  shows "current w2 = Some r \<or> current w2 = Some (r\<lparr>status := ''bursting''\<rparr>)"
proof -
  obtain r1 wb where b: "setProviderBursting env iid w1 = (r1, wb)"
    by (cases "setProviderBursting env iid w1")
  show ?thesis
  proof (cases r1)
    case (Inl e1)
    with b assms(1) have "w2 = wb" by (simp add: burst_attempt_def)
    moreover from b Inl have "wb = w1\<lparr>trace := trace w1 @ [SetProviderBursting iid]\<rparr>"
      by (simp add: setProviderBursting_def invoke_Inl)
    ultimately show ?thesis using assms(2) by simp
  next
    case (Inr u)
    with b have wb: "wb = (upd_current iid (\<lambda>r. r\<lparr>status := ''bursting''\<rparr>) w1)
                       \<lparr>trace := trace w1 @ [SetProviderBursting iid]\<rparr>"
      by (simp add: setProviderBursting_def invoke_Inr)
    have cb: "current wb = Some r \<or> current wb = Some (r\<lparr>status := ''bursting''\<rparr>)"
      using assms(2) by (simp add: wb upd_current_def)
    obtain o1 where o: "ingestOneBurst fuel env iid wb = o1" by simp
    show ?thesis
    proof (cases o1)
      case None
      with b Inr o assms(1) show ?thesis by (simp add: burst_attempt_def)
    next
      case (Some a)
      obtain r2 wx where a: "a = (r2, wx)" by (cases a)
      from o Some a have ob: "ingestOneBurst fuel env iid wb = Some (r2, wx)" by simp
      have cx: "current wx = current wb" by (rule ingestOneBurst_current[OF ob])
      show ?thesis
      proof (cases r2)
        case (Inl e2)
        with b \<open>r1 = Inr u\<close> ob assms(1) have "w2 = wx" by (simp add: burst_attempt_def)
        with cx cb show ?thesis by simp
      next
        case (Inr dn)
        with b \<open>r1 = Inr u\<close> ob assms(1)
        have fin: "(if dn
                    then (case toHuman (restLength env) of
                            Inl e \<Rightarrow> (Inl e, wx)
                          | Inr _ \<Rightarrow> setProviderResting env iid (restLength env) wx)
                    else setProviderInterstitial env iid wx) = (Inl e, w2)"
          by (simp add: burst_attempt_def)
        have "current w2 = current wx"
        proof (cases dn)
          case True
          show ?thesis
          proof (cases "toHuman (restLength env)")
            case (Inl e3)
            with fin True show ?thesis by simp
          next
            case (Inr u3)
            with fin True
            have "setProviderResting env iid (restLength env) wx = (Inl e, w2)" by simp
            then have "w2 = wx\<lparr>trace := trace wx @ [SetProviderResting iid (restLength env)]\<rparr>"
              by (simp add: setProviderResting_def invoke_Inl)
            then show ?thesis by simp
          qed
        next
          case False
          with fin have "setProviderInterstitial env iid wx = (Inl e, w2)" by simp
          then have "w2 = wx\<lparr>trace := trace wx @ [SetProviderInterstitial iid]\<rparr>"
            by (simp add: setProviderInterstitial_def invoke_Inl)
          then show ?thesis by simp
        qed
        with cx cb show ?thesis by simp
      qed
    qed
  qed
qed

lemma is_cancel_iff: "is_cancel error = (\<exists>n. error = JsError n ''CANCEL'')"
  by (cases error) auto

lemma is_cancel_message: "is_cancel error \<Longrightarrow> err_message error = ''CANCEL''"
  by (cases error) auto

text \<open>What the \<open>catch\<close> block does with a thrown value, case by case.\<close>

lemma message_of_Inl: "(\<exists>e. message_of error = Inl e) = (error = JsUndefined \<or> error = JsNull)"
  by (cases error) auto

lemma burst_failed_unreadable:
  "message_of error = Inl e \<Longrightarrow> burst_failed env iid a error w = (Inl e, w)"
  by (simp add: burst_failed_def)

lemma burst_failed_cancel:
  "is_cancel error \<Longrightarrow>
   burst_failed env iid a error w = setProviderCanceling env iid ''CANCEL'' w"
  by (cases error) (auto simp: burst_failed_def)

lemma burst_failed_backoff:
  assumes "\<not> is_cancel error" and "error \<noteq> JsUndefined" and "error \<noteq> JsNull"
    and "backoff_entry (backoff env) a = Some d" and "quarters d = None"
  shows "burst_failed env iid a error w =
           setProviderBackoff env iid a error (as_milliseconds d) w"
  using assms by (cases error) (auto simp: burst_failed_def toHuman_def)

lemma burst_failed_no_entry:
  assumes "\<not> is_cancel error" and "error \<noteq> JsUndefined" and "error \<noteq> JsNull"
    and "backoff_entry (backoff env) a = None"
  shows "burst_failed env iid a error w =
           (Inl (JsError ''Error''
                   ''Duration.fromObject: argument expected to be an object, got undefined''), w)"
  using assms by (cases error) (auto simp: burst_failed_def)

lemma burst_failed_quarters:
  assumes "\<not> is_cancel error" and "error \<noteq> JsUndefined" and "error \<noteq> JsNull"
    and "backoff_entry (backoff env) a = Some d" and "quarters d = Some q"
  shows "burst_failed env iid a error w =
           (Inl (JsError ''RangeError''
                   ''Invalid unit argument for Intl.NumberFormat() quarter''), w)"
  using assms by (cases error) (auto simp: burst_failed_def toHuman_def)

text \<open>
  The tick whose \<open>try\<close> block throws, in general. A thrown object whose message is
  \<open>CANCEL\<close> leads to \<open>setProviderCanceling\<close> with that message as the reason, whatever the
  attempt count is; the tick makes no \<open>setProviderBackoff\<close> call, which is the one call that
  hands the attempt count to the store. Any other thrown value but \<open>undefined\<close> and \<open>null\<close>
  leads to \<open>setProviderBackoff\<close> with the attempt count, the error and the delay of the
  table's entry, when the table has an entry at the index and that entry has no unit
  \<open>quarters\<close>. In both cases the tick throws only if that store call itself throws.
\<close>

lemma burst_error_tick:
  assumes "getCurrentAction env w = (Inr (Some r), w1)" and "next_action r = ''ingest''"
    and "burst_attempt fuel env (rec_id r) w1 = Some (Inl error, w2)"
  shows
    "(is_cancel error \<longrightarrow>
        handleNextAction fuel env w = Some (setProviderCanceling env (rec_id r) ''CANCEL'' w2) \<and>
        (\<exists>res w3 r'. handleNextAction fuel env w = Some (res, w3) \<and>
           trace w3 = trace w2 @ [SetProviderCanceling (rec_id r) ''CANCEL''] \<and>
           current w3 = Some r' \<and> attempts r' = attempts r \<and>
           (res = Inr () \<and> next_action r' = ''cancel'' \<and> last_error r' = Some ''CANCEL'' \<or>
            (\<exists>e'. res = Inl e' \<and>
               call_fails env w2 (SetProviderCanceling (rec_id r) ''CANCEL'') = Some e')))) \<and>
     (\<not> is_cancel error \<and> error \<noteq> JsUndefined \<and> error \<noteq> JsNull \<longrightarrow>
        (\<forall>d. backoff_entry (backoff env) (attempts r) = Some d \<and> quarters d = None \<longrightarrow>
           handleNextAction fuel env w =
             Some (setProviderBackoff env (rec_id r) (attempts r) error (as_milliseconds d) w2) \<and>
           (\<exists>res w3 r'. handleNextAction fuel env w = Some (res, w3) \<and>
              trace w3 =
                trace w2 @ [SetProviderBackoff (rec_id r) (attempts r) error (as_milliseconds d)] \<and>
              current w3 = Some r' \<and>
              (res = Inr () \<and> next_action r' = ''backoff'' \<and>
                 attempts r' = attempts r + 1 \<and>
                 next_action_at r' = date_now env w2 + as_milliseconds d \<or>
               (\<exists>e'. res = Inl e' \<and>
                  call_fails env w2
                    (SetProviderBackoff (rec_id r) (attempts r) error (as_milliseconds d))
                    = Some e')))))"
proof -
  have h: "handleNextAction fuel env w = Some (burst_failed env (rec_id r) (attempts r) error w2)"
    using handle_ingest[OF assms(1,2)] assms(3) by simp
  have c1: "current w1 = Some r" by (rule getCurrentAction_Some(1)[OF assms(1)])
  from burst_attempt_Inl_current[OF assms(3) c1]
  obtain r2 where r2: "current w2 = Some r2" "rec_id r2 = rec_id r" "attempts r2 = attempts r"
    by auto
  show ?thesis
  proof (intro conjI impI allI)
    assume c: "is_cancel error"
    then show "handleNextAction fuel env w = Some (setProviderCanceling env (rec_id r) ''CANCEL'' w2)"
      using h by (simp add: burst_failed_cancel)
  next
    assume c: "is_cancel error"
    have h': "handleNextAction fuel env w = Some (setProviderCanceling env (rec_id r) ''CANCEL'' w2)"
      using h c by (simp add: burst_failed_cancel)
    show "\<exists>res w3 r'. handleNextAction fuel env w = Some (res, w3) \<and>
           trace w3 = trace w2 @ [SetProviderCanceling (rec_id r) ''CANCEL''] \<and>
           current w3 = Some r' \<and> attempts r' = attempts r \<and>
           (res = Inr () \<and> next_action r' = ''cancel'' \<and> last_error r' = Some ''CANCEL'' \<or>
            (\<exists>e'. res = Inl e' \<and>
               call_fails env w2 (SetProviderCanceling (rec_id r) ''CANCEL'') = Some e'))"
      unfolding h' using r2
      by (cases "call_fails env w2 (SetProviderCanceling (rec_id r) ''CANCEL'')")
         (simp_all add: setProviderCanceling_def invoke_def upd_current_def)
  next
    fix d assume c: "\<not> is_cancel error \<and> error \<noteq> JsUndefined \<and> error \<noteq> JsNull"
      and d: "backoff_entry (backoff env) (attempts r) = Some d \<and> quarters d = None"
    then show "handleNextAction fuel env w =
             Some (setProviderBackoff env (rec_id r) (attempts r) error (as_milliseconds d) w2)"
      using h by (simp add: burst_failed_backoff)
  next
    fix d assume c: "\<not> is_cancel error \<and> error \<noteq> JsUndefined \<and> error \<noteq> JsNull"
      and d: "backoff_entry (backoff env) (attempts r) = Some d \<and> quarters d = None"
    then have h': "handleNextAction fuel env w =
             Some (setProviderBackoff env (rec_id r) (attempts r) error (as_milliseconds d) w2)"
      using h by (simp add: burst_failed_backoff)
    show "\<exists>res w3 r'. handleNextAction fuel env w = Some (res, w3) \<and>
              trace w3 =
                trace w2 @ [SetProviderBackoff (rec_id r) (attempts r) error (as_milliseconds d)] \<and>
              current w3 = Some r' \<and>
              (res = Inr () \<and> next_action r' = ''backoff'' \<and>
                 attempts r' = attempts r + 1 \<and>
                 next_action_at r' = date_now env w2 + as_milliseconds d \<or>
               (\<exists>e'. res = Inl e' \<and>
                  call_fails env w2
                    (SetProviderBackoff (rec_id r) (attempts r) error (as_milliseconds d))
                    = Some e'))"
      unfolding h' using r2
      by (cases "call_fails env w2
                   (SetProviderBackoff (rec_id r) (attempts r) error (as_milliseconds d))")
         (simp_all add: setProviderBackoff_def invoke_def upd_current_def)
  qed
qed

lemma demo_current:
  "getCurrentAction (throwing_env e) ingest_world =
     (Inr (Some ingest_record), ingest_world\<lparr>trace := [GetCurrentIngestionRecord ''github'']\<rparr>)"
  by (simp add: getCurrentAction_def bindE_def returnE_def getCurrentIngestionRecord_def
      throwing_env_def quiet_env_def ingest_world_def empty_world_def)

lemma demo_throw:
  "\<exists>w2. burst_attempt (Suc 0) (throwing_env e) ''i1''
          (ingest_world\<lparr>trace := [GetCurrentIngestionRecord ''github'']\<rparr>) = Some (Inl e, w2)"
  by (simp add: burst_attempt_def setProviderBursting_def invoke_def ingestOneBurst_def
      getLastMark_def provider_next_def throwing_env_def quiet_env_def Let_def)

text \<open>The tick of the example ingestion when the first fetch throws \<open>e\<close>, up to the
  \<open>catch\<close> block, for any backoff table.\<close>

lemma demo_failed_fetch:
  "handleNextAction (Suc 0) ((throwing_env e)\<lparr>opt_backoff := t\<rparr>) ingest_world =
     Some (burst_failed ((throwing_env e)\<lparr>opt_backoff := t\<rparr>) ''i1'' 7 e failed_fetch_world)"
  by (simp add: handleNextAction_def getCurrentAction_def bindE_def returnE_def
      getCurrentIngestionRecord_def burst_attempt_def setProviderBursting_def invoke_def
      upd_current_def ingestOneBurst_def getLastMark_def last_mark_of_def provider_next_def
      throwing_env_def quiet_env_def ingest_world_def ingest_record_def empty_world_def
      failed_fetch_world_def Let_def)

text \<open>
  Claim C4 (a defect of the code). Whatever a burst throws is meant to end the tick in a
  state transition: \<open>cancel\<close> for a cancellation, \<open>backoff\<close> for any other failure, and
  never to leave the tick. The \<open>catch\<close> block itself throws in three cases, before
  it has made any store call, and then the error leaves the tick and the ingestion keeps
  the action \<open>ingest\<close> with the attempts it had: when the caller's backoff table is empty
  (\<open>Duration.fromObject(undefined)\<close>), when the table's entry has the unit \<open>quarters\<close>
  (\<open>toHuman\<close> in the log message), and when the thrown value is \<open>undefined\<close> (its message
  cannot be read). The example ingestion has 7 attempts and its provider throws on the
  first fetch; with the default table, the same failure \<open>Error: boom\<close> ends in
  \<open>setProviderBackoff\<close> with 3 hours.
\<close>

theorem failure_escapes_tick:
  "handleNextAction (Suc 0) (no_table_env (JsError ''Error'' ''boom'')) ingest_world =
     Some (Inl (JsError ''Error''
                  ''Duration.fromObject: argument expected to be an object, got undefined''),
           failed_fetch_world) \<and>
   handleNextAction (Suc 0) (quarterly_table_env (JsError ''Error'' ''boom'')) ingest_world =
     Some (Inl (JsError ''RangeError''
                  ''Invalid unit argument for Intl.NumberFormat() quarter''),
           failed_fetch_world) \<and>
   handleNextAction (Suc 0) (throwing_env JsUndefined) ingest_world =
     Some (Inl (JsError ''TypeError''
                  ''Cannot read properties of undefined (reading message)''),
           failed_fetch_world) \<and>
   trace failed_fetch_world =
     [GetCurrentIngestionRecord ''github'', SetProviderBursting ''i1'', GetLastMark ''i1'',
      ProviderNext None] \<and>
   map_option next_action (current failed_fetch_world) = Some ''ingest'' \<and>
   map_option attempts (current failed_fetch_world) = Some 7 \<and>
   fst (the (handleNextAction (Suc 0) (throwing_env (JsError ''Error'' ''boom'')) ingest_world))
     = Inr () \<and>
   trace (snd (the (handleNextAction (Suc 0) (throwing_env (JsError ''Error'' ''boom''))
                      ingest_world))) =
     trace failed_fetch_world @
       [SetProviderBackoff ''i1'' 7 (JsError ''Error'' ''boom'') 10800000]"
proof -
  have a: "no_table_env e = (throwing_env e)\<lparr>opt_backoff := Some []\<rparr>" for e
    by (simp add: no_table_env_def)
  have b: "quarterly_table_env e =
             (throwing_env e)\<lparr>opt_backoff := Some [no_units\<lparr>quarters := Some 1\<rparr>]\<rparr>" for e
    by (simp add: quarterly_table_env_def)
  have c: "throwing_env e = (throwing_env e)\<lparr>opt_backoff := None\<rparr>" for e
    by (simp add: throwing_env_def quiet_env_def)
  have 1: "handleNextAction (Suc 0) (no_table_env (JsError ''Error'' ''boom'')) ingest_world =
     Some (Inl (JsError ''Error''
                  ''Duration.fromObject: argument expected to be an object, got undefined''),
           failed_fetch_world)"
    unfolding a demo_failed_fetch
    by (simp add: burst_failed_def backoff_entry_def backoff_def)
  have 2: "handleNextAction (Suc 0) (quarterly_table_env (JsError ''Error'' ''boom'')) ingest_world =
     Some (Inl (JsError ''RangeError''
                  ''Invalid unit argument for Intl.NumberFormat() quarter''),
           failed_fetch_world)"
    unfolding b demo_failed_fetch
    by (simp add: burst_failed_def backoff_entry_def backoff_def toHuman_def no_units_def)
  have 3: "handleNextAction (Suc 0) (throwing_env JsUndefined) ingest_world =
     Some (Inl (JsError ''TypeError''
                  ''Cannot read properties of undefined (reading message)''),
           failed_fetch_world)"
    by (subst c, unfold demo_failed_fetch) (simp add: burst_failed_def)
  have 4: "handleNextAction (Suc 0) (throwing_env (JsError ''Error'' ''boom'')) ingest_world =
     Some (burst_failed (throwing_env (JsError ''Error'' ''boom'')) ''i1'' 7
             (JsError ''Error'' ''boom'') failed_fetch_world)"
    using demo_failed_fetch[where e = "JsError ''Error'' ''boom''" and t = None] c by simp
  have 5: "burst_failed (throwing_env (JsError ''Error'' ''boom'')) ''i1'' 7
             (JsError ''Error'' ''boom'') failed_fetch_world =
           (Inr (), snd (burst_failed (throwing_env (JsError ''Error'' ''boom'')) ''i1'' 7
             (JsError ''Error'' ''boom'') failed_fetch_world)) \<and>
        trace (snd (burst_failed (throwing_env (JsError ''Error'' ''boom'')) ''i1'' 7
             (JsError ''Error'' ''boom'') failed_fetch_world)) =
        trace failed_fetch_world @
          [SetProviderBackoff ''i1'' 7 (JsError ''Error'' ''boom'') 10800000]"
    by (simp add: burst_failed_def backoff_entry_def backoff_def default_backoff_def
        toHuman_def no_units_def as_milliseconds_def unit_value_def setProviderBackoff_def
        invoke_def throwing_env_def quiet_env_def)
  have 6: "trace failed_fetch_world =
     [GetCurrentIngestionRecord ''github'', SetProviderBursting ''i1'', GetLastMark ''i1'',
      ProviderNext None]"
    by (simp add: failed_fetch_world_def)
  have 7: "map_option next_action (current failed_fetch_world) = Some ''ingest''"
    "map_option attempts (current failed_fetch_world) = Some 7"
    by (simp_all add: failed_fetch_world_def ingest_record_def)
  from 5 have 8: "fst (the (handleNextAction (Suc 0) (throwing_env (JsError ''Error'' ''boom''))
       ingest_world)) = Inr ()"
    unfolding 4 by (metis fst_conv option.sel)
  from 5 have 9: "trace (snd (the (handleNextAction (Suc 0)
       (throwing_env (JsError ''Error'' ''boom'')) ingest_world))) =
     trace failed_fetch_world @
       [SetProviderBackoff ''i1'' 7 (JsError ''Error'' ''boom'') 10800000]"
    unfolding 4 by simp
  from 1 2 3 6 7 8 9 show ?thesis by (intro conjI)
qed

section \<open>The backoff table\<close>

lemma backoff_entry_nth:
  assumes "table \<noteq> []" and "0 \<le> a"
  shows "backoff_entry table a = Some (table ! min (nat a) (length table - 1))"
proof -
  have len: "0 < length table" using assms(1) by simp
  obtain n where n: "length table = Suc n" using len by (cases "length table") auto
  have "nat (min (int (length table) - 1) a) = min (nat a) (length table - 1)"
    using assms(2) by (auto simp: n min_def)
  moreover have "0 \<le> min (int (length table) - 1) a" using assms(2) by (simp add: n)
  moreover have "min (int (length table) - 1) a < int (length table)" by (simp add: n min_def)
  ultimately show ?thesis by (simp add: backoff_entry_def Let_def)
qed

lemma backoff_delay_nth:
  assumes "backoff env \<noteq> []" and "0 \<le> a"
  shows "backoff_delay env a =
           Some (as_milliseconds (backoff env ! min (nat a) (length (backoff env) - 1)))"
  by (simp add: backoff_delay_def backoff_entry_nth[OF assms])

lemma default_delays: "map as_milliseconds default_backoff = [60000, 300000, 1800000, 10800000]"
  by (simp add: default_backoff_def as_milliseconds_def unit_value_def no_units_def)

text \<open>
  Claim C3 (as amended). The table is the caller's when the caller gives one, and
  \<open>[1 min, 5 min, 30 min, 3 h]\<close> otherwise. For a table that is not empty and an attempt
  count \<open>a\<close> that is not negative, the entry read in the \<open>catch\<close> block is the one at
  \<open>min(a, length - 1)\<close>, and the delay is that entry in milliseconds; from
  \<open>a = length - 1\<close> on it is the last entry. When the table is ordered shortest first, the
  delay does not decrease as the attempts grow. After a failure that is no cancellation,
  with a thrown value other than \<open>undefined\<close> and \<open>null\<close>, and when the entry has no unit
  \<open>quarters\<close>, what the \<open>catch\<close> block does is the call of \<open>setProviderBackoff\<close> with that
  delay. With the default table 0 attempts give 60000 ms, 3 attempts 10800000 ms and
  10 attempts 10800000 ms.
\<close>

theorem backoff_delay_clamped:
  assumes "backoff env \<noteq> []" and "0 \<le> a"
  shows
    "(\<forall>t. opt_backoff env = Some t \<longrightarrow> backoff env = t) \<and>
     backoff_entry (backoff env) a =
       Some (backoff env ! min (nat a) (length (backoff env) - 1)) \<and>
     backoff_delay env a =
       Some (as_milliseconds (backoff env ! min (nat a) (length (backoff env) - 1))) \<and>
     (int (length (backoff env)) - 1 \<le> a \<longrightarrow>
        backoff_delay env a = Some (as_milliseconds (last (backoff env)))) \<and>
     (sorted (map as_milliseconds (backoff env)) \<longrightarrow>
        (\<forall>b. a \<le> b \<longrightarrow> the (backoff_delay env a) \<le> the (backoff_delay env b))) \<and>
     (\<forall>error iid w.
        \<not> is_cancel error \<and> error \<noteq> JsUndefined \<and> error \<noteq> JsNull \<and>
        quarters (backoff env ! min (nat a) (length (backoff env) - 1)) = None \<longrightarrow>
        burst_failed env iid a error w =
          setProviderBackoff env iid a error
            (as_milliseconds (backoff env ! min (nat a) (length (backoff env) - 1))) w) \<and>
     (opt_backoff env = None \<longrightarrow>
        backoff env =
          [no_units\<lparr>minutes := Some 1\<rparr>, no_units\<lparr>minutes := Some 5\<rparr>,
           no_units\<lparr>minutes := Some 30\<rparr>, no_units\<lparr>hours := Some 3\<rparr>] \<and>
        map as_milliseconds (backoff env) = [60000, 300000, 1800000, 10800000] \<and>
        backoff_delay env 0 = Some 60000 \<and> backoff_delay env 3 = Some 10800000 \<and>
        backoff_delay env 10 = Some 10800000)"
proof (intro conjI impI allI)
  let ?t = "backoff env"
  show d: "backoff_delay env a = Some (as_milliseconds (?t ! min (nat a) (length ?t - 1)))"
    by (rule backoff_delay_nth[OF assms])
  show e: "backoff_entry ?t a = Some (?t ! min (nat a) (length ?t - 1))"
    by (rule backoff_entry_nth[OF assms])
  {
    fix t assume "opt_backoff env = Some t"
    then show "?t = t" by (simp add: backoff_def)
  }
  {
    assume "int (length ?t) - 1 \<le> a"
    then have "min (nat a) (length ?t - 1) = length ?t - 1" by (auto simp: min_def)
    then show "backoff_delay env a = Some (as_milliseconds (last ?t))"
      using d assms(1) by (simp add: last_conv_nth)
  }
  {
    fix b assume s: "sorted (map as_milliseconds ?t)" and ab: "a \<le> b"
    have b0: "0 \<le> b" using assms(2) ab by simp
    let ?i = "min (nat a) (length ?t - 1)" and ?j = "min (nat b) (length ?t - 1)"
    have "?i \<le> ?j" using ab by (auto simp: min_def)
    moreover have lj: "?j < length (map as_milliseconds ?t)"
      using assms(1) by (cases ?t) (simp_all add: min_def)
    ultimately have "map as_milliseconds ?t ! ?i \<le> map as_milliseconds ?t ! ?j"
      using s by (rule sorted_nth_mono[rotated])
    moreover have "?i < length ?t" "?j < length ?t"
      using assms(1) by (cases ?t, simp, simp add: min_def)+
    ultimately show "the (backoff_delay env a) \<le> the (backoff_delay env b)"
      by (simp add: d backoff_delay_nth[OF assms(1) b0])
  }
  {
    fix error iid w
    assume "\<not> is_cancel error \<and> error \<noteq> JsUndefined \<and> error \<noteq> JsNull \<and>
        quarters (?t ! min (nat a) (length ?t - 1)) = None"
    then show "burst_failed env iid a error w =
          setProviderBackoff env iid a error
            (as_milliseconds (?t ! min (nat a) (length ?t - 1))) w"
      using e by (simp add: burst_failed_backoff)
  }
  {
    assume n: "opt_backoff env = None"
    then have t: "?t = default_backoff" by (simp add: backoff_def)
    show "?t = [no_units\<lparr>minutes := Some 1\<rparr>, no_units\<lparr>minutes := Some 5\<rparr>,
                no_units\<lparr>minutes := Some 30\<rparr>, no_units\<lparr>hours := Some 3\<rparr>]"
      by (simp add: t default_backoff_def)
    show "map as_milliseconds ?t = [60000, 300000, 1800000, 10800000]"
      by (simp add: t default_delays)
    show "backoff_delay env 0 = Some 60000"
      by (simp add: backoff_delay_def backoff_entry_def t default_backoff_def
          as_milliseconds_def unit_value_def no_units_def)
    show "backoff_delay env 3 = Some 10800000"
      by (simp add: backoff_delay_def backoff_entry_def t default_backoff_def
          as_milliseconds_def unit_value_def no_units_def)
    show "backoff_delay env 10 = Some 10800000"
      by (simp add: backoff_delay_def backoff_entry_def t default_backoff_def
          as_milliseconds_def unit_value_def no_units_def)
  }
qed

text \<open>The caller's table \<open>[30 s, 10 min]\<close> at 5 attempts, and the default table at 10.\<close>

theorem backoff_delay_clamped_witness:
  "backoff patient_env \<noteq> [] \<and> (0::int) \<le> 5 \<and>
   backoff patient_env = [no_units\<lparr>seconds := Some 30\<rparr>, no_units\<lparr>minutes := Some 10\<rparr>] \<and>
   backoff_delay patient_env 5 = Some 600000 \<and>
   burst_failed patient_env ''i1'' 5 (JsError ''Error'' ''boom'') empty_world =
     setProviderBackoff patient_env ''i1'' 5 (JsError ''Error'' ''boom'') 600000 empty_world \<and>
   backoff quiet_env \<noteq> [] \<and> (0::int) \<le> 10 \<and>
   backoff_delay quiet_env 10 = Some (as_milliseconds (last (backoff quiet_env))) \<and>
   backoff_delay quiet_env 10 = Some 10800000 \<and>
   the (backoff_delay quiet_env 10) \<le> the (backoff_delay quiet_env 11)"
proof -
  let ?tab = "[no_units\<lparr>seconds := Some 30\<rparr>, no_units\<lparr>minutes := Some 10\<rparr>]"
  have o: "opt_backoff patient_env = Some ?tab" by (simp add: patient_env_def)
  have p0: "backoff patient_env = ?tab" by (simp add: backoff_def patient_env_def)
  have p1: "backoff patient_env \<noteq> []" by (simp add: p0)
  have p2: "(0::int) \<le> 5" by simp
  note tp = backoff_delay_clamped[OF p1 p2]
  from tp o have pa: "backoff patient_env = ?tab" by (elim conjE) simp
  have ix: "?tab ! min (nat 5) (length ?tab - 1) = no_units\<lparr>minutes := Some 10\<rparr>"
    by simp
  have ms: "as_milliseconds (no_units\<lparr>minutes := Some 10\<rparr>) = 600000"
    by (simp add: as_milliseconds_def unit_value_def no_units_def)
  from tp have "backoff_delay patient_env 5 =
      Some (as_milliseconds (backoff patient_env !
              min (nat 5) (length (backoff patient_env) - 1)))"
    by (elim conjE)
  then have pb: "backoff_delay patient_env 5 = Some 600000"
    unfolding pa ix ms .
  have nq: "\<not> is_cancel (JsError ''Error'' ''boom'') \<and>
      JsError ''Error'' ''boom'' \<noteq> JsUndefined \<and> JsError ''Error'' ''boom'' \<noteq> JsNull \<and>
      quarters (backoff patient_env ! min (nat 5) (length (backoff patient_env) - 1)) = None"
    unfolding pa ix by (simp add: no_units_def)
  from tp have "\<forall>error iid w.
        \<not> is_cancel error \<and> error \<noteq> JsUndefined \<and> error \<noteq> JsNull \<and>
        quarters (backoff patient_env ! min (nat 5) (length (backoff patient_env) - 1)) = None \<longrightarrow>
        burst_failed patient_env iid 5 error w =
          setProviderBackoff patient_env iid 5 error
            (as_milliseconds (backoff patient_env !
               min (nat 5) (length (backoff patient_env) - 1))) w"
    by (elim conjE)
  from this[THEN spec, THEN spec, THEN spec, THEN mp, OF nq]
  have pc: "burst_failed patient_env ''i1'' 5 (JsError ''Error'' ''boom'') empty_world =
     setProviderBackoff patient_env ''i1'' 5 (JsError ''Error'' ''boom'') 600000 empty_world"
    unfolding pa ix ms .
  have t: "backoff quiet_env = default_backoff" by (simp add: backoff_def quiet_env_def)
  have h1: "backoff quiet_env \<noteq> []" by (simp add: t default_backoff_def)
  have h2: "(0::int) \<le> 10" by simp
  have n: "opt_backoff quiet_env = None" by (simp add: quiet_env_def)
  have s: "sorted (map as_milliseconds (backoff quiet_env))"
    by (simp add: t default_delays)
  have l: "int (length (backoff quiet_env)) - 1 \<le> 10" by (simp add: t default_backoff_def)
  note th = backoff_delay_clamped[OF h1 h2]
  from th l have a: "backoff_delay quiet_env 10 = Some (as_milliseconds (last (backoff quiet_env)))"
    by (elim conjE) simp
  from th n have b: "backoff_delay quiet_env 10 = Some 10800000" by (elim conjE) simp
  from th s have "\<forall>b. 10 \<le> b \<longrightarrow> the (backoff_delay quiet_env 10) \<le> the (backoff_delay quiet_env b)"
    by (elim conjE) simp
  then have c: "the (backoff_delay quiet_env 10) \<le> the (backoff_delay quiet_env 11)" by simp
  from p1 p2 pa pb pc h1 h2 a b c show ?thesis by (intro conjI)
qed

text \<open>
  Where the claim as stated fails. With the caller's table \<open>[5 min, 1 min]\<close> the delay
  falls from 300000 ms at 0 attempts to 60000 ms at 1 attempt, and these are the delays
  handed to \<open>setProviderBackoff\<close>. With an empty table, and with a negative attempt count,
  there is no entry at the index: no delay is chosen, and the \<open>catch\<close> block throws without
  a store call. With the table's entry in quarters the delay is computed (a quarter is 91
  days) but the \<open>catch\<close> block throws before it hands it over, and so it does at once for a
  thrown \<open>undefined\<close>.
\<close>

theorem backoff_table_counterexample:
  "backoff_delay unsorted_env 0 = Some 300000 \<and> backoff_delay unsorted_env 1 = Some 60000 \<and>
   \<not> the (backoff_delay unsorted_env 0) \<le> the (backoff_delay unsorted_env 1) \<and>
   trace (snd (burst_failed unsorted_env ''i1'' 0 (JsError ''Error'' ''boom'') empty_world)) =
     [SetProviderBackoff ''i1'' 0 (JsError ''Error'' ''boom'') 300000] \<and>
   trace (snd (burst_failed unsorted_env ''i1'' 1 (JsError ''Error'' ''boom'') empty_world)) =
     [SetProviderBackoff ''i1'' 1 (JsError ''Error'' ''boom'') 60000] \<and>
   backoff_delay (no_table_env (JsError ''Error'' ''boom'')) 0 = None \<and>
   burst_failed (no_table_env (JsError ''Error'' ''boom'')) ''i1'' 0
       (JsError ''Error'' ''boom'') empty_world =
     (Inl (JsError ''Error''
             ''Duration.fromObject: argument expected to be an object, got undefined''),
      empty_world) \<and>
   backoff_delay quiet_env (- 1) = None \<and>
   burst_failed quiet_env ''i1'' (- 1) (JsError ''Error'' ''boom'') empty_world =
     (Inl (JsError ''Error''
             ''Duration.fromObject: argument expected to be an object, got undefined''),
      empty_world) \<and>
   backoff_delay (quarterly_table_env (JsError ''Error'' ''boom'')) 0 = Some 7862400000 \<and>
   burst_failed (quarterly_table_env (JsError ''Error'' ''boom'')) ''i1'' 0
       (JsError ''Error'' ''boom'') empty_world =
     (Inl (JsError ''RangeError'' ''Invalid unit argument for Intl.NumberFormat() quarter''),
      empty_world) \<and>
   burst_failed quiet_env ''i1'' 0 JsUndefined empty_world =
     (Inl (JsError ''TypeError'' ''Cannot read properties of undefined (reading message)''),
      empty_world)"
  by (simp add: backoff_delay_def backoff_entry_def backoff_def unsorted_env_def quiet_env_def
      no_table_env_def quarterly_table_env_def throwing_env_def default_backoff_def
      as_milliseconds_def unit_value_def no_units_def burst_failed_def toHuman_def
      setProviderBackoff_def invoke_def empty_world_def)

section \<open>How a cancellation is recognised\<close>

text \<open>
  Claim C5 (as amended). In a tick whose action is \<open>ingest\<close> and whose \<open>try\<close> block
  throws, the tick calls \<open>setProviderCanceling\<close> exactly when the thrown value is an object
  whose message is the text \<open>CANCEL\<close>, whatever its name (its kind) is; when that call
  succeeds the next action is \<open>cancel\<close>, and in no other case is it.
\<close>

theorem cancel_recognised_by_message:
  assumes "getCurrentAction env w = (Inr (Some r), w1)" and "next_action r = ''ingest''"
    and "burst_attempt fuel env (rec_id r) w1 = Some (Inl error, w2)"
  shows "\<exists>res w3 r'. handleNextAction fuel env w = Some (res, w3) \<and>
           ((trace w3 = trace w2 @ [SetProviderCanceling (rec_id r) ''CANCEL'']) =
            (\<exists>n. error = JsError n ''CANCEL'')) \<and>
           current w3 = Some r' \<and>
           (res = Inr () \<longrightarrow>
              (next_action r' = ''cancel'') = (\<exists>n. error = JsError n ''CANCEL''))"
proof -
  have h: "handleNextAction fuel env w = Some (burst_failed env (rec_id r) (attempts r) error w2)"
    using handle_ingest[OF assms(1,2)] assms(3) by simp
  have c1: "current w1 = Some r" by (rule getCurrentAction_Some(1)[OF assms(1)])
  from burst_attempt_Inl_current[OF assms(3) c1]
  obtain r2 where r2: "current w2 = Some r2" "rec_id r2 = rec_id r" "next_action r2 = ''ingest''"
    using assms(2) by auto
  obtain res w3 where rw: "burst_failed env (rec_id r) (attempts r) error w2 = (res, w3)"
    by (cases "burst_failed env (rec_id r) (attempts r) error w2")
  show ?thesis
  proof (cases "is_cancel error")
    case True
    then have "\<exists>n. error = JsError n ''CANCEL''" by (simp add: is_cancel_iff)
    moreover from True rw
    have "setProviderCanceling env (rec_id r) ''CANCEL'' w2 = (res, w3)"
      by (simp add: burst_failed_cancel)
    then have "trace w3 = trace w2 @ [SetProviderCanceling (rec_id r) ''CANCEL''] \<and>
               (\<exists>r'. current w3 = Some r' \<and> (res = Inr () \<longrightarrow> next_action r' = ''cancel''))"
      using r2
      by (cases "call_fails env w2 (SetProviderCanceling (rec_id r) ''CANCEL'')")
         (auto simp: setProviderCanceling_def invoke_def upd_current_def)
    ultimately show ?thesis using h rw by auto
  next
    case False
    then have no: "\<not> (\<exists>n. error = JsError n ''CANCEL'')" by (simp add: is_cancel_iff)
    from False rw
    have "trace w3 \<noteq> trace w2 @ [SetProviderCanceling (rec_id r) ''CANCEL''] \<and>
          (\<exists>r'. current w3 = Some r' \<and> (res = Inr () \<longrightarrow> next_action r' \<noteq> ''cancel''))"
      using r2
      by (auto simp: burst_failed_def setProviderBackoff_def invoke_def upd_current_def
          split: option.splits sum.splits)
    then show ?thesis using h rw no by auto
  qed
qed

lemma demo_tick_trace:
  "e = JsError n m \<Longrightarrow>
   map_option (\<lambda>(res, w3). (res, last (trace w3)))
     (handleNextAction (Suc 0) (throwing_env e) ingest_world) =
   Some (Inr (),
     if is_cancel e then SetProviderCanceling ''i1'' (err_message e)
     else SetProviderBackoff ''i1'' 7 e 10800000)"
  by (simp add: handleNextAction_def getCurrentAction_def bindE_def returnE_def
      getCurrentIngestionRecord_def burst_attempt_def setProviderBursting_def invoke_def
      ingestOneBurst_def getLastMark_def provider_next_def burst_failed_def toHuman_def
      setProviderCanceling_def setProviderBackoff_def backoff_entry_def backoff_def
      default_backoff_def as_milliseconds_def unit_value_def no_units_def
      throwing_env_def quiet_env_def ingest_world_def ingest_record_def empty_world_def Let_def)

lemma demo_tick_last:
  "fst (the (handleNextAction (Suc 0) (throwing_env (JsError n m)) ingest_world)) = Inr () \<and>
   last (trace (snd (the (handleNextAction (Suc 0) (throwing_env (JsError n m))
                            ingest_world)))) =
     (if is_cancel (JsError n m) then SetProviderCanceling ''i1'' m
      else SetProviderBackoff ''i1'' 7 (JsError n m) 10800000)"
  using demo_tick_trace[OF refl, of n m]
  by (cases "handleNextAction (Suc 0) (throwing_env (JsError n m)) ingest_world") auto

theorem cancel_by_kind_counterexample:
  "last (trace (snd (the (handleNextAction (Suc 0)
      (throwing_env (JsError ''TypeError'' ''CANCEL'')) ingest_world)))) =
     SetProviderCanceling ''i1'' ''CANCEL'' \<and>
   last (trace (snd (the (handleNextAction (Suc 0)
      (throwing_env (JsError ''TypeError'' ''boom'')) ingest_world)))) =
     SetProviderBackoff ''i1'' 7 (JsError ''TypeError'' ''boom'') 10800000 \<and>
   last (trace (snd (the (handleNextAction (Suc 0)
      (throwing_env (JsError ''CancellationError'' ''cancelled by the caller'')) ingest_world)))) =
     SetProviderBackoff ''i1'' 7
       (JsError ''CancellationError'' ''cancelled by the caller'') 10800000"
  by (simp add: demo_tick_last)

theorem cancel_recognised_by_message_witness:
  "\<exists>res w3. handleNextAction (Suc 0) (throwing_env (JsError ''TypeError'' ''CANCEL'')) ingest_world
              = Some (res, w3) \<and>
     last (trace w3) = SetProviderCanceling ''i1'' ''CANCEL''"
proof -
  have ing: "next_action ingest_record = ''ingest''" by (simp add: ingest_record_def)
  let ?c = "JsError ''TypeError'' ''CANCEL''"
  from demo_throw[of ?c] obtain wc where
    bc: "burst_attempt (Suc 0) (throwing_env ?c) (rec_id ingest_record)
          (ingest_world\<lparr>trace := [GetCurrentIngestionRecord ''github'']\<rparr>) = Some (Inl ?c, wc)"
    by (auto simp: ingest_record_def)
  from cancel_recognised_by_message[OF demo_current ing bc] obtain res w3 where
    t: "handleNextAction (Suc 0) (throwing_env ?c) ingest_world = Some (res, w3)"
       "(trace w3 = trace wc @ [SetProviderCanceling (rec_id ingest_record) ''CANCEL'']) =
        (\<exists>n. ?c = JsError n ''CANCEL'')"
    by blast
  from t(2) have "trace w3 = trace wc @ [SetProviderCanceling ''i1'' ''CANCEL'']"
    by (simp add: ingest_record_def)
  then have "last (trace w3) = SetProviderCanceling ''i1'' ''CANCEL''" by simp
  with t(1) show ?thesis by (intro exI[of _ res] exI[of _ w3] conjI)
qed

section \<open>A burst that returns\<close>

lemma burst_attempt_returns:
  assumes "setProviderBursting env iid w1 = (Inr u, wb)"
    and "ingestOneBurst fuel env iid wb = Some (Inr dn, w2)"
  shows "burst_attempt fuel env iid w1 =
           Some (if dn
                 then (case toHuman (restLength env) of
                         Inl e \<Rightarrow> (Inl e, w2)
                       | Inr _ \<Rightarrow> setProviderResting env iid (restLength env) w2)
                 else setProviderInterstitial env iid w2)"
  using assms by (simp add: burst_attempt_def)

lemma bursting_current:
  assumes "setProviderBursting env iid w1 = (Inr u, wb)" and "current w1 = Some r"
    and "rec_id r = iid"
  shows "current wb = Some (r\<lparr>status := ''bursting''\<rparr>)"
  using assms by (auto simp: setProviderBursting_def upd_current_def dest!: invoke_Inr)

text \<open>
  The tick whose burst returns, in general. When the burst returns \<open>false\<close>, the tick calls
  \<open>setProviderInterstitial\<close>, and the next action stays \<open>ingest\<close>. When it returns \<open>true\<close>
  and the rest length the engine was constructed with has no unit \<open>quarters\<close>, the tick
  calls \<open>setProviderResting\<close> with that length, and the next action becomes \<open>rest\<close>, due the
  rest length after the store's clock reading. When it returns \<open>true\<close> and the rest length
  has the unit \<open>quarters\<close>, the \<open>RangeError\<close> of \<open>toHuman\<close> goes to the \<open>catch\<close> block as if
  the burst had thrown it.
\<close>

lemma returning_burst_tick:
  assumes "getCurrentAction env w = (Inr (Some r), w1)" and "next_action r = ''ingest''"
    and "setProviderBursting env (rec_id r) w1 = (Inr u, wb)"
    and "ingestOneBurst fuel env (rec_id r) wb = Some (Inr dn, w2)"
  shows
    "(dn \<longrightarrow> quarters (opt_restLength env) = None \<longrightarrow>
        call_fails env w2 (SetProviderResting (rec_id r) (opt_restLength env)) = None \<longrightarrow>
        (\<exists>w3 r'. handleNextAction fuel env w = Some (Inr (), w3) \<and>
           trace w3 = trace w2 @ [SetProviderResting (rec_id r) (opt_restLength env)] \<and>
           current w3 = Some r' \<and> rec_id r' = rec_id r \<and> next_action r' = ''rest'' \<and>
           next_action_at r' = date_now env w2 + as_milliseconds (opt_restLength env))) \<and>
     (\<not> dn \<longrightarrow> call_fails env w2 (SetProviderInterstitial (rec_id r)) = None \<longrightarrow>
        (\<exists>w3 r'. handleNextAction fuel env w = Some (Inr (), w3) \<and>
           trace w3 = trace w2 @ [SetProviderInterstitial (rec_id r)] \<and>
           current w3 = Some r' \<and> rec_id r' = rec_id r \<and> next_action r' = ''ingest'' \<and>
           status r' = ''interstitial'')) \<and>
     (dn \<longrightarrow> quarters (opt_restLength env) \<noteq> None \<longrightarrow>
        handleNextAction fuel env w =
          Some (burst_failed env (rec_id r) (attempts r)
                  (JsError ''RangeError''
                     ''Invalid unit argument for Intl.NumberFormat() quarter'') w2))"
proof -
  have c1: "current w1 = Some r" by (rule getCurrentAction_Some(1)[OF assms(1)])
  have cb: "current wb = Some (r\<lparr>status := ''bursting''\<rparr>)"
    by (rule bursting_current[OF assms(3) c1 refl])
  have c2: "current w2 = Some (r\<lparr>status := ''bursting''\<rparr>)"
    using ingestOneBurst_current[OF assms(4)] cb by simp
  note ba = burst_attempt_returns[OF assms(3,4)]
  note h = handle_ingest[OF assms(1,2), of fuel]
  have rl: "restLength env = opt_restLength env" by (simp add: restLength_def)
  show ?thesis
  proof (intro conjI impI)
    assume dn and q: "quarters (opt_restLength env) = None"
      and ok: "call_fails env w2 (SetProviderResting (rec_id r) (opt_restLength env)) = None"
    let ?w3 = "(upd_current (rec_id r)
                  (\<lambda>r. r\<lparr>next_action := ''rest'', attempts := 0,
                          next_action_at := date_now env w2 + as_milliseconds (opt_restLength env),
                          status := ''resting''\<rparr>) w2)
               \<lparr>trace := trace w2 @ [SetProviderResting (rec_id r) (opt_restLength env)]\<rparr>"
    have "setProviderResting env (rec_id r) (opt_restLength env) w2 = (Inr (), ?w3)"
      using ok by (simp add: setProviderResting_def invoke_ok)
    with ba \<open>dn\<close> h q have "handleNextAction fuel env w = Some (Inr (), ?w3)"
      by (simp add: rl toHuman_def)
    moreover have "\<exists>r'. current ?w3 = Some r' \<and> rec_id r' = rec_id r \<and>
        next_action r' = ''rest'' \<and>
        next_action_at r' = date_now env w2 + as_milliseconds (opt_restLength env)"
      using c2 by (simp add: upd_current_def)
    moreover have "trace ?w3 = trace w2 @ [SetProviderResting (rec_id r) (opt_restLength env)]"
      by simp
    ultimately show "\<exists>w3 r'. handleNextAction fuel env w = Some (Inr (), w3) \<and>
           trace w3 = trace w2 @ [SetProviderResting (rec_id r) (opt_restLength env)] \<and>
           current w3 = Some r' \<and> rec_id r' = rec_id r \<and> next_action r' = ''rest'' \<and>
           next_action_at r' = date_now env w2 + as_milliseconds (opt_restLength env)"
      by blast
  next
    assume "\<not> dn" and ok: "call_fails env w2 (SetProviderInterstitial (rec_id r)) = None"
    let ?w3 = "(upd_current (rec_id r)
                  (\<lambda>r. r\<lparr>next_action := ''ingest'', attempts := 0,
                          status := ''interstitial''\<rparr>) w2)
               \<lparr>trace := trace w2 @ [SetProviderInterstitial (rec_id r)]\<rparr>"
    have "setProviderInterstitial env (rec_id r) w2 = (Inr (), ?w3)"
      using ok by (simp add: setProviderInterstitial_def invoke_ok)
    with ba \<open>\<not> dn\<close> h have "handleNextAction fuel env w = Some (Inr (), ?w3)" by simp
    moreover have "\<exists>r'. current ?w3 = Some r' \<and> rec_id r' = rec_id r \<and>
        next_action r' = ''ingest'' \<and> status r' = ''interstitial''"
      using c2 by (simp add: upd_current_def)
    moreover have "trace ?w3 = trace w2 @ [SetProviderInterstitial (rec_id r)]" by simp
    ultimately show "\<exists>w3 r'. handleNextAction fuel env w = Some (Inr (), w3) \<and>
           trace w3 = trace w2 @ [SetProviderInterstitial (rec_id r)] \<and>
           current w3 = Some r' \<and> rec_id r' = rec_id r \<and> next_action r' = ''ingest'' \<and>
           status r' = ''interstitial''"
      by blast
  next
    assume dn and q: "quarters (opt_restLength env) \<noteq> None"
    with ba h show "handleNextAction fuel env w =
          Some (burst_failed env (rec_id r) (attempts r)
                  (JsError ''RangeError''
                     ''Invalid unit argument for Intl.NumberFormat() quarter'') w2)"
      by (auto simp: rl toHuman_def)
  qed
qed

lemma demo_quarterly_tick:
  "tick_summary (handleNextAction (Suc (Suc 0)) quarterly_rest_env ingest_world) =
     Some (Inr (),
           [SetProviderBursting ''i1'',
            SetProviderBackoff ''i1'' 7
              (JsError ''RangeError'' ''Invalid unit argument for Intl.NumberFormat() quarter'')
              10800000],
           Some \<lparr>rec_id = ''i1'', next_action = ''backoff'', attempts = 8,
                 next_action_at = 10801000, status = ''backing off'',
                 last_error =
                   Some ''RangeError: Invalid unit argument for Intl.NumberFormat() quarter''\<rparr>,
           2, 2, 2)"
  by (simp add: tick_summary_def handleNextAction_def getCurrentAction_def
      getCurrentIngestionRecord_def burst_attempt_def setProviderBursting_def
      ingestOneBurst_def getLastMark_def last_mark_of_def provider_next_def
      mark_def bindE_def returnE_def createMark_def createMarkEntities_def computeRemoved_def
      applyMutation_def invoke_def upd_current_def toHuman_def restLength_def
      burst_failed_def backoff_entry_def backoff_def default_backoff_def
      setProviderBackoff_def as_milliseconds_def unit_value_def no_units_def
      quarterly_rest_env_def quiet_env_def two_pages_def ingest_world_def ingest_record_def
      empty_world_def Let_def)

lemma demo_hourly_tick:
  "tick_summary (handleNextAction (Suc (Suc 0)) quiet_env ingest_world) =
     Some (Inr (),
           [SetProviderBursting ''i1'', SetProviderResting ''i1'' (no_units\<lparr>hours := Some 1\<rparr>)],
           Some \<lparr>rec_id = ''i1'', next_action = ''rest'', attempts = 0,
                 next_action_at = 3601000, status = ''resting'', last_error = None\<rparr>,
           2, 2, 2)"
  by (simp add: tick_summary_def handleNextAction_def getCurrentAction_def
      getCurrentIngestionRecord_def burst_attempt_def setProviderBursting_def
      ingestOneBurst_def getLastMark_def last_mark_of_def provider_next_def
      mark_def bindE_def returnE_def createMark_def createMarkEntities_def computeRemoved_def
      applyMutation_def invoke_def upd_current_def toHuman_def restLength_def
      setProviderResting_def as_milliseconds_def unit_value_def no_units_def
      quiet_env_def two_pages_def ingest_world_def ingest_record_def
      empty_world_def Let_def)

lemma demo_quarterly_burst:
  "map_option fst
     (ingestOneBurst (Suc (Suc 0)) quarterly_rest_env ''i1''
        (snd (setProviderBursting quarterly_rest_env ''i1''
                (after_read quarterly_rest_env ingest_world)))) = Some (Inr True)"
  by (simp add: setProviderBursting_def after_read_def
      ingestOneBurst_def getLastMark_def last_mark_of_def provider_next_def
      mark_def bindE_def returnE_def createMark_def createMarkEntities_def computeRemoved_def
      applyMutation_def invoke_def upd_current_def
      quarterly_rest_env_def quiet_env_def two_pages_def ingest_world_def ingest_record_def
      empty_world_def Let_def)

text \<open>
  Claim C6 (a defect of the code). A burst that reports full completion is meant to be
  followed by the transition to \<open>rest\<close>. With a rest length of one quarter the burst of
  the example ingestion fetches, marks and applies both pages of the source and returns
  \<open>true\<close>, and then the tick calls \<open>setProviderBackoff\<close> with the \<open>RangeError\<close> that
  \<open>toHuman\<close> threw while the log message was made: the ingestion is left in \<open>backoff\<close> with
  8 attempts, due after the 3 hours of the table, and \<open>setProviderResting\<close> is never called.
  With the rest length of one hour the same burst is followed by \<open>setProviderResting\<close>, the
  next action is \<open>rest\<close> and it is due one hour after the store's clock reading of 1000.
\<close>

theorem complete_burst_backs_off:
  "map_option fst
     (ingestOneBurst (Suc (Suc 0)) quarterly_rest_env ''i1''
        (snd (setProviderBursting quarterly_rest_env ''i1''
                (after_read quarterly_rest_env ingest_world)))) = Some (Inr True) \<and>
   tick_summary (handleNextAction (Suc (Suc 0)) quarterly_rest_env ingest_world) =
     Some (Inr (),
           [SetProviderBursting ''i1'',
            SetProviderBackoff ''i1'' 7
              (JsError ''RangeError'' ''Invalid unit argument for Intl.NumberFormat() quarter'')
              10800000],
           Some \<lparr>rec_id = ''i1'', next_action = ''backoff'', attempts = 8,
                 next_action_at = 10801000, status = ''backing off'',
                 last_error =
                   Some ''RangeError: Invalid unit argument for Intl.NumberFormat() quarter''\<rparr>,
           2, 2, 2) \<and>
   tick_summary (handleNextAction (Suc (Suc 0)) quiet_env ingest_world) =
     Some (Inr (),
           [SetProviderBursting ''i1'', SetProviderResting ''i1'' (no_units\<lparr>hours := Some 1\<rparr>)],
           Some \<lparr>rec_id = ''i1'', next_action = ''rest'', attempts = 0,
                 next_action_at = 3601000, status = ''resting'', last_error = None\<rparr>,
           2, 2, 2)"
  by (intro conjI demo_quarterly_burst demo_quarterly_tick demo_hourly_tick)

section \<open>Waiting ticks\<close>

lemma handle_waiting:
  assumes "current w = Some r"
    and "call_fails env w (GetCurrentIngestionRecord (providerName env)) = None"
  shows "handleNextAction fuel env w =
     (if next_action r = ''rest'' then
        (if date_now env (after_read env w) > next_action_at r
         then Some (bindE (clearFinishedIngestions env)
                      (\<lambda>_. setProviderComplete env (rec_id r)) (after_read env w))
         else Some (Inr (), after_read env w))
      else if next_action r = ''ingest'' then
        (case burst_attempt fuel env (rec_id r) (after_read env w) of
           None \<Rightarrow> None
         | Some (Inr u, w2) \<Rightarrow> Some (Inr u, w2)
         | Some (Inl error, w2) \<Rightarrow> Some (burst_failed env (rec_id r) (attempts r) error w2))
      else if next_action r = ''backoff'' then
        (if date_now env (after_read env w) > next_action_at r
         then Some (setProviderIngesting env (rec_id r) (after_read env w))
         else Some (Inr (), after_read env w))
      else if next_action r = ''cancel'' then
        Some (setProviderCanceled env (rec_id r) (after_read env w))
      else Some (Inr (), after_read env w))"
  using getCurrentAction_found[OF assms]
  by (simp add: handleNextAction_def Let_def after_read_def)

lemma same_stores_refl [simp]: "same_stores w w"
  by (simp add: same_stores_def)

lemma same_stores_after_read: "same_stores w v \<Longrightarrow> same_stores w (after_read env v)"
  by (simp add: same_stores_def after_read_def)

lemma same_stores_current: "same_stores w v \<Longrightarrow> current v = current w"
  by (auto simp: same_stores_def dest: arg_cong[where f = current])

text \<open>Any number of ticks, each of which finds the time not yet come, leaves the stores as
  they are.\<close>

lemma waiting_ticks:
  assumes r: "current w = Some r" "next_action r = ''rest'' \<or> next_action r = ''backoff''"
    and quiet: "\<forall>v. same_stores w v \<longrightarrow>
                  call_fails env v (GetCurrentIngestionRecord (providerName env)) = None \<and>
                  date_now env (after_read env v) \<le> next_action_at r"
  shows "same_stores w v \<Longrightarrow> \<exists>v'. run_ticks n fuel env v = Some v' \<and> same_stores w v'"
proof (induction n arbitrary: v)
  case 0
  then show ?case by simp
next
  case (Suc n)
  have cv: "current v = Some r" using same_stores_current[OF Suc.prems] r(1) by simp
  from quiet Suc.prems
  have q: "call_fails env v (GetCurrentIngestionRecord (providerName env)) = None"
       "date_now env (after_read env v) \<le> next_action_at r" by blast+
  have "handleNextAction fuel env v = Some (Inr (), after_read env v)"
    using handle_waiting[OF cv q(1), of fuel] r(2) q(2) by auto
  then have "run_ticks (Suc n) fuel env v = run_ticks n fuel env (after_read env v)"
    by (simp add: taskFn_def)
  with Suc.IH[OF same_stores_after_read[OF Suc.prems]] show ?case by simp
qed

text \<open>
  Claim C9. While the action is \<open>rest\<close> or \<open>backoff\<close> and the clock is not past the time
  of the next action, a tick reads the record and does nothing else: it returns with every
  store as it was, and so do any number of such ticks in a row. Once the clock is past that
  time, a resting tick calls \<open>clearFinishedIngestions\<close> for the provider and then
  \<open>setProviderComplete\<close>, which retires the ingestion, and a tick in backoff calls
  \<open>setProviderIngesting\<close>, which sets the next action to \<open>ingest\<close> and leaves the attempts.
\<close>

theorem waiting_tick_is_noop:
  assumes "current w = Some r"
    and "call_fails env w (GetCurrentIngestionRecord (providerName env)) = None"
    and "next_action r = ''rest'' \<or> next_action r = ''backoff''"
  shows
    "(date_now env (after_read env w) \<le> next_action_at r \<longrightarrow>
        handleNextAction fuel env w = Some (Inr (), after_read env w) \<and>
        same_stores w (after_read env w) \<and> current (after_read env w) = Some r) \<and>
     ((\<forall>v. same_stores w v \<longrightarrow>
           call_fails env v (GetCurrentIngestionRecord (providerName env)) = None \<and>
           date_now env (after_read env v) \<le> next_action_at r) \<longrightarrow>
        (\<forall>n. \<exists>v'. run_ticks n fuel env w = Some v' \<and> same_stores w v' \<and>
                   current v' = Some r)) \<and>
     (date_now env (after_read env w) > next_action_at r \<longrightarrow> next_action r = ''rest'' \<longrightarrow>
        handleNextAction fuel env w =
          Some (bindE (clearFinishedIngestions env) (\<lambda>_. setProviderComplete env (rec_id r))
                  (after_read env w)) \<and>
        ((\<forall>v c. call_fails env v c = None) \<longrightarrow>
           (\<exists>w3. handleNextAction fuel env w = Some (Inr (), w3) \<and>
              trace w3 = trace w @ [GetCurrentIngestionRecord (providerName env),
                                     ClearFinishedIngestions (providerName env),
                                     SetProviderComplete (rec_id r)] \<and>
              current w3 = None \<and> finished w3 = [r\<lparr>status := ''complete''\<rparr>]))) \<and>
     (date_now env (after_read env w) > next_action_at r \<longrightarrow> next_action r = ''backoff'' \<longrightarrow>
        handleNextAction fuel env w = Some (setProviderIngesting env (rec_id r) (after_read env w)) \<and>
        (call_fails env (after_read env w) (SetProviderIngesting (rec_id r)) = None \<longrightarrow>
           (\<exists>w3 r'. handleNextAction fuel env w = Some (Inr (), w3) \<and>
              trace w3 = trace w @ [GetCurrentIngestionRecord (providerName env),
                                     SetProviderIngesting (rec_id r)] \<and>
              current w3 = Some r' \<and> next_action r' = ''ingest'' \<and>
              attempts r' = attempts r \<and> rec_id r' = rec_id r)))"
proof (intro conjI impI allI)
  note h = handle_waiting[OF assms(1,2), of fuel]
  {
    assume "date_now env (after_read env w) \<le> next_action_at r"
    then show "handleNextAction fuel env w = Some (Inr (), after_read env w)"
      using h assms(3) by auto
    show "same_stores w (after_read env w)" by (simp add: same_stores_after_read)
    show "current (after_read env w) = Some r" using assms(1) by (simp add: after_read_def)
  }
  {
    fix n
    assume q: "\<forall>v. same_stores w v \<longrightarrow>
           call_fails env v (GetCurrentIngestionRecord (providerName env)) = None \<and>
           date_now env (after_read env v) \<le> next_action_at r"
    from waiting_ticks[OF assms(1,3) q same_stores_refl, of n fuel]
    obtain v' where "run_ticks n fuel env w = Some v'" "same_stores w v'" by blast
    moreover from this(2) have "current v' = Some r"
      using same_stores_current assms(1) by fastforce
    ultimately show "\<exists>v'. run_ticks n fuel env w = Some v' \<and> same_stores w v' \<and>
                   current v' = Some r" by blast
  }
  {
    assume t: "next_action_at r < date_now env (after_read env w)" and a: "next_action r = ''rest''"
    show "handleNextAction fuel env w =
          Some (bindE (clearFinishedIngestions env) (\<lambda>_. setProviderComplete env (rec_id r))
                  (after_read env w))"
      using h t a by simp
    assume nf: "\<forall>v c. call_fails env v c = None"
    show "\<exists>w3. handleNextAction fuel env w = Some (Inr (), w3) \<and>
              trace w3 = trace w @ [GetCurrentIngestionRecord (providerName env),
                                     ClearFinishedIngestions (providerName env),
                                     SetProviderComplete (rec_id r)] \<and>
              current w3 = None \<and> finished w3 = [r\<lparr>status := ''complete''\<rparr>]"
      using h t a nf assms(1)
      by (simp add: bindE_def clearFinishedIngestions_def setProviderComplete_def invoke_def
          retire_current_def after_read_def Let_def)
  }
  {
    assume t: "next_action_at r < date_now env (after_read env w)"
      and a: "next_action r = ''backoff''"
    show "handleNextAction fuel env w = Some (setProviderIngesting env (rec_id r) (after_read env w))"
      using h t a by simp
    assume nf: "call_fails env (after_read env w) (SetProviderIngesting (rec_id r)) = None"
    show "\<exists>w3 r'. handleNextAction fuel env w = Some (Inr (), w3) \<and>
              trace w3 = trace w @ [GetCurrentIngestionRecord (providerName env),
                                     SetProviderIngesting (rec_id r)] \<and>
              current w3 = Some r' \<and> next_action r' = ''ingest'' \<and>
              attempts r' = attempts r \<and> rec_id r' = rec_id r"
      using h t a nf assms(1)
      by (simp add: setProviderIngesting_def invoke_def upd_current_def after_read_def)
  }
qed

theorem waiting_tick_is_noop_witness:
  "handleNextAction 0 quiet_env resting_world = Some (Inr (), after_read quiet_env resting_world) \<and>
   (\<exists>v'. run_ticks 3 0 quiet_env resting_world = Some v' \<and> same_stores resting_world v' \<and>
         current v' = Some resting_record)"
proof -
  have c: "current resting_world = Some resting_record" by (simp add: resting_world_def)
  have nf: "\<And>v c. call_fails quiet_env v c = None" by (simp add: quiet_env_def)
  have a: "next_action resting_record = ''rest'' \<or> next_action resting_record = ''backoff''"
    by (simp add: resting_record_def)
  have t: "\<And>v. date_now quiet_env (after_read quiet_env v) \<le> next_action_at resting_record"
    by (simp add: quiet_env_def resting_record_def)
  note th = waiting_tick_is_noop[OF c nf a, of 0]
  from th[THEN conjunct1, THEN mp, OF t]
  have one: "handleNextAction 0 quiet_env resting_world =
               Some (Inr (), after_read quiet_env resting_world)" by (rule conjunct1)
  have "\<forall>v. same_stores resting_world v \<longrightarrow>
          call_fails quiet_env v (GetCurrentIngestionRecord (providerName quiet_env)) = None \<and>
          date_now quiet_env (after_read quiet_env v) \<le> next_action_at resting_record"
    using nf t by simp
  from th[THEN conjunct2, THEN conjunct1, THEN mp, OF this, THEN spec, of 3]
  have many: "\<exists>v'. run_ticks 3 0 quiet_env resting_world = Some v' \<and>
                same_stores resting_world v' \<and> current v' = Some resting_record" .
  from one many show ?thesis by (rule conjI)
qed

text \<open>The example ingestion up to its burst.\<close>

lemma demo_quiet_current:
  "getCurrentAction quiet_env ingest_world =
     (Inr (Some ingest_record), ingest_world\<lparr>trace := [GetCurrentIngestionRecord ''github'']\<rparr>)"
  by (simp add: getCurrentAction_def bindE_def returnE_def getCurrentIngestionRecord_def
      quiet_env_def ingest_world_def empty_world_def)

lemma demo_bursting:
  "call_fails env w (SetProviderBursting iid) = None \<Longrightarrow>
   \<exists>wb. setProviderBursting env iid w = (Inr (), wb) \<and> marks wb = marks w"
  by (simp add: setProviderBursting_def invoke_def upd_current_def split: option.splits)

lemma demo_two_pages:
  "marks w = [] \<Longrightarrow>
   \<exists>w2. ingestOneBurst (Suc (Suc 0)) quiet_env iid w = Some (Inr True, w2) \<and>
        length (mutations w2) = length (mutations w) + 2"
  by (simp add: ingestOneBurst_def getLastMark_def last_mark_of_def provider_next_def
      quiet_env_def two_pages_def mark_def bindE_def returnE_def
      createMark_def createMarkEntities_def computeRemoved_def applyMutation_def invoke_def
      Let_def)

section \<open>The delta of a page\<close>


text \<open>The \<open>applyMutation\<close> calls of any \<open>mark\<close>: at most one, and with the tagged
  entities.\<close>

lemma mark_apply_calls:
  assumes "mark env iid s ents dn c w = (r, w')"
  shows "length (filter is_apply (calls_since w w')) \<le> 1"
    and "\<forall>a\<in>set (calls_since w w'). is_apply a \<longrightarrow>
           (\<exists>rm. a = ApplyMutation \<lparr>mut_type = ''delta'',
                        mut_added = map (tag_entity env) ents, mut_removed = rm\<rparr>)"
    and "case r of
           Inr u \<Rightarrow> length (filter is_apply (calls_since w w')) = 1 \<and>
                    (\<exists>m. mutations w' = mutations w @ [m] \<and> last (trace w') = ApplyMutation m)
         | Inl e \<Rightarrow> mutations w' = mutations w"
  using assms
  by (auto simp: mark_def bindE_def returnE_def createMark_def createMarkEntities_def
      computeRemoved_def applyMutation_def invoke_def new_mark_def Let_def calls_since_def
      split: option.splits if_splits sum.splits prod.splits)

lemma tag_entity_provenance: "provenance env (tag_entity env d) = Some (providerName env)"
  by (simp add: provenance_def tag_entity_def)

lemma deltas_provenance:
  "list_all2 (delta_of env) ps ms \<Longrightarrow>
     \<forall>m\<in>set ms. mut_type m = ''delta'' \<and>
       (\<forall>d\<in>set (mut_added m). provenance env d = Some (providerName env))"
  by (induction rule: list_all2_induct) (auto simp: delta_of_def tag_entity_provenance)

lemma burst_applied:
  assumes "ingestOneBurst fuel env iid w = Some (r, w')"
  shows "\<exists>fs applied ms. fetched w' = fetched w @ fs \<and> mutations w' = mutations w @ ms \<and>
           list_all2 (delta_of env) applied ms \<and>
           (applied = map snd fs \<or> applied = butlast (map snd fs) \<and> (\<exists>e. r = Inl e))"
proof -
  from ingestOneBurst_run[OF assms] obtain fs where
    fs: "fetched w' = fetched w @ fs"
        "burst_outcome env iid (start_sequence iid w) w (map snd fs) r w'" by blast
  have "\<exists>applied ms. mutations w' = mutations w @ ms \<and>
           list_all2 (delta_of env) applied ms \<and>
           (applied = map snd fs \<or> applied = butlast (map snd fs) \<and> (\<exists>e. r = Inl e))"
  proof (cases r)
    case (Inr d)
    with fs(2) show ?thesis by (auto simp: burst_effect_def)
  next
    case (Inl e)
    with fs(2) show ?thesis
      by (cases "last (trace w')") (auto simp: burst_effect_def)
  qed
  with fs(1) show ?thesis by blast
qed

text \<open>
  Claim C8. The entity that \<open>mark\<close> builds carries the provider's name under the
  annotation key. Whatever way a \<open>mark\<close> ends, it has called \<open>applyMutation\<close> at most once,
  and only with a mutation of type \<open>delta\<close> whose added set is the page's entities, each so
  tagged; when it returns it has called it exactly once, as its last call, and that
  mutation is applied. Over a burst, the mutations applied correspond one to one, in order,
  to the pages fetched (to all but the last when the burst throws on its last page), and
  every entity they add carries the provider's name.
\<close>

theorem one_tagged_delta_per_page:
  "provenance env (tag_entity env d) = Some (providerName env) \<and>
   (mark env iid s ents dn c w = (r, w') \<longrightarrow>
      length (filter is_apply (calls_since w w')) \<le> 1 \<and>
      (\<forall>a\<in>set (calls_since w w'). is_apply a \<longrightarrow>
         (\<exists>m. a = ApplyMutation m \<and> mut_type m = ''delta'' \<and>
              mut_added m = map (tag_entity env) ents \<and>
              (\<forall>d\<in>set (mut_added m). provenance env d = Some (providerName env)))) \<and>
      (case r of
         Inr u \<Rightarrow> length (filter is_apply (calls_since w w')) = 1 \<and>
                  (\<exists>m. mutations w' = mutations w @ [m] \<and> last (trace w') = ApplyMutation m)
       | Inl e \<Rightarrow> mutations w' = mutations w)) \<and>
   (ingestOneBurst fuel env iid w0 = Some (r0, w2) \<longrightarrow>
      (\<exists>fs applied ms. fetched w2 = fetched w0 @ fs \<and> mutations w2 = mutations w0 @ ms \<and>
         list_all2 (delta_of env) applied ms \<and>
         (applied = map snd fs \<or> applied = butlast (map snd fs) \<and> (\<exists>e. r0 = Inl e)) \<and>
         (\<forall>m\<in>set ms. mut_type m = ''delta'' \<and>
            (\<forall>d\<in>set (mut_added m). provenance env d = Some (providerName env)))))"
proof (intro conjI impI)
  show "provenance env (tag_entity env d) = Some (providerName env)"
    by (rule tag_entity_provenance)
  {
    assume m: "mark env iid s ents dn c w = (r, w')"
    show "length (filter is_apply (calls_since w w')) \<le> 1" by (rule mark_apply_calls(1)[OF m])
    from mark_apply_calls(2)[OF m]
    show "\<forall>a\<in>set (calls_since w w'). is_apply a \<longrightarrow>
         (\<exists>m. a = ApplyMutation m \<and> mut_type m = ''delta'' \<and>
              mut_added m = map (tag_entity env) ents \<and>
              (\<forall>d\<in>set (mut_added m). provenance env d = Some (providerName env)))"
      by (fastforce simp: tag_entity_provenance)
    show "case r of
         Inr u \<Rightarrow> length (filter is_apply (calls_since w w')) = 1 \<and>
                  (\<exists>m. mutations w' = mutations w @ [m] \<and> last (trace w') = ApplyMutation m)
       | Inl e \<Rightarrow> mutations w' = mutations w" by (rule mark_apply_calls(3)[OF m])
  }
  {
    assume b: "ingestOneBurst fuel env iid w0 = Some (r0, w2)"
    from burst_applied[OF b] obtain fs applied ms where
      a: "fetched w2 = fetched w0 @ fs" "mutations w2 = mutations w0 @ ms"
         "list_all2 (delta_of env) applied ms"
         "applied = map snd fs \<or> applied = butlast (map snd fs) \<and> (\<exists>e. r0 = Inl e)" by blast
    from deltas_provenance[OF a(3)] a
    show "\<exists>fs applied ms. fetched w2 = fetched w0 @ fs \<and> mutations w2 = mutations w0 @ ms \<and>
         list_all2 (delta_of env) applied ms \<and>
         (applied = map snd fs \<or> applied = butlast (map snd fs) \<and> (\<exists>e. r0 = Inl e)) \<and>
         (\<forall>m\<in>set ms. mut_type m = ''delta'' \<and>
            (\<forall>d\<in>set (mut_added m). provenance env d = Some (providerName env)))"
      by blast
  }
qed

theorem one_tagged_delta_per_page_witness:
  "\<exists>w2. ingestOneBurst (Suc (Suc 0)) quiet_env ''i1'' empty_world = Some (Inr True, w2) \<and>
        length (fetched w2) = 2 \<and> length (mutations w2) = length (fetched w2)"
proof -
  have "marks empty_world = []" by (simp add: empty_world_def)
  from demo_two_pages[where w = empty_world and iid = "''i1''", OF this] obtain w2 where
    b: "ingestOneBurst (Suc (Suc 0)) quiet_env ''i1'' empty_world = Some (Inr True, w2)"
       "length (mutations w2) = length (mutations empty_world) + 2" by blast
  from one_tagged_delta_per_page[THEN conjunct2, THEN conjunct2, THEN mp, OF b(1)]
  obtain fs applied ms where
    a: "fetched w2 = fetched empty_world @ fs" "mutations w2 = mutations empty_world @ ms"
       "list_all2 (delta_of quiet_env) applied ms"
       "applied = map snd fs \<or>
        applied = butlast (map snd fs) \<and> (\<exists>e. (Inr True :: thrown + bool) = Inl e)"
    by blast
  from a(4) have "applied = map snd fs" by simp
  with a(3) have "length fs = length ms" by (auto dest: list_all2_lengthD)
  with a(1,2) have "length (mutations w2) = length (fetched w2)"
    by (simp add: empty_world_def)
  moreover from this b(2) have "length (fetched w2) = 2" by (simp add: empty_world_def)
  ultimately show ?thesis using b(1) by (intro exI[of _ w2] conjI)
qed

section \<open>The removed set\<close>

lemma burst_loop_stops:
  "burst_loop fuel env iid s nxt w = Some (Inr d, w') \<Longrightarrow>
     \<exists>fs. fetched w' = fetched w @ fs \<and> d = page_done (last (nxt # map snd fs)) \<and>
          (\<forall>p\<in>set (butlast (nxt # map snd fs)). \<not> page_done p) \<and>
          (d \<or> signal_aborted env w')"
proof (induction fuel arbitrary: s nxt w)
  case 0
  then show ?case by simp
next
  case (Suc fuel)
  let ?m = "mark env iid s (page_entities nxt) (page_done nxt) (page_cursor nxt) w"
  obtain r1 w1 where m: "?m = (r1, w1)" by (cases ?m)
  show ?case
  proof (cases r1)
    case (Inl e)
    with m Suc.prems show ?thesis by simp
  next
    case (Inr u)
    from m Inr have mm:
      "mark env iid s (page_entities nxt) (page_done nxt) (page_cursor nxt) w = (Inr u, w1)"
      by simp
    have f1: "fetched w1 = fetched w" by (rule mark_Inr(5)[OF mm])
    show ?thesis
    proof (cases "signal_aborted env w1 \<or> page_done nxt")
      case True
      with mm Suc.prems have res: "d = page_done nxt" "w' = w1" by auto
      with True f1 show ?thesis by (intro exI[of _ "[]"]) auto
    next
      case False
      obtain r2 w2 where n: "provider_next env (page_cursor nxt) w1 = (r2, w2)"
        by (cases "provider_next env (page_cursor nxt) w1")
      show ?thesis
      proof (cases r2)
        case (Inl e)
        with mm False n Suc.prems show ?thesis by simp
      next
        case (Inr nxt')
        with mm False n Suc.prems
        have rec: "burst_loop fuel env iid (s + 1) nxt' w2 = Some (Inr d, w')" by auto
        from n Inr have w2:
          "w2 = w1\<lparr>fetched := fetched w1 @ [(page_cursor nxt, nxt')],
                   trace := trace w1 @ [ProviderNext (page_cursor nxt)]\<rparr>"
          by (simp add: provider_next_Inr)
        from Suc.IH[OF rec] obtain fs where
          fs: "fetched w' = fetched w2 @ fs" "d = page_done (last (nxt' # map snd fs))"
              "\<forall>p\<in>set (butlast (nxt' # map snd fs)). \<not> page_done p"
              "d \<or> signal_aborted env w'" by blast
        show ?thesis using fs w2 f1 False
          by (intro exI[of _ "(page_cursor nxt, nxt') # fs"]) auto
      qed
    qed
  qed
qed

lemma ingestOneBurst_stops:
  assumes "ingestOneBurst fuel env iid w = Some (Inr d, w')"
  shows "\<exists>fs. fetched w' = fetched w @ fs \<and> fs \<noteq> [] \<and> d = page_done (snd (last fs)) \<and>
          (\<forall>p\<in>set (butlast (map snd fs)). \<not> page_done p) \<and> (d \<or> signal_aborted env w')"
proof -
  obtain r1 w1 where g: "getLastMark env iid w = (r1, w1)" by (cases "getLastMark env iid w")
  show ?thesis
  proof (cases r1)
    case (Inl e)
    with g assms show ?thesis by (simp add: ingestOneBurst_def)
  next
    case (Inr lm)
    with g have w1: "w1 = w\<lparr>trace := trace w @ [GetLastMark iid]\<rparr>"
      using getLastMark_Inr by blast
    let ?c = "case lm of Some m \<Rightarrow> mark_cursor m | None \<Rightarrow> None"
    let ?s = "case lm of Some m \<Rightarrow> mark_sequence m + 1 | None \<Rightarrow> 0"
    obtain r2 w2 where n: "provider_next env ?c w1 = (r2, w2)"
      by (cases "provider_next env ?c w1")
    show ?thesis
    proof (cases r2)
      case (Inl e)
      with g \<open>r1 = Inr lm\<close> n assms show ?thesis by (simp add: ingestOneBurst_def Let_def)
    next
      case (Inr nxt)
      with g \<open>r1 = Inr lm\<close> n assms
      have loop: "burst_loop fuel env iid ?s nxt w2 = Some (Inr d, w')"
        by (simp add: ingestOneBurst_def Let_def)
      from n Inr have w2:
        "w2 = w1\<lparr>fetched := fetched w1 @ [(?c, nxt)], trace := trace w1 @ [ProviderNext ?c]\<rparr>"
        by (simp add: provider_next_Inr)
      from burst_loop_stops[OF loop] obtain fs where
        fs: "fetched w' = fetched w2 @ fs" "d = page_done (last (nxt # map snd fs))"
            "\<forall>p\<in>set (butlast (nxt # map snd fs)). \<not> page_done p"
            "d \<or> signal_aborted env w'" by blast
      show ?thesis using fs w2 w1
        by (intro exI[of _ "(?c, nxt) # fs"]) (auto simp: last_map)
    qed
  qed
qed





section \<open>The abort signal\<close>

lemma burst_attempt_Inr_current:
  assumes "burst_attempt fuel env iid w1 = Some (Inr u, w2)" and "current w1 = Some r"
    and "rec_id r = iid"
  shows "\<exists>r'. current w2 = Some r' \<and> (next_action r' = ''rest'' \<or> next_action r' = ''ingest'')"
proof -
  obtain r1 wb where b: "setProviderBursting env iid w1 = (r1, wb)"
    by (cases "setProviderBursting env iid w1")
  show ?thesis
  proof (cases r1)
    case (Inl e1)
    with b assms(1) show ?thesis by (simp add: burst_attempt_def)
  next
    case (Inr u1)
    with b have b': "setProviderBursting env iid w1 = (Inr u1, wb)" by simp
    have cb: "current wb = Some (r\<lparr>status := ''bursting''\<rparr>)"
      by (rule bursting_current[OF b' assms(2,3)])
    show ?thesis
    proof (cases "ingestOneBurst fuel env iid wb")
      case None
      with b' assms(1) show ?thesis by (simp add: burst_attempt_def)
    next
      case (Some a)
      obtain r2 wx where a: "a = (r2, wx)" by (cases a)
      from Some a have ob: "ingestOneBurst fuel env iid wb = Some (r2, wx)" by simp
      have cx: "current wx = Some (r\<lparr>status := ''bursting''\<rparr>)"
        using ingestOneBurst_current[OF ob] cb by simp
      show ?thesis
      proof (cases r2)
        case (Inl e2)
        with b' ob assms(1) show ?thesis by (simp add: burst_attempt_def)
      next
        case (Inr dn)
        with b' ob assms(1)
        have fin: "(if dn
                    then (case toHuman (restLength env) of
                            Inl e \<Rightarrow> (Inl e, wx)
                          | Inr _ \<Rightarrow> setProviderResting env iid (restLength env) wx)
                    else setProviderInterstitial env iid wx) = (Inr u, w2)"
          by (simp add: burst_attempt_def)
        show ?thesis
        proof (cases dn)
          case True
          with fin have "setProviderResting env iid (restLength env) wx = (Inr u, w2)"
            by (cases "toHuman (restLength env)") simp_all
          then show ?thesis using cx assms(3)
            by (auto simp: setProviderResting_def upd_current_def dest!: invoke_Inr)
        next
          case False
          with fin have "setProviderInterstitial env iid wx = (Inr u, w2)" by simp
          then show ?thesis using cx assms(3)
            by (auto simp: setProviderInterstitial_def upd_current_def dest!: invoke_Inr)
        qed
      qed
    qed
  qed
qed

lemma burst_failed_cancel_only:
  assumes "burst_failed env iid att error w2 = (res, w3)" and "current w2 = Some r2"
    and "next_action r2 = ''ingest''" and "current w3 = Some r'" and "next_action r' = ''cancel''"
  shows "\<exists>n. error = JsError n ''CANCEL''"
proof (rule ccontr)
  assume "\<not> (\<exists>n. error = JsError n ''CANCEL'')"
  then have "\<not> is_cancel error" by (simp add: is_cancel_iff)
  with assms show False
    by (auto simp: burst_failed_def setProviderBackoff_def invoke_def upd_current_def
        split: option.splits if_splits sum.splits)
qed

text \<open>
  The abort signal, in general. When the signal is found aborted after a page has been
  marked, the mark and the mutation of that page are in place and the loop returns that
  page's \<open>done\<close> flag; a burst that returns has marked and applied every page it fetched,
  at least one, returns the flag of the last of them, and has ended because that flag was
  set or the signal aborted. The next action is \<open>cancel\<close> after a tick only if the \<open>try\<close>
  block threw an object whose message is \<open>CANCEL\<close>: the signal alone never leads there.
\<close>

lemma aborted_burst_tick:
  "(mark env iid s (page_entities nxt) (page_done nxt) (page_cursor nxt) w = (Inr u, w1) \<and>
    signal_aborted env w1 \<longrightarrow>
      burst_loop (Suc fuel) env iid s nxt w = Some (Inr (page_done nxt), w1) \<and>
      marks w1 = marks w @ [new_mark iid (uuid_next w) s (page_cursor nxt)] \<and>
      (\<exists>m. mutations w1 = mutations w @ [m] \<and> delta_of env nxt m)) \<and>
   (ingestOneBurst fuel env iid wb = Some (Inr dn, w2) \<longrightarrow>
      (\<exists>fs. fs \<noteq> [] \<and> fetched w2 = fetched wb @ fs \<and>
         burst_effect env iid (start_sequence iid wb) wb (map snd fs) (map snd fs) w2 \<and>
         dn = page_done (snd (last fs)) \<and> (dn \<or> signal_aborted env w2))) \<and>
   (getCurrentAction env w0 = (Inr (Some r), wa) \<and> next_action r = ''ingest'' \<and>
    handleNextAction fuel env w0 = Some (res, w3) \<and> current w3 = Some r' \<and>
    next_action r' = ''cancel'' \<longrightarrow>
      (\<exists>n w2. burst_attempt fuel env (rec_id r) wa = Some (Inl (JsError n ''CANCEL''), w2)))"
proof (intro conjI impI)
  {
    assume a: "mark env iid s (page_entities nxt) (page_done nxt) (page_cursor nxt) w = (Inr u, w1) \<and>
      signal_aborted env w1"
    then show "burst_loop (Suc fuel) env iid s nxt w = Some (Inr (page_done nxt), w1)" by simp
    from a have m: "mark env iid s (page_entities nxt) (page_done nxt) (page_cursor nxt) w = (Inr u, w1)"
      by simp
    show "marks w1 = marks w @ [new_mark iid (uuid_next w) s (page_cursor nxt)]"
      by (rule mark_Inr(1)[OF m])
    from mark_Inr(2)[OF m] show "\<exists>m. mutations w1 = mutations w @ [m] \<and> delta_of env nxt m"
      by (auto simp: delta_of_def)
  }
  {
    assume o: "ingestOneBurst fuel env iid wb = Some (Inr dn, w2)"
    from ingestOneBurst_run[OF o] obtain fs where
      f: "fetched w2 = fetched wb @ fs"
         "burst_outcome env iid (start_sequence iid wb) wb (map snd fs) (Inr dn) w2"
      by blast
    from ingestOneBurst_stops[OF o] f(1) have st: "dn \<or> signal_aborted env w2" by auto
    from f(2) have "fs \<noteq> []" "dn = page_done (snd (last fs))"
      "burst_effect env iid (start_sequence iid wb) wb (map snd fs) (map snd fs) w2"
      by (auto simp: last_map)
    with f(1) st show "\<exists>fs. fs \<noteq> [] \<and> fetched w2 = fetched wb @ fs \<and>
         burst_effect env iid (start_sequence iid wb) wb (map snd fs) (map snd fs) w2 \<and>
         dn = page_done (snd (last fs)) \<and> (dn \<or> signal_aborted env w2)"
      by blast
  }
  {
    assume a: "getCurrentAction env w0 = (Inr (Some r), wa) \<and> next_action r = ''ingest'' \<and>
      handleNextAction fuel env w0 = Some (res, w3) \<and> current w3 = Some r' \<and>
      next_action r' = ''cancel''"
    then have g: "getCurrentAction env w0 = (Inr (Some r), wa)" and i: "next_action r = ''ingest''"
      and h: "handleNextAction fuel env w0 = Some (res, w3)" and c3: "current w3 = Some r'"
      and n: "next_action r' = ''cancel''" by simp_all
    have ca: "current wa = Some r" by (rule getCurrentAction_Some(1)[OF g])
    note hi = handle_ingest[OF g i, of fuel]
    show "\<exists>n w2. burst_attempt fuel env (rec_id r) wa = Some (Inl (JsError n ''CANCEL''), w2)"
    proof (cases "burst_attempt fuel env (rec_id r) wa")
      case None
      with hi h show ?thesis by simp
    next
      case (Some a)
      obtain r2 w2 where a2: "a = (r2, w2)" by (cases a)
      show ?thesis
      proof (cases r2)
        case (Inr v)
        with Some a2 have ba: "burst_attempt fuel env (rec_id r) wa = Some (Inr v, w2)" by simp
        with hi h have "w3 = w2" by simp
        with burst_attempt_Inr_current[OF ba ca refl] c3 n show ?thesis by auto
      next
        case (Inl e)
        with Some a2 have ba: "burst_attempt fuel env (rec_id r) wa = Some (Inl e, w2)" by simp
        with hi h have bf: "burst_failed env (rec_id r) (attempts r) e w2 = (res, w3)" by simp
        from burst_attempt_Inl_current[OF ba ca] obtain r2' where
          r2: "current w2 = Some r2'" "next_action r2' = ''ingest''" using i by auto
        from burst_failed_cancel_only[OF bf r2 c3 n] ba show ?thesis by auto
      qed
    qed
  }
qed

lemma demo_aborted_quarterly_burst:
  "map_option fst
     (ingestOneBurst (Suc 0) aborted_quarterly_env ''i1''
        (snd (setProviderBursting aborted_quarterly_env ''i1''
                (after_read aborted_quarterly_env ingest_world)))) = Some (Inr True)"
  by (simp add: setProviderBursting_def after_read_def
      ingestOneBurst_def getLastMark_def last_mark_of_def provider_next_def
      mark_def bindE_def returnE_def createMark_def createMarkEntities_def computeRemoved_def
      applyMutation_def invoke_def upd_current_def aborted_quarterly_env_def last_page_def
      quarterly_rest_env_def quiet_env_def ingest_world_def ingest_record_def
      empty_world_def Let_def)

lemma demo_aborted_quarterly_tick:
  "tick_summary (handleNextAction (Suc 0) aborted_quarterly_env ingest_world) =
     Some (Inr (),
           [SetProviderBursting ''i1'',
            SetProviderBackoff ''i1'' 7
              (JsError ''RangeError'' ''Invalid unit argument for Intl.NumberFormat() quarter'')
              10800000],
           Some \<lparr>rec_id = ''i1'', next_action = ''backoff'', attempts = 8,
                 next_action_at = 10801000, status = ''backing off'',
                 last_error =
                   Some ''RangeError: Invalid unit argument for Intl.NumberFormat() quarter''\<rparr>,
           1, 1, 1)"
  by (simp add: tick_summary_def handleNextAction_def getCurrentAction_def
      getCurrentIngestionRecord_def burst_attempt_def setProviderBursting_def
      ingestOneBurst_def getLastMark_def last_mark_of_def provider_next_def
      mark_def bindE_def returnE_def createMark_def createMarkEntities_def computeRemoved_def
      applyMutation_def invoke_def upd_current_def toHuman_def restLength_def
      burst_failed_def backoff_entry_def backoff_def default_backoff_def
      setProviderBackoff_def as_milliseconds_def unit_value_def no_units_def
      aborted_quarterly_env_def last_page_def
      quarterly_rest_env_def quiet_env_def ingest_world_def ingest_record_def
      empty_world_def Let_def)

lemma demo_aborted_hourly_tick:
  "tick_summary (handleNextAction (Suc 0) aborted_hourly_env ingest_world) =
     Some (Inr (),
           [SetProviderBursting ''i1'', SetProviderResting ''i1'' (no_units\<lparr>hours := Some 1\<rparr>)],
           Some \<lparr>rec_id = ''i1'', next_action = ''rest'', attempts = 0,
                 next_action_at = 3601000, status = ''resting'', last_error = None\<rparr>,
           1, 1, 1)"
  by (simp add: tick_summary_def handleNextAction_def getCurrentAction_def
      getCurrentIngestionRecord_def burst_attempt_def setProviderBursting_def
      ingestOneBurst_def getLastMark_def last_mark_of_def provider_next_def
      mark_def bindE_def returnE_def createMark_def createMarkEntities_def computeRemoved_def
      applyMutation_def invoke_def upd_current_def toHuman_def restLength_def
      setProviderResting_def as_milliseconds_def unit_value_def no_units_def
      aborted_hourly_env_def aborted_env_def last_page_def
      quiet_env_def ingest_world_def ingest_record_def empty_world_def Let_def)

lemma demo_aborted_tick:
  "tick_summary (handleNextAction (Suc 0) aborted_env ingest_world) =
     Some (Inr (),
           [SetProviderBursting ''i1'', SetProviderInterstitial ''i1''],
           Some \<lparr>rec_id = ''i1'', next_action = ''ingest'', attempts = 0,
                 next_action_at = 0, status = ''interstitial'', last_error = None\<rparr>,
           1, 1, 1)"
  by (simp add: tick_summary_def handleNextAction_def getCurrentAction_def
      getCurrentIngestionRecord_def burst_attempt_def setProviderBursting_def
      ingestOneBurst_def getLastMark_def last_mark_of_def provider_next_def
      mark_def bindE_def returnE_def createMark_def createMarkEntities_def computeRemoved_def
      applyMutation_def invoke_def upd_current_def
      setProviderInterstitial_def aborted_env_def two_pages_def
      quiet_env_def ingest_world_def ingest_record_def empty_world_def Let_def)

text \<open>
  Claim C10 (a defect of the code, the one of claim C6). A burst that the signal ends is
  meant to be followed by the transition to \<open>ingest\<close> or to \<open>rest\<close> according to the flag
  it returns, and never by \<open>cancel\<close>. Under a signal that is aborted from the start the
  burst of the example ingestion fetches one page, marks and applies it, and returns its
  flag. With a source of two pages the flag is \<open>false\<close> and the tick calls
  \<open>setProviderInterstitial\<close>; with a source whose first page is the last and a rest length
  of one hour the flag is \<open>true\<close> and the tick calls \<open>setProviderResting\<close>. With that source
  and a rest length of one quarter the flag is \<open>true\<close> and the tick calls
  \<open>setProviderBackoff\<close> with the \<open>RangeError\<close> of \<open>toHuman\<close>: the ingestion is left in
  \<open>backoff\<close> with 8 attempts, where it should be at \<open>rest\<close>. In none of the three is
  \<open>setProviderCanceling\<close> called.
\<close>

theorem aborted_complete_burst_backs_off:
  "map_option fst
     (ingestOneBurst (Suc 0) aborted_quarterly_env ''i1''
        (snd (setProviderBursting aborted_quarterly_env ''i1''
                (after_read aborted_quarterly_env ingest_world)))) = Some (Inr True) \<and>
   tick_summary (handleNextAction (Suc 0) aborted_quarterly_env ingest_world) =
     Some (Inr (),
           [SetProviderBursting ''i1'',
            SetProviderBackoff ''i1'' 7
              (JsError ''RangeError'' ''Invalid unit argument for Intl.NumberFormat() quarter'')
              10800000],
           Some \<lparr>rec_id = ''i1'', next_action = ''backoff'', attempts = 8,
                 next_action_at = 10801000, status = ''backing off'',
                 last_error =
                   Some ''RangeError: Invalid unit argument for Intl.NumberFormat() quarter''\<rparr>,
           1, 1, 1) \<and>
   tick_summary (handleNextAction (Suc 0) aborted_hourly_env ingest_world) =
     Some (Inr (),
           [SetProviderBursting ''i1'', SetProviderResting ''i1'' (no_units\<lparr>hours := Some 1\<rparr>)],
           Some \<lparr>rec_id = ''i1'', next_action = ''rest'', attempts = 0,
                 next_action_at = 3601000, status = ''resting'', last_error = None\<rparr>,
           1, 1, 1) \<and>
   tick_summary (handleNextAction (Suc 0) aborted_env ingest_world) =
     Some (Inr (),
           [SetProviderBursting ''i1'', SetProviderInterstitial ''i1''],
           Some \<lparr>rec_id = ''i1'', next_action = ''ingest'', attempts = 0,
                 next_action_at = 0, status = ''interstitial'', last_error = None\<rparr>,
           1, 1, 1)"
  by (intro conjI demo_aborted_quarterly_burst demo_aborted_quarterly_tick
      demo_aborted_hourly_tick demo_aborted_tick)

section \<open>A burst that fails while applying a page\<close>

lemma chained_append:
  "chained c (xs @ ys) =
     (chained c xs \<and> chained (if xs = [] then c else page_cursor (snd (last xs))) ys)"
  by (induction xs arbitrary: c) auto

lemma last_marks_for:
  "ps \<noteq> [] \<Longrightarrow>
     last (marks_for iid u s ps) =
       new_mark iid (u + (length ps - 1)) (s + int (length ps) - 1) (page_cursor (last ps))"
proof (induction ps arbitrary: u s)
  case Nil
  then show ?case by simp
next
  case (Cons p ps)
  show ?case
  proof (cases ps)
    case Nil
    then show ?thesis by simp
  next
    case (Cons q qs)
    then have "ps \<noteq> []" by simp
    from Cons.IH[OF this, of "Suc u" "s + 1"] Cons show ?thesis by (simp add: algebra_simps)
  qed
qed

lemma cursor_marks_for: "map mark_cursor (marks_for iid u s ps) = map page_cursor ps"
  by (induction ps arbitrary: u s) (simp_all add: new_mark_def)

lemma marks_for_eq_Nil [simp]: "(marks_for iid u s ps = []) = (ps = [])"
  by (cases ps) simp_all

lemma last_mark_of_alt:
  "last_mark_of iid ms =
     (if marks_of iid ms = [] then None else Some (last (marks_of iid ms)))"
  by (cases "filter (\<lambda>m. ingestion_id m = iid) ms") (simp_all add: last_mark_of_def marks_of_def)

lemma start_after_marks:
  assumes "marks w1 = marks w @ marks_for iid u s ps" and "ps \<noteq> []"
  shows "start_cursor iid w1 = page_cursor (last ps)"
    and "start_sequence iid w1 = s + int (length ps)"
proof -
  have "marks_of iid (marks w1) = marks_of iid (marks w) @ marks_for iid u s ps"
    by (simp add: assms(1))
  moreover have "marks_for iid u s ps \<noteq> []" using assms(2) by simp
  ultimately have "last_mark_of iid (marks w1) = Some (last (marks_for iid u s ps))"
    by (simp add: last_mark_of_alt)
  then have l: "last_mark_of iid (marks w1) =
      Some (new_mark iid (u + (length ps - 1)) (s + int (length ps) - 1) (page_cursor (last ps)))"
    by (simp add: last_marks_for[OF assms(2)])
  show "start_cursor iid w1 = page_cursor (last ps)"
    by (simp add: start_cursor_def l new_mark_def)
  show "start_sequence iid w1 = s + int (length ps)"
    by (simp add: start_sequence_def l new_mark_def)
qed

lemma upt_shift_split:
  "map (\<lambda>k. s + int k) [0..<n + m] =
     map (\<lambda>k. s + int k) [0..<n] @ map (\<lambda>k. s + int n + int k) [0..<m]"
  by (induction m) (simp_all add: add.assoc)

lemma mark_fails_burst:
  "mark env iid s (page_entities nxt) (page_done nxt) (page_cursor nxt) v = (Inl e, v') \<Longrightarrow>
     burst_loop (Suc k) env iid s nxt v = Some (Inl e, v')"
  by simp

text \<open>What the target store answers to \<open>applyMutation\<close> decides how \<open>mark\<close> ends, and
  with it the burst.\<close>

lemma mark_apply_outcome:
  assumes "mark env iid s ents dn c v = (r, v')" and "last (trace v') = ApplyMutation m'"
  shows "call_fails env (before_apply v' (\<not> isl r)) (ApplyMutation m') =
           (case r of Inl e \<Rightarrow> Some e | Inr u \<Rightarrow> None)"
    and "marks v' = marks v @ [new_mark iid (uuid_next v) s c]"
    and "mutations v' = (if isl r then mutations v else mutations v @ [m'])"
  using assms
  by (auto simp: mark_def bindE_def returnE_def createMark_def createMarkEntities_def
      computeRemoved_def applyMutation_def invoke_def before_apply_def new_mark_def Let_def
      butlast_append
      split: if_splits option.splits sum.splits prod.splits)

lemma mark_apply_fails:
  assumes "\<forall>x mm. marks x = marks v @ [new_mark iid (uuid_next v) s c] \<and>
             mutations x = mutations v \<longrightarrow> call_fails env x (ApplyMutation mm) = Some e'"
    and "mark env iid s ents dn c v = (r, v')"
  shows "isl r" and "mutations v' = mutations v"
    and "last (trace v') = ApplyMutation m' \<Longrightarrow> r = Inl e'"
  using assms
  by (auto simp: mark_def bindE_def returnE_def createMark_def createMarkEntities_def
      computeRemoved_def applyMutation_def invoke_def new_mark_def Let_def
      split: if_splits option.splits sum.splits prod.splits)

lemma burst_loop_apply_outcome:
  "burst_loop f env iid s nxt v = Some (r, w1) \<Longrightarrow> last (trace w1) = ApplyMutation m \<Longrightarrow>
     call_fails env (before_apply w1 (\<not> isl r)) (ApplyMutation m) =
       (case r of Inl e \<Rightarrow> Some e | Inr d \<Rightarrow> None)"
proof (induction f arbitrary: s nxt v)
  case 0
  then show ?case by simp
next
  case (Suc f)
  obtain rm v1 where mk:
    "mark env iid s (page_entities nxt) (page_done nxt) (page_cursor nxt) v = (rm, v1)"
    by (cases "mark env iid s (page_entities nxt) (page_done nxt) (page_cursor nxt) v")
  show ?case
  proof (cases rm)
    case (Inl e)
    with mk Suc.prems(1) have "r = Inl e" "w1 = v1" by simp_all
    with mark_apply_outcome(1)[OF mk] Suc.prems(2) Inl show ?thesis by simp
  next
    case (Inr u)
    show ?thesis
    proof (cases "signal_aborted env v1 \<or> page_done nxt")
      case True
      with mk Inr Suc.prems(1) have "r = Inr (page_done nxt)" "w1 = v1" by auto
      with mark_apply_outcome(1)[OF mk] Suc.prems(2) Inr show ?thesis by simp
    next
      case False
      obtain rn v2 where nx: "provider_next env (page_cursor nxt) v1 = (rn, v2)"
        by (cases "provider_next env (page_cursor nxt) v1")
      show ?thesis
      proof (cases rn)
        case (Inl e)
        with mk \<open>rm = Inr u\<close> False nx Suc.prems(1) have "w1 = v2" by auto
        moreover from nx Inl have "last (trace v2) = ProviderNext (page_cursor nxt)"
          by (auto simp: provider_next_def split: sum.splits)
        ultimately show ?thesis using Suc.prems(2) by simp
      next
        case (Inr nxt')
        with mk \<open>rm = Inr u\<close> False nx Suc.prems(1)
        have "burst_loop f env iid (s + 1) nxt' v2 = Some (r, w1)" by auto
        from Suc.IH[OF this Suc.prems(2)] show ?thesis .
      qed
    qed
  qed
qed

lemma ingestOneBurst_apply_outcome:
  assumes "ingestOneBurst f env iid w = Some (r, w1)" and "last (trace w1) = ApplyMutation m"
  shows "call_fails env (before_apply w1 (\<not> isl r)) (ApplyMutation m) =
           (case r of Inl e \<Rightarrow> Some e | Inr d \<Rightarrow> None)"
proof -
  obtain rl wl where gl: "getLastMark env iid w = (rl, wl)" by (cases "getLastMark env iid w")
  show ?thesis
  proof (cases rl)
    case (Inl e)
    with gl assms(1) have "w1 = wl" by (simp add: ingestOneBurst_def)
    moreover from gl Inl have "last (trace wl) = GetLastMark iid"
      by (auto simp: getLastMark_def split: option.splits)
    ultimately show ?thesis using assms(2) by simp
  next
    case (Inr lm)
    let ?c = "case lm of Some m \<Rightarrow> mark_cursor m | None \<Rightarrow> None"
    let ?s = "case lm of Some m \<Rightarrow> mark_sequence m + 1 | None \<Rightarrow> 0"
    obtain rn v2 where nx: "provider_next env ?c wl = (rn, v2)"
      by (cases "provider_next env ?c wl")
    show ?thesis
    proof (cases rn)
      case (Inl e)
      with gl \<open>rl = Inr lm\<close> nx assms(1) have "w1 = v2" by (simp add: ingestOneBurst_def)
      moreover from nx Inl have "last (trace v2) = ProviderNext ?c"
        by (auto simp: provider_next_def split: sum.splits)
      ultimately show ?thesis using assms(2) by simp
    next
      case (Inr nxt)
      with gl \<open>rl = Inr lm\<close> nx assms(1)
      have "burst_loop f env iid ?s nxt v2 = Some (r, w1)" by (simp add: ingestOneBurst_def)
      from burst_loop_apply_outcome[OF this assms(2)] show ?thesis .
    qed
  qed
qed

text \<open>The lifecycle calls of a tick leave the progress as it is.\<close>

lemma same_progress_refl [simp]: "same_progress w w"
  by (simp add: same_progress_def)

lemma same_progress_trans:
  "same_progress w v \<Longrightarrow> same_progress v u \<Longrightarrow> same_progress w u"
  by (simp add: same_progress_def)

lemma same_progress_start:
  "same_progress w v \<Longrightarrow>
     start_cursor iid v = start_cursor iid w \<and> start_sequence iid v = start_sequence iid w"
  by (simp add: same_progress_def start_cursor_def start_sequence_def)

lemma getCurrentAction_progress:
  "getCurrentAction env w = (r, w1) \<Longrightarrow> same_progress w w1"
  by (auto simp: getCurrentAction_def bindE_def returnE_def getCurrentIngestionRecord_def
      createProviderIngestionRecord_def same_progress_def
      split: option.splits sum.splits prod.splits)

lemma setProviderBursting_progress:
  "setProviderBursting env iid w = (r, w1) \<Longrightarrow> same_progress w w1"
  by (auto simp: setProviderBursting_def invoke_def upd_current_def same_progress_def
      split: option.splits if_splits)

lemma setProviderIngesting_progress:
  "setProviderIngesting env iid w = (r, w1) \<Longrightarrow> same_progress w w1"
  by (auto simp: setProviderIngesting_def invoke_def upd_current_def same_progress_def
      split: option.splits if_splits)

lemma setProviderCanceled_progress:
  "setProviderCanceled env iid w = (r, w1) \<Longrightarrow> same_progress w w1"
  by (auto simp: setProviderCanceled_def invoke_def retire_current_def same_progress_def
      split: option.splits if_splits)

lemma burst_failed_progress:
  "burst_failed env iid a e w = (r, w1) \<Longrightarrow> same_progress w w1"
  by (auto simp: burst_failed_def setProviderCanceling_def setProviderBackoff_def invoke_def
      upd_current_def same_progress_def split: option.splits if_splits sum.splits)

lemma two_bursts:
  assumes b1: "ingestOneBurst f1 env iid w = Some (Inl e, w1)"
    and ap: "last (trace w1) = ApplyMutation m"
    and sp: "same_progress w1 w1'"
    and b2: "ingestOneBurst f2 env iid w1' = Some (Inr d, w2)"
  shows "\<exists>fs1 fs2 ms1 ms2.
      fetched w1 = fetched w @ fs1 \<and> fs1 \<noteq> [] \<and> fetched w2 = fetched w1 @ fs2 \<and> fs2 \<noteq> [] \<and>
      chained (start_cursor iid w) (fs1 @ fs2) \<and>
      start_cursor iid w1' = page_cursor (snd (last fs1)) \<and>
      start_sequence iid w1' = start_sequence iid w + int (length fs1) \<and>
      mutations w1 = mutations w @ ms1 \<and>
      list_all2 (delta_of env) (butlast (map snd fs1)) ms1 \<and>
      mutations w2 = mutations w1 @ ms2 \<and> list_all2 (delta_of env) (map snd fs2) ms2 \<and>
      map mark_sequence (drop (length (marks w)) (marks w2)) =
        map (\<lambda>k. start_sequence iid w + int k) [0..<length fs1 + length fs2] \<and>
      map mark_cursor (drop (length (marks w)) (marks w2)) = map (page_cursor \<circ> snd) (fs1 @ fs2)"
proof -
  let ?s0 = "start_sequence iid w"
  have eqs: "marks w1' = marks w1" "mutations w1' = mutations w1" "fetched w1' = fetched w1"
    using sp by (simp_all add: same_progress_def)
  from ingestOneBurst_run[OF b1] obtain fs1 where
    f1: "fetched w1 = fetched w @ fs1" "chained (start_cursor iid w) fs1"
        "burst_outcome env iid ?s0 w (map snd fs1) (Inl e) w1" by blast
  from f1(3) ap have ne1: "map snd fs1 \<noteq> []"
    and e1: "burst_effect env iid ?s0 w (map snd fs1) (butlast (map snd fs1)) w1" by simp_all
  from e1 obtain ms1 where
    m1: "marks w1 = marks w @ marks_for iid (uuid_next w) ?s0 (map snd fs1)"
        "mutations w1 = mutations w @ ms1"
        "list_all2 (delta_of env) (butlast (map snd fs1)) ms1"
    by (auto simp: burst_effect_def)
  have m1': "marks w1' = marks w @ marks_for iid (uuid_next w) ?s0 (map snd fs1)"
    using m1(1) eqs(1) by simp
  have sc: "start_cursor iid w1' = page_cursor (last (map snd fs1))"
    and ss: "start_sequence iid w1' = ?s0 + int (length (map snd fs1))"
    using start_after_marks[OF m1' ne1] by simp_all
  from ingestOneBurst_run[OF b2] obtain fs2 where
    f2: "fetched w2 = fetched w1' @ fs2" "chained (start_cursor iid w1') fs2"
        "burst_outcome env iid (start_sequence iid w1') w1' (map snd fs2) (Inr d) w2" by blast
  from f2(3) have ne2: "map snd fs2 \<noteq> []"
    and e2: "burst_effect env iid (start_sequence iid w1') w1' (map snd fs2) (map snd fs2) w2"
    by simp_all
  from e2 obtain ms2 where
    m2: "marks w2 = marks w1' @ marks_for iid (uuid_next w1') (start_sequence iid w1') (map snd fs2)"
        "mutations w2 = mutations w1' @ ms2"
        "list_all2 (delta_of env) (map snd fs2) ms2"
    by (auto simp: burst_effect_def)
  have n1: "fs1 \<noteq> []" and n2: "fs2 \<noteq> []" using ne1 ne2 by simp_all
  have sc': "start_cursor iid w1' = page_cursor (snd (last fs1))"
    using sc n1 by (simp add: last_map)
  have ch: "chained (start_cursor iid w) (fs1 @ fs2)"
    using f1(2) f2(2) n1 sc' by (simp add: chained_append)
  have dr: "drop (length (marks w)) (marks w2) =
      marks_for iid (uuid_next w) ?s0 (map snd fs1) @
      marks_for iid (uuid_next w1') (?s0 + int (length fs1)) (map snd fs2)"
    using m1' m2(1) ss by simp
  have sq: "map mark_sequence (drop (length (marks w)) (marks w2)) =
        map (\<lambda>k. ?s0 + int k) [0..<length fs1 + length fs2]"
    unfolding dr by (simp add: sequence_marks_for upt_shift_split)
  have cu: "map mark_cursor (drop (length (marks w)) (marks w2)) =
        map (page_cursor \<circ> snd) (fs1 @ fs2)"
    unfolding dr by (simp add: cursor_marks_for)
  have f2': "fetched w2 = fetched w1 @ fs2" using f2(1) eqs(3) by simp
  have m2': "mutations w2 = mutations w1 @ ms2" using m2(2) eqs(2) by simp
  from f1(1) n1 f2' n2 ch sc' ss m1(2,3) m2' m2(3) sq cu show ?thesis
    by (intro exI[of _ fs1] exI[of _ fs2] exI[of _ ms1] exI[of _ ms2]) simp
qed

text \<open>The tick whose burst threw in \<open>applyMutation\<close>, and a later tick whose burst returns.\<close>

lemma failed_tick_resumes:
  assumes g1: "getCurrentAction env w0 = (Inr (Some r), wa)" and i1: "next_action r = ''ingest''"
    and s1: "setProviderBursting env (rec_id r) wa = (Inr u, wb)"
    and b1: "ingestOneBurst f1 env (rec_id r) wb = Some (Inl e, w1)"
    and ap: "last (trace w1) = ApplyMutation m"
    and sp: "same_progress w1 wB"
    and g3: "getCurrentAction env wB = (Inr (Some r3), wa3)"
    and s3: "setProviderBursting env (rec_id r) wa3 = (Inr u3, wb3)"
    and b3: "ingestOneBurst f2 env (rec_id r) wb3 = Some (Inr d, w2)"
  shows "handleNextAction f1 env w0 = Some (burst_failed env (rec_id r) (attempts r) e w1)"
    and "same_progress w1 (snd (burst_failed env (rec_id r) (attempts r) e w1))"
    and "same_progress w0 wb" and "same_progress wB wb3"
    and "\<exists>fs1 fs2 ms1 ms2.
      fetched w1 = fetched w0 @ fs1 \<and> fs1 \<noteq> [] \<and> fetched w2 = fetched w1 @ fs2 \<and> fs2 \<noteq> [] \<and>
      chained (start_cursor (rec_id r) w0) (fs1 @ fs2) \<and>
      start_cursor (rec_id r) wb3 = page_cursor (snd (last fs1)) \<and>
      start_sequence (rec_id r) wb3 = start_sequence (rec_id r) w0 + int (length fs1) \<and>
      mutations w1 = mutations w0 @ ms1 \<and>
      list_all2 (delta_of env) (butlast (map snd fs1)) ms1 \<and>
      mutations w2 = mutations w1 @ ms2 \<and> list_all2 (delta_of env) (map snd fs2) ms2 \<and>
      map mark_sequence (drop (length (marks w0)) (marks w2)) =
        map (\<lambda>k. start_sequence (rec_id r) w0 + int k) [0..<length fs1 + length fs2] \<and>
      map mark_cursor (drop (length (marks w0)) (marks w2)) =
        map (page_cursor \<circ> snd) (fs1 @ fs2)"
proof -
  have ba: "burst_attempt f1 env (rec_id r) wa = Some (Inl e, w1)"
    using s1 b1 by (simp add: burst_attempt_def)
  show "handleNextAction f1 env w0 = Some (burst_failed env (rec_id r) (attempts r) e w1)"
    using handle_ingest[OF g1 i1, of f1] ba by simp
  show "same_progress w1 (snd (burst_failed env (rec_id r) (attempts r) e w1))"
    by (rule burst_failed_progress[of env "rec_id r" "attempts r" e w1
          "fst (burst_failed env (rec_id r) (attempts r) e w1)"]) simp
  show p0: "same_progress w0 wb"
    by (rule same_progress_trans[OF getCurrentAction_progress[OF g1]
          setProviderBursting_progress[OF s1]])
  show p3: "same_progress wB wb3"
    by (rule same_progress_trans[OF getCurrentAction_progress[OF g3]
          setProviderBursting_progress[OF s3]])
  have sp': "same_progress w1 wb3" by (rule same_progress_trans[OF sp p3])
  from p0 have e0: "marks wb = marks w0" "mutations wb = mutations w0" "fetched wb = fetched w0"
    by (simp_all add: same_progress_def)
  note st = same_progress_start[OF p0, of "rec_id r"]
  from two_bursts[OF b1 ap sp' b3]
  show "\<exists>fs1 fs2 ms1 ms2.
      fetched w1 = fetched w0 @ fs1 \<and> fs1 \<noteq> [] \<and> fetched w2 = fetched w1 @ fs2 \<and> fs2 \<noteq> [] \<and>
      chained (start_cursor (rec_id r) w0) (fs1 @ fs2) \<and>
      start_cursor (rec_id r) wb3 = page_cursor (snd (last fs1)) \<and>
      start_sequence (rec_id r) wb3 = start_sequence (rec_id r) w0 + int (length fs1) \<and>
      mutations w1 = mutations w0 @ ms1 \<and>
      list_all2 (delta_of env) (butlast (map snd fs1)) ms1 \<and>
      mutations w2 = mutations w1 @ ms2 \<and> list_all2 (delta_of env) (map snd fs2) ms2 \<and>
      map mark_sequence (drop (length (marks w0)) (marks w2)) =
        map (\<lambda>k. start_sequence (rec_id r) w0 + int k) [0..<length fs1 + length fs2] \<and>
      map mark_cursor (drop (length (marks w0)) (marks w2)) =
        map (page_cursor \<circ> snd) (fs1 @ fs2)"
    unfolding e0 st[THEN conjunct1] st[THEN conjunct2] .
qed

text \<open>A tick in \<open>backoff\<close> or \<open>cancel\<close> leaves the progress as it is.\<close>

lemma idle_tick_progress:
  assumes "getCurrentAction env w = (Inr (Some r), wa)"
    and "next_action r \<noteq> ''rest''" and "next_action r \<noteq> ''ingest''"
    and "handleNextAction fuel env w = Some (res, w')"
  shows "same_progress w w'"
proof -
  have p: "same_progress w wa" by (rule getCurrentAction_progress[OF assms(1)])
  have "same_progress wa w'"
    using assms
    by (auto simp: handleNextAction_def Let_def
        dest: setProviderIngesting_progress setProviderCanceled_progress split: if_splits)
  with p show ?thesis by (rule same_progress_trans)
qed

lemmas tick_defs =
  handleNextAction_def getCurrentAction_def getCurrentIngestionRecord_def burst_attempt_def
  setProviderBursting_def ingestOneBurst_def getLastMark_def last_mark_of_def
  provider_next_def mark_def bindE_def returnE_def createMark_def createMarkEntities_def
  computeRemoved_def applyMutation_def invoke_def upd_current_def toHuman_def restLength_def
  burst_failed_def backoff_entry_def backoff_def default_backoff_def setProviderBackoff_def
  setProviderResting_def setProviderInterstitial_def setProviderIngesting_def
  as_milliseconds_def unit_value_def no_units_def after_read_def Let_def

lemmas flaky_defs =
  flaky_env_def quiet_env_def three_pages_def ingest_world_def ingest_record_def
  empty_world_def

text \<open>
  Claim C2. What the target store answers to \<open>applyMutation\<close> decides how \<open>mark\<close> ends: a
  store that fails the call makes \<open>mark\<close> throw the store's error, with the page's mark
  persisted and nothing applied, and a \<open>mark\<close> that throws ends the burst with that error;
  so a burst that ends in an \<open>applyMutation\<close> call throws exactly when the store failed that
  call. The tick of such a burst goes to the \<open>catch\<close> block, which leaves marks, mutations
  and pages as the burst left them, and so do the ticks that wait in \<open>backoff\<close>. When a
  later tick of the same ingestion bursts from a world with that progress and its burst
  returns: it starts with the cursor of the page that was in flight and the sequence number
  after it; the pages of the two bursts form one chain of cursors from where the first burst
  started, each with one mark, numbered without a gap; and the mutations applied are those
  of all these pages but the page in flight, one each and in order. So no page other than
  the one in flight is lost, and none is applied twice.
\<close>

theorem failed_mutation_resumes_after_mark:
  "((\<forall>x mm. marks x = marks v @ [new_mark iid (uuid_next v) s c] \<and> mutations x = mutations v
        \<longrightarrow> call_fails env x (ApplyMutation mm) = Some e') \<and>
    mark env iid s ents dn c v = (rm, v') \<longrightarrow>
      isl rm \<and> mutations v' = mutations v \<and>
      (last (trace v') = ApplyMutation m' \<longrightarrow>
         rm = Inl e' \<and> marks v' = marks v @ [new_mark iid (uuid_next v) s c])) \<and>
   (mark env iid s ents dn c v = (rm, v') \<and> last (trace v') = ApplyMutation m' \<longrightarrow>
      call_fails env (before_apply v' (\<not> isl rm)) (ApplyMutation m') =
        (case rm of Inl e \<Rightarrow> Some e | Inr u \<Rightarrow> None)) \<and>
   (mark env iid s (page_entities nxt) (page_done nxt) (page_cursor nxt) v = (Inl e', v') \<longrightarrow>
      burst_loop (Suc k) env iid s nxt v = Some (Inl e', v')) \<and>
   (ingestOneBurst f env iid w = Some (rb, w1) \<and> last (trace w1) = ApplyMutation m \<longrightarrow>
      call_fails env (before_apply w1 (\<not> isl rb)) (ApplyMutation m) =
        (case rb of Inl e \<Rightarrow> Some e | Inr d \<Rightarrow> None)) \<and>
   (getCurrentAction env w0 = (Inr (Some r), wa) \<and> next_action r = ''ingest'' \<and>
    setProviderBursting env (rec_id r) wa = (Inr u, wb) \<and>
    ingestOneBurst f1 env (rec_id r) wb = Some (Inl e, w1) \<and>
    last (trace w1) = ApplyMutation m \<and>
    same_progress w1 wB \<and>
    getCurrentAction env wB = (Inr (Some r3), wa3) \<and> rec_id r3 = rec_id r \<and>
    next_action r3 = ''ingest'' \<and>
    setProviderBursting env (rec_id r3) wa3 = (Inr u3, wb3) \<and>
    ingestOneBurst f2 env (rec_id r3) wb3 = Some (Inr d, w2) \<longrightarrow>
      handleNextAction f1 env w0 = Some (burst_failed env (rec_id r) (attempts r) e w1) \<and>
      same_progress w1 (snd (burst_failed env (rec_id r) (attempts r) e w1)) \<and>
      same_progress w0 wb \<and> same_progress wB wb3 \<and>
      (\<exists>fs1 fs2 ms1 ms2.
         fetched w1 = fetched w0 @ fs1 \<and> fs1 \<noteq> [] \<and>
         fetched w2 = fetched w1 @ fs2 \<and> fs2 \<noteq> [] \<and>
         chained (start_cursor (rec_id r) w0) (fs1 @ fs2) \<and>
         start_cursor (rec_id r) wb3 = page_cursor (snd (last fs1)) \<and>
         start_sequence (rec_id r) wb3 = start_sequence (rec_id r) w0 + int (length fs1) \<and>
         mutations w1 = mutations w0 @ ms1 \<and>
         list_all2 (delta_of env) (butlast (map snd fs1)) ms1 \<and>
         mutations w2 = mutations w1 @ ms2 \<and> list_all2 (delta_of env) (map snd fs2) ms2 \<and>
         map mark_sequence (drop (length (marks w0)) (marks w2)) =
           map (\<lambda>k. start_sequence (rec_id r) w0 + int k) [0..<length fs1 + length fs2] \<and>
         map mark_cursor (drop (length (marks w0)) (marks w2)) =
           map (page_cursor \<circ> snd) (fs1 @ fs2))) \<and>
   (getCurrentAction env w0 = (Inr (Some r), wa) \<and> next_action r \<noteq> ''rest'' \<and>
    next_action r \<noteq> ''ingest'' \<and> handleNextAction f env w0 = Some (res, w') \<longrightarrow>
      same_progress w0 w')"
proof (intro conjI impI)
  {
    assume a: "(\<forall>x mm. marks x = marks v @ [new_mark iid (uuid_next v) s c] \<and>
          mutations x = mutations v \<longrightarrow> call_fails env x (ApplyMutation mm) = Some e') \<and>
      mark env iid s ents dn c v = (rm, v')"
    then have h: "\<forall>x mm. marks x = marks v @ [new_mark iid (uuid_next v) s c] \<and>
          mutations x = mutations v \<longrightarrow> call_fails env x (ApplyMutation mm) = Some e'"
      and mk: "mark env iid s ents dn c v = (rm, v')" by simp_all
    show "isl rm" by (rule mark_apply_fails(1)[OF h mk])
    show "mutations v' = mutations v" by (rule mark_apply_fails(2)[OF h mk])
    {
      assume l: "last (trace v') = ApplyMutation m'"
      show "rm = Inl e'" by (rule mark_apply_fails(3)[OF h mk l])
      show "marks v' = marks v @ [new_mark iid (uuid_next v) s c]"
        by (rule mark_apply_outcome(2)[OF mk l])
    }
  }
  {
    assume "mark env iid s ents dn c v = (rm, v') \<and> last (trace v') = ApplyMutation m'"
    then show "call_fails env (before_apply v' (\<not> isl rm)) (ApplyMutation m') =
        (case rm of Inl e \<Rightarrow> Some e | Inr u \<Rightarrow> None)"
      using mark_apply_outcome(1) by blast
  }
  {
    assume "mark env iid s (page_entities nxt) (page_done nxt) (page_cursor nxt) v = (Inl e', v')"
    then show "burst_loop (Suc k) env iid s nxt v = Some (Inl e', v')"
      by (rule mark_fails_burst)
  }
  {
    assume "ingestOneBurst f env iid w = Some (rb, w1) \<and> last (trace w1) = ApplyMutation m"
    then show "call_fails env (before_apply w1 (\<not> isl rb)) (ApplyMutation m) =
        (case rb of Inl e \<Rightarrow> Some e | Inr d \<Rightarrow> None)"
      using ingestOneBurst_apply_outcome by blast
  }
  {
    assume a: "getCurrentAction env w0 = (Inr (Some r), wa) \<and> next_action r = ''ingest'' \<and>
      setProviderBursting env (rec_id r) wa = (Inr u, wb) \<and>
      ingestOneBurst f1 env (rec_id r) wb = Some (Inl e, w1) \<and>
      last (trace w1) = ApplyMutation m \<and>
      same_progress w1 wB \<and>
      getCurrentAction env wB = (Inr (Some r3), wa3) \<and> rec_id r3 = rec_id r \<and>
      next_action r3 = ''ingest'' \<and>
      setProviderBursting env (rec_id r3) wa3 = (Inr u3, wb3) \<and>
      ingestOneBurst f2 env (rec_id r3) wb3 = Some (Inr d, w2)"
    then have g1: "getCurrentAction env w0 = (Inr (Some r), wa)"
      and i1: "next_action r = ''ingest''"
      and s1: "setProviderBursting env (rec_id r) wa = (Inr u, wb)"
      and b1: "ingestOneBurst f1 env (rec_id r) wb = Some (Inl e, w1)"
      and ap: "last (trace w1) = ApplyMutation m"
      and sp: "same_progress w1 wB"
      and g3: "getCurrentAction env wB = (Inr (Some r3), wa3)"
      and id3: "rec_id r3 = rec_id r" by simp_all
    from a id3 have s3: "setProviderBursting env (rec_id r) wa3 = (Inr u3, wb3)"
      and b3: "ingestOneBurst f2 env (rec_id r) wb3 = Some (Inr d, w2)" by simp_all
    note th = failed_tick_resumes[OF g1 i1 s1 b1 ap sp g3 s3 b3]
    show "handleNextAction f1 env w0 = Some (burst_failed env (rec_id r) (attempts r) e w1)"
      by (rule th(1))
    show "same_progress w1 (snd (burst_failed env (rec_id r) (attempts r) e w1))"
      by (rule th(2))
    show "same_progress w0 wb" by (rule th(3))
    show "same_progress wB wb3" by (rule th(4))
    show "\<exists>fs1 fs2 ms1 ms2.
         fetched w1 = fetched w0 @ fs1 \<and> fs1 \<noteq> [] \<and>
         fetched w2 = fetched w1 @ fs2 \<and> fs2 \<noteq> [] \<and>
         chained (start_cursor (rec_id r) w0) (fs1 @ fs2) \<and>
         start_cursor (rec_id r) wb3 = page_cursor (snd (last fs1)) \<and>
         start_sequence (rec_id r) wb3 = start_sequence (rec_id r) w0 + int (length fs1) \<and>
         mutations w1 = mutations w0 @ ms1 \<and>
         list_all2 (delta_of env) (butlast (map snd fs1)) ms1 \<and>
         mutations w2 = mutations w1 @ ms2 \<and> list_all2 (delta_of env) (map snd fs2) ms2 \<and>
         map mark_sequence (drop (length (marks w0)) (marks w2)) =
           map (\<lambda>k. start_sequence (rec_id r) w0 + int k) [0..<length fs1 + length fs2] \<and>
         map mark_cursor (drop (length (marks w0)) (marks w2)) =
           map (page_cursor \<circ> snd) (fs1 @ fs2)"
      by (rule th(5))
  }
  {
    assume a: "getCurrentAction env w0 = (Inr (Some r), wa) \<and> next_action r \<noteq> ''rest'' \<and>
      next_action r \<noteq> ''ingest'' \<and> handleNextAction f env w0 = Some (res, w')"
    then show "same_progress w0 w'"
      using idle_tick_progress[of env w0 r wa f res w'] by simp
  }
qed

text \<open>
  The example ingestion under the flaky target store, tick by tick. The first tick fetches
  two pages and fails when it applies the second; it ends in \<open>backoff\<close>. The second tick
  finds the backoff elapsed and sets the ingestion to \<open>ingest\<close>. The burst of the third tick
  fetches the third page and returns.
\<close>

lemma flaky_ticks:
  "handleNextAction 3 flaky_env ingest_world = Some (Inr (), flaky_after1)"
  "handleNextAction 3 flaky_env flaky_after1 = Some (Inr (), flaky_after2)"
  "current flaky_after2 =
     Some \<lparr>rec_id = ''i1'', next_action = ''ingest'', attempts = 8,
           next_action_at = 250801000, status = ''bursting'',
           last_error = Some ''Error: target store down''\<rparr>"
  by (simp_all add: flaky_after1_def flaky_after2_def eval_nat_numeral tick_defs flaky_defs)

theorem failed_mutation_resumes_after_mark_witness:
  "fst (mark flaky_env ''i1'' 1 [] False (Some 2) half_done_world) =
     Inl (JsError ''Error'' ''target store down'') \<and>
   mutations (snd (mark flaky_env ''i1'' 1 [] False (Some 2) half_done_world)) =
     mutations half_done_world \<and>
   marks (snd (mark flaky_env ''i1'' 1 [] False (Some 2) half_done_world)) =
     marks half_done_world @ [new_mark ''i1'' 1 1 (Some 2)] \<and>
   (\<exists>w1 m w2.
     ingestOneBurst 3 flaky_env ''i1''
       (snd (setProviderBursting flaky_env ''i1'' (after_read flaky_env ingest_world))) =
       Some (Inl (JsError ''Error'' ''target store down''), w1) \<and>
     last (trace w1) = ApplyMutation m \<and>
     call_fails flaky_env (before_apply w1 False) (ApplyMutation m) =
       Some (JsError ''Error'' ''target store down'') \<and>
     handleNextAction 3 flaky_env ingest_world = Some (Inr (), flaky_after1) \<and>
     handleNextAction 3 flaky_env flaky_after1 = Some (Inr (), flaky_after2) \<and>
     same_progress w1 flaky_after2 \<and>
     ingestOneBurst 1 flaky_env ''i1''
       (snd (setProviderBursting flaky_env ''i1'' (after_read flaky_env flaky_after2))) =
       Some (Inr True, w2) \<and>
     length (fetched w2) = 3 \<and> length (mutations w2) = 2 \<and>
     map mark_sequence (marks w2) = [0, 1, 2] \<and>
     map mark_cursor (marks w2) = map (page_cursor \<circ> snd) (fetched w2))"
proof -
  let ?e = "JsError ''Error'' ''target store down''"
  let ?m = "\<lparr>mut_type = ''delta'', mut_added = [], mut_removed = []\<rparr>"
  let ?r3 = "\<lparr>rec_id = ''i1'', next_action = ''ingest'', attempts = 8,
              next_action_at = 250801000, status = ''bursting'',
              last_error = Some ''Error: target store down''\<rparr>"
  define wa where "wa = after_read flaky_env ingest_world"
  define wb where "wb = snd (setProviderBursting flaky_env ''i1'' wa)"
  define w1 where "w1 = snd (the (ingestOneBurst 3 flaky_env ''i1'' wb))"
  define wa3 where "wa3 = after_read flaky_env flaky_after2"
  define wb3 where "wb3 = snd (setProviderBursting flaky_env ''i1'' wa3)"
  define w2 where "w2 = snd (the (ingestOneBurst 1 flaky_env ''i1'' wb3))"
  have nf: "call_fails flaky_env x (GetCurrentIngestionRecord n) = None"
    "call_fails flaky_env x (SetProviderBursting n) = None" for x n
    by (simp_all add: flaky_env_def)
  have pn: "providerName flaky_env = ''github''" by (simp add: flaky_defs)
  have g1: "getCurrentAction flaky_env ingest_world = (Inr (Some ingest_record), wa)"
    unfolding wa_def after_read_def
    by (rule getCurrentAction_found) (simp_all add: nf ingest_world_def)
  have i1: "next_action ingest_record = ''ingest''" and id1: "rec_id ingest_record = ''i1''"
    by (simp_all add: ingest_record_def)
  have s1: "setProviderBursting flaky_env ''i1'' wa = (Inr (), wb)"
    unfolding wb_def by (simp add: setProviderBursting_def invoke_def nf)
  have b1: "ingestOneBurst 3 flaky_env ''i1'' wb = Some (Inl ?e, w1)"
    and ap: "last (trace w1) = ApplyMutation ?m"
    and f1: "length (fetched w1) = 2"
    unfolding w1_def wb_def wa_def
    by (simp_all add: eval_nat_numeral tick_defs flaky_defs)
  have sp: "same_progress w1 flaky_after2"
    unfolding w1_def wb_def wa_def same_progress_def flaky_after2_def flaky_after1_def
    by (simp add: eval_nat_numeral tick_defs flaky_defs)
  have g3: "getCurrentAction flaky_env flaky_after2 = (Inr (Some ?r3), wa3)"
    unfolding wa3_def after_read_def
    by (rule getCurrentAction_found) (simp_all add: nf flaky_ticks(3))
  have s3: "setProviderBursting flaky_env ''i1'' wa3 = (Inr (), wb3)"
    unfolding wb3_def by (simp add: setProviderBursting_def invoke_def nf)
  have b3: "ingestOneBurst 1 flaky_env ''i1'' wb3 = Some (Inr True, w2)"
    and f2: "length (fetched w2) = 3" and m2: "length (mutations w2) = 2"
    unfolding w2_def wb3_def wa3_def flaky_after2_def flaky_after1_def
    by (simp_all add: eval_nat_numeral tick_defs flaky_defs)
  have hyp: "getCurrentAction flaky_env ingest_world = (Inr (Some ingest_record), wa) \<and>
      next_action ingest_record = ''ingest'' \<and>
      setProviderBursting flaky_env (rec_id ingest_record) wa = (Inr (), wb) \<and>
      ingestOneBurst 3 flaky_env (rec_id ingest_record) wb = Some (Inl ?e, w1) \<and>
      last (trace w1) = ApplyMutation ?m \<and>
      same_progress w1 flaky_after2 \<and>
      getCurrentAction flaky_env flaky_after2 = (Inr (Some ?r3), wa3) \<and>
      rec_id ?r3 = rec_id ingest_record \<and> next_action ?r3 = ''ingest'' \<and>
      setProviderBursting flaky_env (rec_id ?r3) wa3 = (Inr (), wb3) \<and>
      ingestOneBurst 1 flaky_env (rec_id ?r3) wb3 = Some (Inr True, w2)"
    using g1 i1 s1 b1 ap sp g3 s3 b3 by (simp add: id1)
  note th = failed_mutation_resumes_after_mark
  from th[THEN conjunct2, THEN conjunct2, THEN conjunct2, THEN conjunct2, THEN conjunct1,
      THEN mp, OF hyp]
  obtain fs1 fs2 where
    t: "fetched w1 = fetched ingest_world @ fs1" "fetched w2 = fetched w1 @ fs2"
       "map mark_sequence (drop (length (marks ingest_world)) (marks w2)) =
          map (\<lambda>k. start_sequence (rec_id ingest_record) ingest_world + int k)
            [0..<length fs1 + length fs2]"
       "map mark_cursor (drop (length (marks ingest_world)) (marks w2)) =
          map (page_cursor \<circ> snd) (fs1 @ fs2)"
    by (elim exE conjE)
  have hyp4: "ingestOneBurst 3 flaky_env ''i1'' wb = Some (Inl ?e, w1) \<and>
      last (trace w1) = ApplyMutation ?m"
    using b1 ap by simp
  from th[THEN conjunct2, THEN conjunct2, THEN conjunct2, THEN conjunct1, THEN mp, OF hyp4]
  have cf: "call_fails flaky_env (before_apply w1 False) (ApplyMutation ?m) = Some ?e"
    by simp
  have s0: "start_sequence (rec_id ingest_record) ingest_world = 0"
    by (simp add: start_sequence_def last_mark_of_def ingest_world_def empty_world_def)
  have e0: "fetched ingest_world = []" "marks ingest_world = []"
    by (simp_all add: ingest_world_def empty_world_def)
  have l1: "length fs1 = 2" using t(1) f1 by (simp add: e0)
  have l2: "length fs2 = 1" using t(2) f1 f2 by simp
  have "[0..<length fs1 + length fs2] = [0, 1, 2]"
    by (simp add: l1 l2 upt_rec)
  with t(3) s0 have sq: "map mark_sequence (marks w2) = [0, 1, 2]"
    by (simp add: e0)
  have cu: "map mark_cursor (marks w2) = map (page_cursor \<circ> snd) (fetched w2)"
    using t(1,2,4) by (simp add: e0)
  have b1': "ingestOneBurst 3 flaky_env ''i1''
       (snd (setProviderBursting flaky_env ''i1'' (after_read flaky_env ingest_world))) =
       Some (Inl ?e, w1)"
    using b1 by (simp add: wb_def wa_def)
  have b3': "ingestOneBurst 1 flaky_env ''i1''
       (snd (setProviderBursting flaky_env ''i1'' (after_read flaky_env flaky_after2))) =
       Some (Inr True, w2)"
    using b3 by (simp add: wb3_def wa3_def)
  let ?mk = "mark flaky_env ''i1'' 1 [] False (Some 2) half_done_world"
  have down: "\<forall>x mm. marks x = marks half_done_world @
                 [new_mark ''i1'' (uuid_next half_done_world) 1 (Some 2)] \<and>
               mutations x = mutations half_done_world \<longrightarrow>
               call_fails flaky_env x (ApplyMutation mm) = Some ?e"
    by (simp add: flaky_env_def half_done_world_def empty_world_def)
  have lt: "last (trace (snd ?mk)) = ApplyMutation ?m"
    by (simp add: mark_def bindE_def returnE_def createMark_def computeRemoved_def
        applyMutation_def invoke_def Let_def flaky_defs half_done_world_def)
  have hyp1: "(\<forall>x mm. marks x = marks half_done_world @
                 [new_mark ''i1'' (uuid_next half_done_world) 1 (Some 2)] \<and>
               mutations x = mutations half_done_world \<longrightarrow>
               call_fails flaky_env x (ApplyMutation mm) = Some ?e) \<and>
      mark flaky_env ''i1'' 1 [] False (Some 2) half_done_world = (fst ?mk, snd ?mk)"
    using down by simp
  from th[THEN conjunct1, THEN mp, OF hyp1] lt
  have mk: "fst ?mk = Inl ?e" "mutations (snd ?mk) = mutations half_done_world"
    "marks (snd ?mk) =
       marks half_done_world @ [new_mark ''i1'' (uuid_next half_done_world) 1 (Some 2)]"
    by simp_all
  have u1: "uuid_next half_done_world = 1" by (simp add: half_done_world_def)
  from b1' ap cf flaky_ticks(1,2) sp b3' f2 m2 sq cu
  have ex: "\<exists>w1 m w2.
     ingestOneBurst 3 flaky_env ''i1''
       (snd (setProviderBursting flaky_env ''i1'' (after_read flaky_env ingest_world))) =
       Some (Inl (JsError ''Error'' ''target store down''), w1) \<and>
     last (trace w1) = ApplyMutation m \<and>
     call_fails flaky_env (before_apply w1 False) (ApplyMutation m) =
       Some (JsError ''Error'' ''target store down'') \<and>
     handleNextAction 3 flaky_env ingest_world = Some (Inr (), flaky_after1) \<and>
     handleNextAction 3 flaky_env flaky_after1 = Some (Inr (), flaky_after2) \<and>
     same_progress w1 flaky_after2 \<and>
     ingestOneBurst 1 flaky_env ''i1''
       (snd (setProviderBursting flaky_env ''i1'' (after_read flaky_env flaky_after2))) =
       Some (Inr True, w2) \<and>
     length (fetched w2) = 3 \<and> length (mutations w2) = 2 \<and>
     map mark_sequence (marks w2) = [0, 1, 2] \<and>
     map mark_cursor (marks w2) = map (page_cursor \<circ> snd) (fetched w2)"
    by (intro exI[of _ w1] exI[of _ ?m] exI[of _ w2] conjI)
  from mk(1,2) mk(3)[unfolded u1] ex show ?thesis by (intro conjI)
qed

end
